(* ===== verification/Prelude.thy ===== *)
theory Prelude
  imports Complex_Main "HOL-Library.AList"
begin

text \<open>
  Shared vocabulary of the development. Python floats are modelled as
  \<open>pyfloat = real option\<close>: \<open>Some x\<close> is a finite value, \<open>None\<close> is NaN
  (\<open>np.nan\<close>, pandas' missing value). Rounding of IEEE doubles is not modelled:
  arithmetic on \<open>Some\<close> values is exact real arithmetic. The NaN-propagating
  operations pandas applies element-wise are defined here once, with their
  evaluation rules collected in \<open>float_simps\<close>. A call into a library that may
  raise (yfinance, requests, pandas parsers) returns a \<open>call_result\<close>. Python's
  \<open>str\<close> of a natural number is \<open>nat_to_string\<close>, and \<open>digits_to_nat\<close>
  reads decimal digits back.
\<close>

named_theorems float_simps "evaluation rules of the NaN-aware float operations"
named_theorems length_simps "length of the series the model computes"

type_synonym pyfloat = "real option"

datatype 'a call_result = Raised | Returned 'a

definition nan_add :: "pyfloat \<Rightarrow> pyfloat \<Rightarrow> pyfloat" where
  "nan_add a b = (case (a, b) of (Some x, Some y) \<Rightarrow> Some (x + y) | _ \<Rightarrow> None)"

definition nan_sub :: "pyfloat \<Rightarrow> pyfloat \<Rightarrow> pyfloat" where
  "nan_sub a b = (case (a, b) of (Some x, Some y) \<Rightarrow> Some (x - y) | _ \<Rightarrow> None)"

definition nan_gt :: "pyfloat \<Rightarrow> real \<Rightarrow> bool" where
  "nan_gt a c = (case a of Some x \<Rightarrow> c < x | None \<Rightarrow> False)"

definition nan_lt :: "pyfloat \<Rightarrow> real \<Rightarrow> bool" where
  "nan_lt a c = (case a of Some x \<Rightarrow> x < c | None \<Rightarrow> False)"

fun nat_to_string :: "nat \<Rightarrow> string" where
  "nat_to_string n =
     (if n < 10 then [char_of (48 + n)]
      else nat_to_string (n div 10) @ [char_of (48 + n mod 10)])"

declare nat_to_string.simps [simp del]

definition is_digit :: "char \<Rightarrow> bool" where
  "is_digit c \<longleftrightarrow> 48 \<le> (of_char c :: nat) \<and> (of_char c :: nat) \<le> 57"

definition digits_to_nat :: "string \<Rightarrow> nat" where
  "digits_to_nat s = foldl (\<lambda>acc c. acc * 10 + (of_char c - 48)) 0 s"

subsection \<open>Evaluation rules of the float operations\<close>

lemma nan_add_simps [simp, float_simps]:
  "nan_add (Some x) (Some y) = Some (x + y)"
  "nan_add None b = None"
  "nan_add a None = None"
  by (simp_all add: nan_add_def split: option.splits)

lemma nan_sub_simps [simp, float_simps]:
  "nan_sub (Some x) (Some y) = Some (x - y)"
  "nan_sub None b = None"
  "nan_sub a None = None"
  by (simp_all add: nan_sub_def split: option.splits)

lemma nan_cmp_simps [simp, float_simps]:
  "nan_gt (Some x) c = (c < x)"
  "nan_gt None c = False"
  "nan_lt (Some x) c = (x < c)"
  "nan_lt None c = False"
  by (simp_all add: nan_gt_def nan_lt_def)

subsection \<open>Decimal rendering of natural numbers\<close>

lemma nat_to_string_small [simp]: "n < 10 \<Longrightarrow> nat_to_string n = [char_of (48 + n)]"
  by (simp add: nat_to_string.simps)

lemma nat_to_string_nonempty: "nat_to_string n \<noteq> []"
  by (induction n rule: nat_to_string.induct) (simp add: nat_to_string.simps)

lemma of_char_digit [simp]: "n < 10 \<Longrightarrow> (of_char (char_of (48 + n)) :: nat) = 48 + n"
  by (simp add: of_char_of)

lemma nat_to_string_digits: "\<forall>c \<in> set (nat_to_string n). is_digit c"
proof (induction n rule: nat_to_string.induct)
  case (1 n)
  then show ?case
    by (subst nat_to_string.simps) (auto simp: is_digit_def)
qed

lemma digits_to_nat_snoc: "digits_to_nat (s @ [c]) = digits_to_nat s * 10 + (of_char c - 48)"
  by (simp add: digits_to_nat_def)

lemma digits_to_nat_nat_to_string: "digits_to_nat (nat_to_string n) = n"
proof (induction n rule: nat_to_string.induct)
  case (1 n)
  show ?case
  proof (cases "n < 10")
    case True
    then show ?thesis by (simp add: digits_to_nat_def)
  next
    case False
    then have "digits_to_nat (nat_to_string n) = digits_to_nat (nat_to_string (n div 10)) * 10 + n mod 10"
      by (simp add: nat_to_string.simps [of n] digits_to_nat_snoc)
    also have "\<dots> = n" using False "1.IH" by simp
    finally show ?thesis .
  qed
qed

subsection \<open>Lists\<close>

lemma map_enumerate_map:
  assumes "\<And>i x. x \<in> set xs \<Longrightarrow> F i (g x) = G x"
  shows "map (\<lambda>(i, r). F i r) (enumerate n (map g xs)) = map G xs"
  using assms by (induction xs arbitrary: n) simp_all

end
