(* ===== verification/Rsi.thy ===== *)
theory Rsi
  imports Prelude
begin

text \<open>
  The RSI engine, \<open>calculate_rsi\<close> of \<open>src/apprsi.py\<close> (lines 98--115), and the
  pandas operations it applies. A price frame is a list of bars, each with the
  four columns Open, High, Low, Close as \<open>pyfloat\<close>s (NaN possible). The
  engine computes the OHLC4 series, its first differences, the gain and loss
  series (\<open>Series.where\<close>, which replaces NaN by 0), their exponentially
  weighted means (\<open>Series.ewm(span, adjust=False, min_periods)\<close>), and the RSI
  of the last smoothed values. Every \<open>return np.nan\<close> and the exception raised by
  an invalid span are the value \<open>None\<close>.
\<close>

record bar =
  bar_open :: pyfloat
  bar_high :: pyfloat
  bar_low :: pyfloat
  bar_close :: pyfloat

type_synonym frame = "bar list"

subsection \<open>Series operations\<close>

text \<open>\<open>(Open + High + Low + Close) / 4\<close>, element-wise, NaN-propagating.\<close>

definition ohlc4 :: "frame \<Rightarrow> pyfloat list" where
  "ohlc4 p =
     map (\<lambda>b. map_option (\<lambda>s. s / 4)
                (nan_add (nan_add (nan_add (bar_open b) (bar_high b)) (bar_low b)) (bar_close b))) p"

text \<open>\<open>Series.diff()\<close>: NaN first, then each value minus its predecessor.\<close>

fun series_diff :: "pyfloat list \<Rightarrow> pyfloat list" where
  "series_diff [] = []"
| "series_diff (x # xs) = None # map2 nan_sub xs (x # xs)"

text \<open>
  \<open>delta.where(delta > 0, 0)\<close> and \<open>-delta.where(delta < 0, 0)\<close>: where the
  condition is false, and in particular where \<open>delta\<close> is NaN (a comparison with
  NaN is false), the value is 0. The results hold no NaN, so they are real series.
\<close>

definition where_gain :: "pyfloat \<Rightarrow> real" where
  "where_gain d = (if nan_gt d 0 then the d else 0)"

definition where_loss :: "pyfloat \<Rightarrow> real" where
  "where_loss d = - (if nan_lt d 0 then the d else 0)"

definition rsi_gains :: "frame \<Rightarrow> real list" where
  "rsi_gains p = map where_gain (series_diff (ohlc4 p))"

definition rsi_losses :: "frame \<Rightarrow> real list" where
  "rsi_losses p = map where_loss (series_diff (ohlc4 p))"

text \<open>
  \<open>Series.ewm(span=s, adjust=False).mean()\<close> on a series without NaN: the first
  value is the first observation, then \<open>y' = (1 - \<alpha>) * y + \<alpha> * x\<close> with
  \<open>\<alpha> = 2 / (s + 1)\<close>.
\<close>

definition ewm_step :: "real \<Rightarrow> real \<Rightarrow> real \<Rightarrow> real" where
  "ewm_step a y x = (1 - a) * y + a * x"

fun ewm_tail :: "real \<Rightarrow> real \<Rightarrow> real list \<Rightarrow> real list" where
  "ewm_tail a y [] = []"
| "ewm_tail a y (x # xs) = ewm_step a y x # ewm_tail a (ewm_step a y x) xs"

definition ewm_adjust_false :: "real \<Rightarrow> real list \<Rightarrow> real list" where
  "ewm_adjust_false a xs = (case xs of [] \<Rightarrow> [] | x # xs' \<Rightarrow> x # ewm_tail a x xs')"

text \<open>
  \<open>min_periods\<close>: the value at a position is NaN while fewer than \<open>mp\<close>
  observations have been seen; \<open>n\<close> counts the observations before the list.
\<close>

fun min_periods_mask :: "nat \<Rightarrow> nat \<Rightarrow> real list \<Rightarrow> pyfloat list" where
  "min_periods_mask mp n [] = []"
| "min_periods_mask mp n (y # ys) =
     (if Suc n < mp then None else Some y) # min_periods_mask mp (Suc n) ys"

text \<open>
  \<open>ewm(span=span, adjust=False, min_periods=mp).mean()\<close>: pandas raises
  \<open>ValueError\<close> for \<open>span < 1\<close> (the outer \<open>None\<close>) and takes
  \<open>max(min_periods, 1)\<close> as the threshold.
\<close>

definition ewm_mean :: "int \<Rightarrow> int \<Rightarrow> real list \<Rightarrow> pyfloat list option" where
  "ewm_mean sp mp xs =
     (if sp < 1 then None
      else Some (min_periods_mask (nat (max mp 1)) 0
                   (ewm_adjust_false (2 / (of_int sp + 1)) xs)))"

subsection \<open>The engine\<close>

text \<open>Lines 111--114: the RSI of the last smoothed gain and loss.\<close>

definition rsi_from_averages :: "real \<Rightarrow> real \<Rightarrow> real" where
  "rsi_from_averages last_avg_gain last_avg_loss =
     (if last_avg_loss = 0 then (if last_avg_gain > 0 then 100 else 50)
      else let rs = last_avg_gain / last_avg_loss in 100 - 100 / (1 + rs))"

definition calculate_rsi :: "frame option \<Rightarrow> int \<Rightarrow> pyfloat" where
  "calculate_rsi prices period =
     (case prices of
        None \<Rightarrow> None
      | Some p \<Rightarrow>
          if int (length p) < period + 1 then None
          else
            let gains = rsi_gains p; losses = rsi_losses p in
            if int (length gains) < period \<or> int (length losses) < period then None
            else
              (case ewm_mean period period gains of
                 None \<Rightarrow> None
               | Some avg_gains \<Rightarrow>
                   (case ewm_mean period period losses of
                      None \<Rightarrow> None
                    | Some avg_losses \<Rightarrow>
                        if avg_losses = [] \<or> avg_gains = [] then None
                        else
                          (case (last avg_losses, last avg_gains) of
                             (Some last_avg_loss, Some last_avg_gain) \<Rightarrow>
                               Some (rsi_from_averages last_avg_gain last_avg_loss)
                           | _ \<Rightarrow> None))))"

subsection \<open>Reference definitions\<close>

text \<open>
  The smoothing factor of the span convention, and the last value of the
  adjust=False recurrence as a left fold: the abstract form in which the
  lemmas below state what the engine computes.
\<close>

definition span_alpha :: "int \<Rightarrow> real" where
  "span_alpha sp = 2 / (of_int sp + 1)"

definition ewm_last :: "real \<Rightarrow> real list \<Rightarrow> real" where
  "ewm_last a xs = (case xs of [] \<Rightarrow> 0 | x # xs' \<Rightarrow> foldl (ewm_step a) x xs')"

text \<open>Concrete frames at which the theorems below are instantiated.\<close>

definition const_bar :: "real \<Rightarrow> bar" where
  "const_bar x = \<lparr>bar_open = Some x, bar_high = Some x, bar_low = Some x, bar_close = Some x\<rparr>"

definition sample_rising :: frame where
  "sample_rising = map const_bar [1, 2, 3, 4, 5, 6, 7, 8, 9, 10, 11]"

definition sample_falling :: frame where
  "sample_falling = map const_bar [11, 10, 9, 8, 7, 6, 5, 4, 3, 2, 1]"

subsection \<open>Lengths and the shape of the computed series\<close>

lemma length_ohlc4 [simp, length_simps]: "length (ohlc4 p) = length p"
  by (simp add: ohlc4_def)

lemma length_series_diff [simp, length_simps]: "length (series_diff xs) = length xs"
  by (cases xs) auto

lemma length_rsi_gains [simp, length_simps]: "length (rsi_gains p) = length p"
  by (simp add: rsi_gains_def)

lemma length_rsi_losses [simp, length_simps]: "length (rsi_losses p) = length p"
  by (simp add: rsi_losses_def)

lemma length_ewm_tail [simp, length_simps]: "length (ewm_tail a y xs) = length xs"
  by (induction xs arbitrary: y) auto

lemma length_ewm_adjust_false [simp, length_simps]:
  "length (ewm_adjust_false a xs) = length xs"
  by (simp add: ewm_adjust_false_def split: list.split)

lemma length_min_periods_mask [simp, length_simps]:
  "length (min_periods_mask mp n ys) = length ys"
  by (induction ys arbitrary: n) auto

lemma ewm_tail_eq_Nil [simp]: "ewm_tail a y xs = [] \<longleftrightarrow> xs = []"
  by (cases xs) auto

lemma last_ewm_tail: "xs \<noteq> [] \<Longrightarrow> last (ewm_tail a y xs) = foldl (ewm_step a) y xs"
  by (induction xs arbitrary: y) auto

lemma series_diff_eq_Nil [simp]: "series_diff xs = [] \<longleftrightarrow> xs = []"
  by (cases xs) simp_all

lemma rsi_series_eq_Nil [simp]: "rsi_gains p = [] \<longleftrightarrow> p = []" "rsi_losses p = [] \<longleftrightarrow> p = []"
  by (simp_all add: rsi_gains_def rsi_losses_def ohlc4_def)

lemma ewm_adjust_false_eq_Nil [simp]: "ewm_adjust_false a xs = [] \<longleftrightarrow> xs = []"
  by (simp add: ewm_adjust_false_def split: list.split)

lemma min_periods_mask_eq_Nil [simp]: "min_periods_mask mp n ys = [] \<longleftrightarrow> ys = []"
  by (cases ys) auto

lemma last_ewm_adjust_false: "xs \<noteq> [] \<Longrightarrow> last (ewm_adjust_false a xs) = ewm_last a xs"
  by (auto simp: ewm_adjust_false_def ewm_last_def last_ewm_tail split: list.split)

lemma last_min_periods_mask:
  "ys \<noteq> [] \<Longrightarrow> mp \<le> n + length ys \<Longrightarrow> last (min_periods_mask mp n ys) = Some (last ys)"
proof (induction ys arbitrary: n)
  case Nil
  then show ?case by simp
next
  case (Cons y ys)
  show ?case
  proof (cases ys)
    case Nil
    with Cons.prems show ?thesis by simp
  next
    case (Cons y' ys')
    with Cons.prems have "last (min_periods_mask mp (Suc n) ys) = Some (last ys)"
      by (intro Cons.IH) auto
    with Cons show ?thesis by simp
  qed
qed

lemma ewm_mean_Some:
  "1 \<le> sp \<Longrightarrow> sp \<le> int (length xs) \<Longrightarrow>
   \<exists>ys. ewm_mean sp sp xs = Some ys \<and> ys \<noteq> [] \<and> last ys = Some (ewm_last (span_alpha sp) xs)"
proof -
  assume sp: "1 \<le> sp" "sp \<le> int (length xs)"
  then have ne: "xs \<noteq> []" by auto
  have "nat (max sp 1) \<le> 0 + length (ewm_adjust_false (span_alpha sp) xs)"
    using sp by simp
  with ne sp show ?thesis
    by (simp add: ewm_mean_def span_alpha_def last_min_periods_mask last_ewm_adjust_false)
qed

lemma calculate_rsi_Some_eq:
  "calculate_rsi (Some p) period =
     (if 1 \<le> period \<and> period + 1 \<le> int (length p)
      then Some (rsi_from_averages (ewm_last (span_alpha period) (rsi_gains p))
                                   (ewm_last (span_alpha period) (rsi_losses p)))
      else None)"
proof (cases "1 \<le> period \<and> period + 1 \<le> int (length p)")
  case True
  from True obtain g where g: "ewm_mean period period (rsi_gains p) = Some g" "g \<noteq> []"
      "last g = Some (ewm_last (span_alpha period) (rsi_gains p))"
    using ewm_mean_Some [of period "rsi_gains p"] by auto
  from True obtain l where l: "ewm_mean period period (rsi_losses p) = Some l" "l \<noteq> []"
      "last l = Some (ewm_last (span_alpha period) (rsi_losses p))"
    using ewm_mean_Some [of period "rsi_losses p"] by auto
  from True g l show ?thesis by (simp add: calculate_rsi_def Let_def)
next
  case False
  then show ?thesis by (auto simp: calculate_rsi_def Let_def ewm_mean_def)
qed

lemma map2_nan_sub_Some [simp]:
  "map2 nan_sub (map Some xs) (map Some ys) = map Some (map2 (-) xs ys)"
proof (induction xs arbitrary: ys)
  case Nil
  then show ?case by simp
next
  case (Cons x xs)
  then show ?case by (cases ys) auto
qed

lemma series_diff_map_Some:
  "series_diff (map Some (t # ts)) = None # map Some (map2 (-) ts (t # ts))"
proof -
  have "series_diff (map Some (t # ts)) = None # map2 nan_sub (map Some ts) (map Some (t # ts))"
    by (simp only: list.map(2) series_diff.simps)
  then show ?thesis by (simp only: map2_nan_sub_Some)
qed

lemma where_gain_simps [simp]:
  "where_gain None = 0" "where_gain (Some d) = max d 0"
  by (simp_all add: where_gain_def)

lemma where_loss_simps [simp]:
  "where_loss None = 0" "where_loss (Some d) = max (- d) 0"
  by (simp_all add: where_loss_def)

lemma where_gain_nonneg: "0 \<le> where_gain d"
  by (cases d) auto

lemma where_loss_nonneg: "0 \<le> where_loss d"
  by (cases d) auto

lemma rsi_gains_nonneg: "\<forall>x \<in> set (rsi_gains p). 0 \<le> x"
  by (simp add: rsi_gains_def where_gain_nonneg)

lemma rsi_losses_nonneg: "\<forall>x \<in> set (rsi_losses p). 0 \<le> x"
  by (simp add: rsi_losses_def where_loss_nonneg)

lemma rsi_series_of_typical:
  assumes "ohlc4 p = map Some (t # ts)"
  shows "rsi_gains p = 0 # map (\<lambda>d. max d 0) (map2 (-) ts (t # ts))"
    and "rsi_losses p = 0 # map (\<lambda>d. max (- d) 0) (map2 (-) ts (t # ts))"
  unfolding rsi_gains_def rsi_losses_def assms series_diff_map_Some by simp_all

lemma sorted_wrt_less_deltas:
  "sorted_wrt (<) (t # ts) \<Longrightarrow> \<forall>d \<in> set (map2 (-) ts (t # ts)). (0::real) < d"
proof (induction ts arbitrary: t)
  case Nil
  then show ?case by simp
next
  case (Cons u us)
  from Cons.prems have "t < u" "sorted_wrt (<) (u # us)" by auto
  with Cons.IH have "\<forall>d \<in> set (map2 (-) us (u # us)). 0 < d" by blast
  with \<open>t < u\<close> show ?case by simp
qed

lemma sorted_wrt_greater_deltas:
  "sorted_wrt (>) (t # ts) \<Longrightarrow> \<forall>d \<in> set (map2 (-) ts (t # ts)). (d::real) < 0"
proof (induction ts arbitrary: t)
  case Nil
  then show ?case by simp
next
  case (Cons u us)
  from Cons.prems have "t > u" "sorted_wrt (>) (u # us)" by auto
  with Cons.IH have "\<forall>d \<in> set (map2 (-) us (u # us)). d < 0" by blast
  with \<open>t > u\<close> show ?case by simp
qed

subsection \<open>The exponentially weighted mean\<close>

lemma ewm_step_between:
  assumes "0 \<le> a" "a \<le> 1" "lo \<le> y" "y \<le> hi" "lo \<le> x" "x \<le> hi"
  shows "lo \<le> ewm_step a y x \<and> ewm_step a y x \<le> hi"
proof -
  have "(1 - a) * lo \<le> (1 - a) * y" "a * lo \<le> a * x"
    using assms by (simp_all add: mult_left_mono)
  moreover have "(1 - a) * y \<le> (1 - a) * hi" "a * x \<le> a * hi"
    using assms by (simp_all add: mult_left_mono)
  moreover have "(1 - a) * lo + a * lo = lo" "(1 - a) * hi + a * hi = hi"
    by (simp_all add: algebra_simps)
  ultimately show ?thesis
    unfolding ewm_step_def by linarith
qed

lemma ewm_fold_between:
  "0 \<le> a \<Longrightarrow> a \<le> 1 \<Longrightarrow> lo \<le> y \<Longrightarrow> y \<le> hi \<Longrightarrow> \<forall>x \<in> set xs. lo \<le> x \<and> x \<le> hi \<Longrightarrow>
   lo \<le> foldl (ewm_step a) y xs \<and> foldl (ewm_step a) y xs \<le> hi"
proof (induction xs arbitrary: y)
  case Nil
  then show ?case by simp
next
  case (Cons x xs)
  have "lo \<le> ewm_step a y x \<and> ewm_step a y x \<le> hi"
    using Cons.prems by (intro ewm_step_between) auto
  then show ?case using Cons.prems by (simp add: Cons.IH)
qed


lemma ewm_fold_zero: "\<forall>x \<in> set xs. x = 0 \<Longrightarrow> foldl (ewm_step a) 0 xs = 0"
proof (induction xs)
  case Nil
  then show ?case by simp
next
  case (Cons x xs)
  then show ?case by (simp add: ewm_step_def)
qed

lemma ewm_fold_nonneg:
  "0 \<le> a \<Longrightarrow> a \<le> 1 \<Longrightarrow> 0 \<le> y \<Longrightarrow> \<forall>x \<in> set xs. 0 \<le> x \<Longrightarrow> 0 \<le> foldl (ewm_step a) y xs"
proof (induction xs arbitrary: y)
  case Nil
  then show ?case by simp
next
  case (Cons x xs)
  have "0 \<le> ewm_step a y x"
    using Cons.prems unfolding ewm_step_def by (simp add: mult_nonneg_nonneg)
  then show ?case using Cons.prems by (simp add: Cons.IH)
qed

lemma ewm_fold_pos:
  assumes "0 < a" "a \<le> 1" "0 \<le> y" "\<forall>x \<in> set xs. 0 \<le> x" "xs \<noteq> []" "0 < last xs"
  shows "0 < foldl (ewm_step a) y xs"
proof -
  obtain ys x where xs: "xs = ys @ [x]"
    using assms(5) by (cases xs rule: rev_cases) auto
  have "0 \<le> foldl (ewm_step a) y ys"
    using assms xs by (intro ewm_fold_nonneg) auto
  moreover have "0 < a * x" using assms xs by simp
  moreover have "0 \<le> 1 - a" using assms by simp
  ultimately show ?thesis
    using xs by (simp add: ewm_step_def add_nonneg_pos)
qed

lemma ewm_fold_closed_form:
  "foldl (ewm_step a) y xs =
     (1 - a) ^ length xs * y + (\<Sum>i < length xs. a * (1 - a) ^ (length xs - Suc i) * xs ! i)"
proof (induction xs rule: rev_induct)
  case Nil
  then show ?case by simp
next
  case (snoc x xs)
  let ?n = "length xs"
  have sum: "(1 - a) * (\<Sum>i < ?n. a * (1 - a) ^ (?n - Suc i) * xs ! i)
           = (\<Sum>i < ?n. a * (1 - a) ^ (Suc ?n - Suc i) * (xs @ [x]) ! i)"
    unfolding sum_distrib_left
  proof (rule sum.cong)
    fix i assume "i \<in> {..< ?n}"
    then have i: "i < ?n" and e: "Suc ?n - Suc i = Suc (?n - Suc i)" by auto
    show "(1 - a) * (a * (1 - a) ^ (?n - Suc i) * xs ! i)
        = a * (1 - a) ^ (Suc ?n - Suc i) * (xs @ [x]) ! i"
      unfolding e using i by (simp add: nth_append algebra_simps)
  qed simp
  have "foldl (ewm_step a) y (xs @ [x]) = (1 - a) * foldl (ewm_step a) y xs + a * x"
    by (simp add: ewm_step_def)
  also have "\<dots> = (1 - a) ^ Suc ?n * y + (1 - a) * (\<Sum>i < ?n. a * (1 - a) ^ (?n - Suc i) * xs ! i) + a * x"
    by (simp add: snoc.IH algebra_simps)
  also have "\<dots> = (1 - a) ^ Suc ?n * y + (\<Sum>i < Suc ?n. a * (1 - a) ^ (Suc ?n - Suc i) * (xs @ [x]) ! i)"
    by (simp add: sum)
  finally show ?case by simp
qed

lemma rsi_from_averages_range:
  assumes "0 \<le> g" "0 \<le> l"
  shows "0 \<le> rsi_from_averages g l \<and> rsi_from_averages g l \<le> 100"
proof (cases "l = 0")
  case True
  then show ?thesis by (simp add: rsi_from_averages_def)
next
  case False
  with assms have "0 \<le> g / l" by simp
  then have "1 \<le> 1 + g / l" by simp
  then have "100 / (1 + g / l) \<le> 100" and "0 \<le> 100 / (1 + g / l)"
    by (simp_all add: divide_le_eq)
  with False show ?thesis by (simp add: rsi_from_averages_def Let_def)
qed

subsection \<open>Properties of the engine\<close>

lemma ewm_last_Cons [simp]: "ewm_last a (x # xs) = foldl (ewm_step a) x xs"
  by (simp add: ewm_last_def)

lemma span_alpha_bounds: "1 \<le> sp \<Longrightarrow> 0 < span_alpha sp \<and> span_alpha sp \<le> 1"
  by (simp add: span_alpha_def field_simps)

lemma ewm_last_nonneg:
  "0 \<le> a \<Longrightarrow> a \<le> 1 \<Longrightarrow> \<forall>x \<in> set xs. 0 \<le> x \<Longrightarrow> 0 \<le> ewm_last a xs"
  by (cases xs) (auto simp: ewm_last_def intro: ewm_fold_nonneg)

lemma ewm_last_zero: "\<forall>x \<in> set xs. x = 0 \<Longrightarrow> ewm_last a xs = 0"
  by (cases xs) (auto simp: ewm_last_def ewm_fold_zero)

lemma calculate_rsi_None [simp]: "calculate_rsi None period = None"
  by (simp add: calculate_rsi_def)

lemma calculate_rsi_SomeD:
  assumes "calculate_rsi prices period = Some r"
  obtains p where "prices = Some p" "1 \<le> period" "period + 1 \<le> int (length p)"
    "r = rsi_from_averages (ewm_last (span_alpha period) (rsi_gains p))
                           (ewm_last (span_alpha period) (rsi_losses p))"
  using assms by (cases prices) (auto simp: calculate_rsi_Some_eq split: if_splits)

lemma calculate_rsi_defined:
  "calculate_rsi prices period \<noteq> None \<longleftrightarrow>
     (\<exists>p. prices = Some p \<and> 1 \<le> period \<and> period + 1 \<le> int (length p))"
  by (cases prices) (simp_all add: calculate_rsi_Some_eq)

lemma calculate_rsi_bounded:
  assumes "calculate_rsi prices period = Some r"
  shows "0 \<le> r \<and> r \<le> 100"
proof -
  from assms obtain p where c: "1 \<le> period"
    and r: "r = rsi_from_averages (ewm_last (span_alpha period) (rsi_gains p))
                                  (ewm_last (span_alpha period) (rsi_losses p))"
    by (rule calculate_rsi_SomeD)
  from span_alpha_bounds [OF c] have "0 \<le> span_alpha period" "span_alpha period \<le> 1"
    by auto
  then have "0 \<le> ewm_last (span_alpha period) (rsi_gains p)"
    and "0 \<le> ewm_last (span_alpha period) (rsi_losses p)"
    by (simp_all add: ewm_last_nonneg rsi_gains_nonneg rsi_losses_nonneg)
  with r show ?thesis by (simp add: rsi_from_averages_range)
qed

lemma calculate_rsi_no_moves:
  assumes "1 \<le> period" "period + 1 \<le> int (length p)"
    and "\<forall>x \<in> set (rsi_gains p). x = 0" "\<forall>x \<in> set (rsi_losses p). x = 0"
  shows "calculate_rsi (Some p) period = Some 50"
  using assms by (simp add: calculate_rsi_Some_eq ewm_last_zero rsi_from_averages_def)

lemma typical_Cons:
  assumes "1 \<le> period" "period + 1 \<le> int (length p)" "ohlc4 p = map Some ts"
  obtains t ts' where "ts = t # ts'" "ts' \<noteq> []"
proof -
  have "length ts = length p"
    using arg_cong [OF assms(3), of length] by simp
  moreover have "2 \<le> int (length p)"
    using assms(1,2) by linarith
  ultimately have "2 \<le> length ts" by simp
  then show ?thesis using that by (cases ts; cases "tl ts") auto
qed

text \<open>
  C4. For a frame whose typical prices (OHLC4) are all defined and strictly
  increasing, with at least \<open>period + 1\<close> bars, the engine returns 100: every
  smoothed loss is 0 and the smoothed gain is positive.
\<close>

theorem calculate_rsi_increasing:
  assumes "1 \<le> period" "period + 1 \<le> int (length p)"
    and typical: "ohlc4 p = map Some ts" and increasing: "sorted_wrt (<) ts"
  shows "calculate_rsi (Some p) period = Some 100"
proof -
  obtain t ts' where ts: "ts = t # ts'" "ts' \<noteq> []"
    using assms(1-3) by (rule typical_Cons)
  let ?ds = "map2 (-) ts' (t # ts')"
  let ?a = "span_alpha period"
  have pos: "\<forall>d \<in> set ?ds. 0 < d"
    using sorted_wrt_less_deltas [of t ts'] increasing unfolding ts(1) by blast
  have "rsi_gains p = 0 # ?ds"
    using rsi_series_of_typical(1) [OF typical [unfolded ts]] pos
    by (simp add: map_idI)
  moreover have "rsi_losses p = 0 # map (\<lambda>d. 0) ?ds"
    using rsi_series_of_typical(2) [OF typical [unfolded ts]] pos by simp
  moreover have "0 < foldl (ewm_step ?a) 0 ?ds"
  proof (rule ewm_fold_pos)
    show "0 < ?a" "?a \<le> 1" using span_alpha_bounds [OF assms(1)] by auto
    show ne: "?ds \<noteq> []" using ts by (cases ts') auto
    from last_in_set [OF ne] pos show "0 < last ?ds" by blast
  qed (use pos in auto)
  ultimately show ?thesis
    using assms(1,2)
    by (simp add: calculate_rsi_Some_eq ewm_fold_zero rsi_from_averages_def)
qed

theorem calculate_rsi_increasing_witness:
  "1 \<le> (10::int) \<and> 10 + 1 \<le> int (length sample_rising) \<and>
   ohlc4 sample_rising = map Some [1, 2, 3, 4, 5, 6, 7, 8, 9, 10, 11] \<and> sorted_wrt (<) ([1, 2, 3, 4, 5, 6, 7, 8, 9, 10, 11] :: real list) \<and>
   calculate_rsi (Some sample_rising) 10 = Some 100"
proof -
  have h: "1 \<le> (10::int)" "10 + 1 \<le> int (length sample_rising)"
    "ohlc4 sample_rising = map Some [1, 2, 3, 4, 5, 6, 7, 8, 9, 10, 11]" "sorted_wrt (<) ([1, 2, 3, 4, 5, 6, 7, 8, 9, 10, 11] :: real list)"
    by (simp_all add: sample_rising_def ohlc4_def const_bar_def)
  show ?thesis using h calculate_rsi_increasing [OF h] by simp
qed

text \<open>
  C5. For a frame whose typical prices are all defined and strictly decreasing,
  with at least \<open>period + 1\<close> bars, the engine returns exactly 0: the smoothed
  gain is 0 and the smoothed loss positive, so \<open>RS = 0\<close>.
\<close>

theorem calculate_rsi_decreasing:
  assumes "1 \<le> period" "period + 1 \<le> int (length p)"
    and typical: "ohlc4 p = map Some ts" and decreasing: "sorted_wrt (>) ts"
  shows "calculate_rsi (Some p) period = Some 0"
proof -
  obtain t ts' where ts: "ts = t # ts'" "ts' \<noteq> []"
    using assms(1-3) by (rule typical_Cons)
  let ?ds = "map2 (-) ts' (t # ts')"
  let ?a = "span_alpha period"
  have neg: "\<forall>d \<in> set ?ds. d < 0"
    using sorted_wrt_greater_deltas [of t ts'] decreasing unfolding ts(1) by blast
  have "rsi_gains p = 0 # map (\<lambda>d. 0) ?ds"
    using rsi_series_of_typical(1) [OF typical [unfolded ts]] neg by simp
  moreover have "rsi_losses p = 0 # map uminus ?ds"
    using rsi_series_of_typical(2) [OF typical [unfolded ts]] neg by simp
  moreover have "0 < foldl (ewm_step ?a) 0 (map uminus ?ds)"
  proof (rule ewm_fold_pos)
    show "0 < ?a" "?a \<le> 1" using span_alpha_bounds [OF assms(1)] by auto
    show "map uminus ?ds \<noteq> []" using ts by (cases ts') auto
    then show "0 < last (map uminus ?ds)" using neg by (simp add: last_map)
  qed (use neg in auto)
  ultimately show ?thesis
    using assms(1,2)
    by (simp add: calculate_rsi_Some_eq ewm_fold_zero rsi_from_averages_def)
qed

theorem calculate_rsi_decreasing_witness:
  "1 \<le> (10::int) \<and> 10 + 1 \<le> int (length sample_falling) \<and>
   ohlc4 sample_falling = map Some [11, 10, 9, 8, 7, 6, 5, 4, 3, 2, 1] \<and> sorted_wrt (>) ([11, 10, 9, 8, 7, 6, 5, 4, 3, 2, 1] :: real list) \<and>
   calculate_rsi (Some sample_falling) 10 = Some 0"
proof -
  have h: "1 \<le> (10::int)" "10 + 1 \<le> int (length sample_falling)"
    "ohlc4 sample_falling = map Some [11, 10, 9, 8, 7, 6, 5, 4, 3, 2, 1]" "sorted_wrt (>) ([11, 10, 9, 8, 7, 6, 5, 4, 3, 2, 1] :: real list)"
    by (simp_all add: sample_falling_def ohlc4_def const_bar_def)
  show ?thesis using h calculate_rsi_decreasing [OF h] by simp
qed

lemma zip_replicate_shift: "zip (replicate n c) (c # replicate n c) = replicate n (c, c)"
  by (induction n) auto

lemma series_diff_all_nan:
  "\<forall>x \<in> set xs. x = None \<Longrightarrow> \<forall>d \<in> set (series_diff xs). d = None"
  by (cases xs) (auto dest!: set_zip_leftD)

lemma const_frame_series_zero:
  "(\<forall>x \<in> set (rsi_gains (replicate n (const_bar c))). x = 0) \<and>
   (\<forall>x \<in> set (rsi_losses (replicate n (const_bar c))). x = 0)"
proof (cases n)
  case 0
  then show ?thesis by (simp add: rsi_gains_def rsi_losses_def ohlc4_def)
next
  case (Suc m)
  have typical: "ohlc4 (replicate n (const_bar c)) = map Some (c # replicate m c)"
    by (simp add: Suc ohlc4_def const_bar_def)
  show ?thesis by (simp add: rsi_series_of_typical [OF typical] zip_replicate_shift)
qed

lemma calculate_rsi_const_frame:
  assumes "1 \<le> period" "period + 1 \<le> int n"
  shows "calculate_rsi (Some (replicate n (const_bar c))) period = Some 50"
  using assms const_frame_series_zero by (intro calculate_rsi_no_moves) simp_all

text \<open>
  C6. For a flat frame (every typical price the same defined value) with at
  least \<open>period + 1\<close> bars, the engine returns 50: both smoothed averages are 0.
\<close>

theorem calculate_rsi_flat:
  assumes "1 \<le> period" "period + 1 \<le> int (length p)"
    and flat: "ohlc4 p = replicate (length p) (Some c)"
  shows "calculate_rsi (Some p) period = Some 50"
proof -
  from assms(1,2) obtain n where n: "length p = Suc n"
    by (cases "length p") auto
  with flat have typical: "ohlc4 p = map Some (c # replicate n c)" by simp
  have "\<forall>x \<in> set (rsi_gains p). x = 0" "\<forall>x \<in> set (rsi_losses p). x = 0"
    by (simp_all add: rsi_series_of_typical [OF typical] zip_replicate_shift)
  with assms(1,2) show ?thesis by (rule calculate_rsi_no_moves)
qed

theorem calculate_rsi_flat_witness:
  "1 \<le> (10::int) \<and> 10 + 1 \<le> int (length (replicate 11 (const_bar 5))) \<and>
   ohlc4 (replicate 11 (const_bar 5)) = replicate (length (replicate 11 (const_bar 5))) (Some 5) \<and>
   calculate_rsi (Some (replicate 11 (const_bar 5))) 10 = Some 50"
proof -
  have h: "1 \<le> (10::int)" "10 + 1 \<le> int (length (replicate 11 (const_bar 5)))"
    "ohlc4 (replicate 11 (const_bar 5)) = replicate (length (replicate 11 (const_bar 5))) (Some 5)"
    by (simp_all add: ohlc4_def const_bar_def)
  show ?thesis using h calculate_rsi_flat [OF h] by simp
qed

text \<open>
  C7. A frame whose Close column is NaN throughout, with at least
  \<open>period + 1\<close> bars, does not give an undefined RSI: \<open>Series.where\<close> turns
  every NaN difference into a zero gain and a zero loss, and the engine returns
  50.
\<close>

theorem calculate_rsi_nan_closes:
  assumes "1 \<le> period" "period + 1 \<le> int (length p)"
    and nan: "\<forall>b \<in> set p. bar_close b = None"
  shows "calculate_rsi (Some p) period = Some 50"
proof -
  have "\<forall>x \<in> set (ohlc4 p). x = None"
    using nan by (auto simp: ohlc4_def)
  then have "\<forall>d \<in> set (series_diff (ohlc4 p)). d = None"
    by (rule series_diff_all_nan)
  then have "\<forall>x \<in> set (rsi_gains p). x = 0" "\<forall>x \<in> set (rsi_losses p). x = 0"
    by (auto simp: rsi_gains_def rsi_losses_def)
  with assms(1,2) show ?thesis by (rule calculate_rsi_no_moves)
qed

theorem calculate_rsi_nan_closes_witness:
  "1 \<le> (10::int) \<and> 10 + 1 \<le> int (length (replicate 11 (const_bar 5\<lparr>bar_close := None\<rparr>))) \<and>
   calculate_rsi (Some (replicate 11 (const_bar 5\<lparr>bar_close := None\<rparr>))) 10 = Some 50"
proof -
  have h: "1 \<le> (10::int)" "10 + 1 \<le> int (length (replicate 11 (const_bar 5\<lparr>bar_close := None\<rparr>)))"
    "\<forall>b \<in> set (replicate 11 (const_bar 5\<lparr>bar_close := None\<rparr>)). bar_close b = None"
    by simp_all
  show ?thesis using h calculate_rsi_nan_closes [OF h] by simp
qed

subsection \<open>Further properties of the engine\<close>

text \<open>
  C1. Whatever the frame and the period, a value returned by the engine lies in
  \<open>[0, 100]\<close>; every other outcome is NaN.
\<close>

theorem calculate_rsi_range:
  assumes "calculate_rsi prices period = Some r"
  shows "0 \<le> r \<and> r \<le> 100"
  using assms by (rule calculate_rsi_bounded)

theorem calculate_rsi_range_witness:
  "calculate_rsi (Some [const_bar 1, const_bar 2]) 1 = Some 100 \<and> 0 \<le> (100::real) \<and> (100::real) \<le> 100"
proof -
  have h: "calculate_rsi (Some [const_bar 1, const_bar 2]) 1 = Some 100"
    by (simp add: calculate_rsi_Some_eq const_bar_def rsi_gains_def rsi_losses_def ohlc4_def
        span_alpha_def ewm_step_def rsi_from_averages_def)
  show ?thesis using h calculate_rsi_range [OF h] by simp
qed

text \<open>
  C2. The engine returns a value exactly when it is given a frame, the period is
  at least 1, and the frame has at least \<open>period + 1\<close> bars. In particular the
  check of line 105 never rejects a frame the check of line 100 accepted, and a
  period below 1 (a span pandas refuses) gives NaN.
\<close>

theorem calculate_rsi_defined_iff:
  "calculate_rsi prices period \<noteq> None \<longleftrightarrow>
     (\<exists>p. prices = Some p \<and> 1 \<le> period \<and> period + 1 \<le> int (length p))"
  by (rule calculate_rsi_defined)

text \<open>
  C3. What the engine computes: for a frame with enough bars and a valid
  period, the RSI of the last values of the span-smoothed gain and loss series
  (\<open>\<alpha> = 2 / (period + 1)\<close>), by the rule of lines 111--114; NaN otherwise.
\<close>

theorem calculate_rsi_value:
  "calculate_rsi prices period =
     (case prices of
        None \<Rightarrow> None
      | Some p \<Rightarrow>
          if 1 \<le> period \<and> period + 1 \<le> int (length p)
          then Some (rsi_from_averages (ewm_last (span_alpha period) (rsi_gains p))
                                       (ewm_last (span_alpha period) (rsi_losses p)))
          else None)"
  by (cases prices) (simp_all add: calculate_rsi_Some_eq)

text \<open>
  C8. The first bar has no difference, yet it contributes an observation: the
  gain and loss series start with 0 (NaN made 0 by \<open>where\<close>), so both smoothed
  averages are seeded with 0 rather than with the first real difference.
\<close>

theorem rsi_series_seed_zero:
  assumes "p \<noteq> []"
  shows "hd (rsi_gains p) = 0 \<and> hd (rsi_losses p) = 0"
  using assms by (cases p) (simp_all add: rsi_gains_def rsi_losses_def ohlc4_def)

theorem rsi_series_seed_zero_witness:
  "sample_rising \<noteq> [] \<and> hd (rsi_gains sample_rising) = 0 \<and> hd (rsi_losses sample_rising) = 0"
proof -
  have h: "sample_rising \<noteq> []" by (simp add: sample_rising_def)
  show ?thesis using h rsi_series_seed_zero [OF h] by simp
qed

text \<open>
  C9. The last value of \<open>ewm(adjust=False)\<close> equals its closed form: the
  first observation weighted \<open>(1 - \<alpha>)^n\<close> plus each later observation \<open>i\<close>
  weighted \<open>\<alpha> (1 - \<alpha>)^(n - 1 - i)\<close>.
\<close>

theorem ewm_adjust_false_closed_form:
  "last (ewm_adjust_false a (x # xs)) =
     (1 - a) ^ length xs * x + (\<Sum>i < length xs. a * (1 - a) ^ (length xs - Suc i) * xs ! i)"
  by (simp add: last_ewm_adjust_false ewm_fold_closed_form)



text \<open>
  C11. Where the smoothed loss is positive, the formula \<open>100 - 100 / (1 + RS)\<close>
  of lines 112--113 equals the share of the smoothed gain in the total movement,
  \<open>100 * gain / (gain + loss)\<close>.
\<close>

theorem rsi_from_averages_ratio:
  assumes "0 \<le> g" "0 < l"
  shows "rsi_from_averages g l = 100 * g / (g + l)"
  using assms by (simp add: rsi_from_averages_def Let_def field_simps)

theorem rsi_from_averages_ratio_witness:
  "0 \<le> (1::real) \<and> 0 < (3::real) \<and> rsi_from_averages 1 3 = 25"
proof -
  have h: "0 \<le> (1::real)" "0 < (3::real)" by simp_all
  show ?thesis using h rsi_from_averages_ratio [OF h] by simp
qed

subsection \<open>Monotonicity in the last price\<close>

lemma zip_snoc_shift: "zip (xs @ [x]) (y # xs @ [x]) = zip xs (y # xs) @ [(x, last (y # xs))]"
  by (induction xs arbitrary: y) simp_all

lemma series_diff_snoc:
  "xs \<noteq> [] \<Longrightarrow> series_diff (xs @ [x]) = series_diff xs @ [nan_sub x (last xs)]"
  by (cases xs) (simp_all add: zip_snoc_shift)

lemma rsi_series_snoc:
  assumes "q \<noteq> []" "ohlc4 [b] = [t]"
  shows "rsi_gains (q @ [b]) = rsi_gains q @ [where_gain (nan_sub t (last (ohlc4 q)))]"
    and "rsi_losses (q @ [b]) = rsi_losses q @ [where_loss (nan_sub t (last (ohlc4 q)))]"
proof -
  have "ohlc4 (q @ [b]) = ohlc4 q @ [t]" using assms(2) by (simp add: ohlc4_def)
  moreover have "ohlc4 q \<noteq> []" using assms(1) by (simp add: ohlc4_def)
  ultimately show "rsi_gains (q @ [b]) = rsi_gains q @ [where_gain (nan_sub t (last (ohlc4 q)))]"
    and "rsi_losses (q @ [b]) = rsi_losses q @ [where_loss (nan_sub t (last (ohlc4 q)))]"
    by (simp_all add: rsi_gains_def rsi_losses_def series_diff_snoc)
qed

lemma ewm_last_snoc: "xs \<noteq> [] \<Longrightarrow> ewm_last a (xs @ [x]) = ewm_step a (ewm_last a xs) x"
  by (cases xs) simp_all

lemma where_gain_mono: "x \<le> x' \<Longrightarrow> where_gain (nan_sub (Some x) t) \<le> where_gain (nan_sub (Some x') t)"
  by (cases t) auto

lemma where_loss_anti: "x \<le> x' \<Longrightarrow> where_loss (nan_sub (Some x') t) \<le> where_loss (nan_sub (Some x) t)"
  by (cases t) auto

lemma ewm_step_mono: "0 \<le> a \<Longrightarrow> x \<le> x' \<Longrightarrow> ewm_step a y x \<le> ewm_step a y x'"
  by (simp add: ewm_step_def mult_left_mono)

lemma rsi_from_averages_pos: "0 \<le> g \<Longrightarrow> 0 < l \<Longrightarrow> rsi_from_averages g l = 100 * g / (g + l)"
  by (simp add: rsi_from_averages_def field_simps)

lemma rsi_from_averages_mono:
  assumes "0 \<le> g" "g \<le> g'" "0 \<le> l'" "l' \<le> l"
  shows "rsi_from_averages g l \<le> rsi_from_averages g' l'"
proof (cases "l = 0")
  case True
  with assms show ?thesis by (auto simp: rsi_from_averages_def)
next
  case False
  then have l: "0 < l" using assms by linarith
  have lhs: "rsi_from_averages g l = 100 * g / (g + l)" using assms(1) l by (rule rsi_from_averages_pos)
  show ?thesis
  proof (cases "l' = 0")
    case True
    have "100 * g / (g + l) \<le> 100" using assms(1) l by (simp add: divide_le_eq)
    moreover have "g' = 0 \<Longrightarrow> 100 * g / (g + l) \<le> 50" using assms(1,2) by simp
    ultimately show ?thesis using True assms lhs by (auto simp: rsi_from_averages_def)
  next
    case False
    then have l': "0 < l'" using assms by linarith
    have "g * l' \<le> g' * l"
      using assms by (meson mult_mono order_trans mult_left_mono)
    then have "g * (g' + l') \<le> g' * (g + l)" by (simp add: algebra_simps)
    then have "100 * g / (g + l) \<le> 100 * g' / (g' + l')"
      using assms l l' by (simp add: divide_le_eq_1 frac_le_eq field_simps)
    then show ?thesis using lhs rsi_from_averages_pos [of g' l'] assms l' by simp
  qed
qed

text \<open>
  C14. Raising the typical price of the last bar never lowers the RSI: for two
  frames that differ only in their last bar, whose OHLC4 values are defined,
  the frame with the higher last value has an RSI at least as high (the last
  difference enters the smoothed gain increasingly and the smoothed loss
  decreasingly).
\<close>

theorem calculate_rsi_mono_last:
  assumes b: "ohlc4 [b] = [Some x]" and b': "ohlc4 [b'] = [Some x']" and le: "x \<le> x'"
    and r: "calculate_rsi (Some (q @ [b])) period = Some r"
    and r': "calculate_rsi (Some (q @ [b'])) period = Some r'"
  shows "r \<le> r'"
proof -
  from r have per: "1 \<le> period" "period + 1 \<le> int (length (q @ [b]))"
    by (simp_all add: calculate_rsi_Some_eq split: if_splits)
  then have q: "q \<noteq> []" by auto
  let ?a = "span_alpha period" and ?t = "last (ohlc4 q)"
  have a: "0 \<le> ?a" "?a \<le> 1" using span_alpha_bounds [OF per(1)] by simp_all
  have ne: "rsi_gains q \<noteq> []" "rsi_losses q \<noteq> []" using q by simp_all
  let ?gG = "ewm_last ?a (rsi_gains q)" and ?lL = "ewm_last ?a (rsi_losses q)"
  have g: "ewm_last ?a (rsi_gains (q @ [c])) = ewm_step ?a ?gG (where_gain (nan_sub t ?t))"
    and l: "ewm_last ?a (rsi_losses (q @ [c])) = ewm_step ?a ?lL (where_loss (nan_sub t ?t))"
    if "ohlc4 [c] = [t]" for c t
    using rsi_series_snoc [OF q that] ne by (simp_all add: ewm_last_snoc)
  have rr: "r = rsi_from_averages (ewm_step ?a ?gG (where_gain (nan_sub (Some x) ?t)))
                                   (ewm_step ?a ?lL (where_loss (nan_sub (Some x) ?t)))"
    using r per by (simp add: calculate_rsi_Some_eq g [OF b] l [OF b])
  have rr': "r' = rsi_from_averages (ewm_step ?a ?gG (where_gain (nan_sub (Some x') ?t)))
                                    (ewm_step ?a ?lL (where_loss (nan_sub (Some x') ?t)))"
    using r' per by (simp add: calculate_rsi_Some_eq g [OF b'] l [OF b'])
  have g0: "0 \<le> ewm_step ?a ?gG (where_gain (nan_sub (Some x) ?t))"
    using ewm_last_nonneg [OF a rsi_gains_nonneg [of "q @ [b]"]] g [OF b] by simp
  have l0: "0 \<le> ewm_step ?a ?lL (where_loss (nan_sub (Some x') ?t))"
    using ewm_last_nonneg [OF a rsi_losses_nonneg [of "q @ [b']"]] l [OF b'] by simp
  have "ewm_step ?a ?gG (where_gain (nan_sub (Some x) ?t)) \<le> ewm_step ?a ?gG (where_gain (nan_sub (Some x') ?t))"
    using a(1) where_gain_mono [OF le] by (rule ewm_step_mono)
  moreover have "ewm_step ?a ?lL (where_loss (nan_sub (Some x') ?t)) \<le> ewm_step ?a ?lL (where_loss (nan_sub (Some x) ?t))"
    using a(1) where_loss_anti [OF le] by (rule ewm_step_mono)
  ultimately show ?thesis unfolding rr rr' by (rule rsi_from_averages_mono [OF g0 _ l0])
qed

theorem calculate_rsi_mono_last_witness:
  "ohlc4 [const_bar 1] = [Some 1] \<and> ohlc4 [const_bar 2] = [Some 2] \<and> (1::real) \<le> 2 \<and>
   calculate_rsi (Some (replicate 11 (const_bar 1) @ [const_bar 1])) 10 = Some 50 \<and>
   calculate_rsi (Some (replicate 11 (const_bar 1) @ [const_bar 2])) 10 = Some 100 \<and> (50::real) \<le> 100"
proof -
  have b: "ohlc4 [const_bar 1] = [Some 1]" "ohlc4 [const_bar 2] = [Some 2]"
    by (simp_all add: ohlc4_def const_bar_def)
  have e: "replicate 11 (const_bar 1) @ [const_bar 1] = replicate 12 (const_bar 1)"
    using replicate_add [of 11 1 "const_bar 1"] by simp
  have r: "calculate_rsi (Some (replicate 11 (const_bar 1) @ [const_bar 1])) 10 = Some 50"
    unfolding e by (rule calculate_rsi_const_frame) simp_all
  have q: "last (ohlc4 (replicate 11 (const_bar 1))) = Some 1"
    by (simp add: ohlc4_def const_bar_def)
  note z = const_frame_series_zero [of 11 1]
  have ne: "rsi_gains (replicate 11 (const_bar 1)) \<noteq> []" "rsi_losses (replicate 11 (const_bar 1)) \<noteq> []"
    by simp_all
  have r': "calculate_rsi (Some (replicate 11 (const_bar 1) @ [const_bar 2])) 10 = Some 100"
    using rsi_series_snoc [of "replicate 11 (const_bar 1)" "const_bar 2" "Some 2"] b(2)
    by (simp add: calculate_rsi_Some_eq ewm_last_snoc ne ewm_last_zero z q rsi_from_averages_def
        ewm_step_def span_alpha_def)
  show ?thesis
    using calculate_rsi_mono_last [OF b(1) b(2) _ r r'] b r r' by simp
qed

end
