(* ===== verification/Yahoo.thy ===== *)
theory Yahoo
  imports Rsi
begin

text \<open>
  The Yahoo Finance provider of \<open>src/apprsi.py\<close>: \<open>get_yahoo_symbol\<close> (line 117)
  turns a pair such as \<open>EUR/USD\<close> into the ticker \<open>EURUSD=X\<close>, and
  \<open>fetch_forex_data\<close> (lines 119--130) maps a timeframe key to yfinance's
  period and interval, calls \<open>Ticker.history\<close>, and keeps the frame only if it
  has at least 15 bars. yfinance is a library the code only calls: it is the
  parameter \<open>history\<close>, which returns the frame, \<open>None\<close>, or raises. Every
  \<open>return None\<close> and the \<open>except\<close> branch are the value \<open>None\<close>.
\<close>

type_synonym history_fn = "string \<Rightarrow> string \<Rightarrow> string \<Rightarrow> frame option call_result"

definition get_yahoo_symbol :: "string \<Rightarrow> string" where
  "get_yahoo_symbol pair = removeAll (CHR ''/'') pair @ ''=X''"

text \<open>The \<open>params\<close> dictionary: timeframe key to (period, interval).\<close>

definition yf_params :: "(string \<times> string \<times> string) list" where
  "yf_params =
     [(''H1'', ''5d'', ''1h''), (''H4'', ''1mo'', ''4h''),
      (''D1'', ''3mo'', ''1d''), (''W1'', ''2y'', ''1wk'')]"

definition fetch_forex_data :: "history_fn \<Rightarrow> string \<Rightarrow> string \<Rightarrow> frame option" where
  "fetch_forex_data history symbol timeframe_key =
     (let yahoo_symbol = get_yahoo_symbol symbol in
      case map_of yf_params timeframe_key of
        None \<Rightarrow> None
      | Some (period, interval) \<Rightarrow>
          (case history yahoo_symbol period interval of
             Raised \<Rightarrow> None
           | Returned None \<Rightarrow> None
           | Returned (Some data) \<Rightarrow>
               if data = [] \<or> length data < 15 then None else Some data))"

subsection \<open>Library lemmas\<close>

lemma map_of_yf_params_Some:
  "map_of yf_params tf = Some (period, interval) \<longleftrightarrow> (tf, period, interval) \<in> set yf_params"
  by (auto simp: yf_params_def)

lemma fetch_forex_data_Some_iff:
  "fetch_forex_data history symbol tf = Some d \<longleftrightarrow>
     (\<exists>period interval. map_of yf_params tf = Some (period, interval) \<and>
        history (get_yahoo_symbol symbol) period interval = Returned (Some d) \<and> 15 \<le> length d)"
  by (auto simp: fetch_forex_data_def split: option.splits call_result.splits)

lemma fetch_forex_data_length: "fetch_forex_data history symbol tf = Some d \<Longrightarrow> 15 \<le> length d"
  by (auto simp: fetch_forex_data_Some_iff)

subsection \<open>Properties of the provider\<close>

text \<open>
  C12. A frame the provider returns is exactly the frame yfinance returned for
  the ticker of the pair and the period and interval of the timeframe's table
  entry, and it has at least 15 bars: the provider neither sorts nor truncates,
  and its minimum is 15 bars.
\<close>

theorem fetch_forex_data_result:
  assumes "fetch_forex_data history symbol tf = Some d"
  shows "15 \<le> length d \<and>
    (\<exists>period interval. (tf, period, interval) \<in> set yf_params \<and>
       history (get_yahoo_symbol symbol) period interval = Returned (Some d))"
  using assms by (auto simp: fetch_forex_data_Some_iff map_of_yf_params_Some)

theorem fetch_forex_data_result_witness:
  "fetch_forex_data (\<lambda>sym period interval. Returned (Some (replicate 20 (const_bar 1)))) ''EUR/USD'' ''D1''
     = Some (replicate 20 (const_bar 1)) \<and> 15 \<le> length (replicate 20 (const_bar 1))"
proof -
  have h: "fetch_forex_data (\<lambda>sym period interval. Returned (Some (replicate 20 (const_bar 1)))) ''EUR/USD'' ''D1''
     = Some (replicate 20 (const_bar 1))"
    by (simp add: fetch_forex_data_def yf_params_def)
  show ?thesis using h fetch_forex_data_result [OF h] by simp
qed

text \<open>
  C13. A timeframe key outside the table (H1, H4, D1, W1) gives \<open>None\<close>
  whatever yfinance would answer.
\<close>

theorem fetch_forex_data_unknown_timeframe:
  assumes "tf \<notin> {''H1'', ''H4'', ''D1'', ''W1''}"
  shows "fetch_forex_data history symbol tf = None"
  using assms by (simp add: fetch_forex_data_def yf_params_def)

theorem fetch_forex_data_unknown_timeframe_witness:
  "''M15'' \<notin> {''H1'', ''H4'', ''D1'', ''W1''} \<and>
   fetch_forex_data (\<lambda>sym period interval. Returned (Some (replicate 20 (const_bar 1)))) ''EUR/USD'' ''M15'' = None"
proof -
  have h: "''M15'' \<notin> {''H1'', ''H4'', ''D1'', ''W1''}" by simp
  show ?thesis using h fetch_forex_data_unknown_timeframe [OF h] by simp
qed

text \<open>
  For a pair written \<open>BASE/QUOTE\<close> with no slash in either code, the
  Yahoo ticker is the two codes concatenated with the suffix \<open>=X\<close>.
\<close>

lemma get_yahoo_symbol_pair:
  assumes "CHR ''/'' \<notin> set base" "CHR ''/'' \<notin> set quote"
  shows "get_yahoo_symbol (base @ ''/'' @ quote) = base @ quote @ ''=X''"
  using assms by (simp add: get_yahoo_symbol_def)

end
