(* ===== verification/Scan.thy ===== *)
theory Scan
  imports Rsi
begin

text \<open>
  The screener loop of \<open>src/apprsi.py\<close> (lines 148--167): for each configured
  pair, in order, the status text is set, the row dictionary
  \<open>{'Devises': pair}\<close> is filled with one RSI per timeframe (fetch, then
  \<open>calculate_rsi(data, period=10)\<close>), the row is appended to \<open>results\<close>, and
  the progress bar is set to \<open>(i + 1) / total_pairs\<close>; at the end both widgets
  are cleared. The provider is the parameter \<open>fetch\<close> (the code passes
  \<open>fetch_forex_data\<close>), so the lemmas hold for any provider. A row is a Python
  dictionary, an association list updated in place by \<open>AList.update\<close>; its
  values are the pair's name or an RSI. The Streamlit widgets are observed as
  the list of \<open>ui_event\<close>s the loop emits, in order.
\<close>

type_synonym fetcher = "string \<Rightarrow> string \<Rightarrow> frame option"

datatype cell = DevisesCell string | RsiCell pyfloat

type_synonym row = "(string \<times> cell) list"

datatype ui_event = ProgressValue real | StatusText string | ProgressCleared | StatusCleared

record scan_state =
  results :: "row list"
  ui :: "ui_event list"

definition forex_pairs :: "string list" where
  "forex_pairs =
     [''EUR/USD'', ''USD/JPY'', ''GBP/USD'', ''USD/CHF'', ''AUD/USD'', ''USD/CAD'', ''NZD/USD'',
      ''EUR/JPY'', ''GBP/JPY'', ''EUR/GBP'']"

definition timeframes_display :: "string list" where
  "timeframes_display = [''H1'', ''H4'', ''Daily'', ''Weekly'']"

definition timeframes_fetch_keys :: "string list" where
  "timeframes_fetch_keys = [''H1'', ''H4'', ''D1'', ''W1'']"

definition status_line :: "string \<Rightarrow> nat \<Rightarrow> nat \<Rightarrow> string" where
  "status_line pair_name i total_pairs =
     ''Analysing: '' @ pair_name @ '' ('' @ nat_to_string (i + 1) @ ''/'' @ nat_to_string total_pairs @ '')''"

text \<open>The inner loop over \<open>zip(timeframes_fetch_keys, timeframes_display)\<close>.\<close>

fun fill_row :: "fetcher \<Rightarrow> string \<Rightarrow> (string \<times> string) list \<Rightarrow> row \<Rightarrow> row" where
  "fill_row fetch pair_name [] row_data = row_data"
| "fill_row fetch pair_name ((tf_key, tf_display_name) # tfs) row_data =
     fill_row fetch pair_name tfs
       (AList.update tf_display_name (RsiCell (calculate_rsi (fetch pair_name tf_key) 10)) row_data)"

definition scan_row :: "fetcher \<Rightarrow> string list \<Rightarrow> string list \<Rightarrow> string \<Rightarrow> row" where
  "scan_row fetch keys displays pair_name =
     fill_row fetch pair_name (zip keys displays) [(''Devises'', DevisesCell pair_name)]"

text \<open>One iteration of the outer loop, for the pair at index \<open>i\<close>.\<close>

definition scan_pair ::
  "fetcher \<Rightarrow> string list \<Rightarrow> string list \<Rightarrow> nat \<Rightarrow> scan_state \<Rightarrow> nat \<times> string \<Rightarrow> scan_state" where
  "scan_pair fetch keys displays total_pairs s ip =
     (case ip of (i, pair_name) \<Rightarrow>
        let s1 = s\<lparr>ui := ui s @ [StatusText (status_line pair_name i total_pairs)]\<rparr>;
            row_data = scan_row fetch keys displays pair_name;
            s2 = s1\<lparr>results := results s1 @ [row_data]\<rparr>
        in s2\<lparr>ui := ui s2 @ [ProgressValue (of_nat (i + 1) / of_nat total_pairs)]\<rparr>)"

definition run_scan :: "fetcher \<Rightarrow> string list \<Rightarrow> string list \<Rightarrow> string list \<Rightarrow> scan_state" where
  "run_scan fetch pairs keys displays =
     (let total_pairs = length pairs;
          s0 = \<lparr>results = [], ui = [ProgressValue 0]\<rparr>;
          s = foldl (scan_pair fetch keys displays total_pairs) s0 (enumerate 0 pairs)
      in s\<lparr>ui := ui s @ [ProgressCleared, StatusCleared]\<rparr>)"

text \<open>The observation of the progress bar: the values it was set to, in order.\<close>

definition progress_values :: "ui_event list \<Rightarrow> real list" where
  "progress_values evs = concat (map (\<lambda>e. case e of ProgressValue v \<Rightarrow> [v] | _ \<Rightarrow> []) evs)"

text \<open>The row of the pair at a timeframe, as \<open>row.get(tf, np.nan)\<close> reads it.\<close>

definition row_cell :: "row \<Rightarrow> string \<Rightarrow> cell option" where
  "row_cell r k = map_of r k"


text \<open>
  The types of the values a row holds (not part of the program): the pair's
  name is a string, every other entry a float. A row is well typed when its
  keys are distinct, as a dict's are, and each value has the type of its
  column.
\<close>

datatype col_type = StrColumn | FloatColumn

fun cell_type :: "cell \<Rightarrow> col_type" where
  "cell_type (DevisesCell s) = StrColumn"
| "cell_type (RsiCell v) = FloatColumn"

definition column_type :: "string \<Rightarrow> col_type" where
  "column_type k = (if k = ''Devises'' then StrColumn else FloatColumn)"

definition row_typed :: "row \<Rightarrow> bool" where
  "row_typed r \<longleftrightarrow> distinct (map fst r) \<and> list_all (\<lambda>(k, c). cell_type c = column_type k) r"

subsection \<open>Library lemmas\<close>

lemma update_fresh: "k \<notin> set (map fst al) \<Longrightarrow> AList.update k v al = al @ [(k, v)]"
  by (induction al) auto

lemma fill_row_fresh:
  "distinct (map snd tfs) \<Longrightarrow> set (map snd tfs) \<inter> set (map fst row_data) = {} \<Longrightarrow>
   fill_row fetch pair_name tfs row_data =
     row_data @ map (\<lambda>(k, d). (d, RsiCell (calculate_rsi (fetch pair_name k) 10))) tfs"
proof (induction tfs arbitrary: row_data)
  case Nil
  then show ?case by simp
next
  case (Cons kd tfs)
  obtain k d where kd: "kd = (k, d)" by (cases kd)
  with Cons.prems have "AList.update d (RsiCell (calculate_rsi (fetch pair_name k) 10)) row_data
      = row_data @ [(d, RsiCell (calculate_rsi (fetch pair_name k) 10))]"
    by (intro update_fresh) auto
  moreover from Cons.prems kd have
    "fill_row fetch pair_name tfs (row_data @ [(d, RsiCell (calculate_rsi (fetch pair_name k) 10))])
     = (row_data @ [(d, RsiCell (calculate_rsi (fetch pair_name k) 10))]) @
       map (\<lambda>(k, d). (d, RsiCell (calculate_rsi (fetch pair_name k) 10))) tfs"
    by (intro Cons.IH) auto
  ultimately show ?case using kd by simp
qed

lemma map_swap_zip: "map (\<lambda>(k, d). (d, g k)) (zip ks ds) = zip ds (map g ks)"
proof (induction ks arbitrary: ds)
  case Nil
  then show ?case by simp
next
  case (Cons k ks)
  then show ?case by (cases ds) auto
qed

lemma scan_row_eq:
  assumes "distinct displays" "''Devises'' \<notin> set displays" "length keys = length displays"
  shows "scan_row fetch keys displays pair_name =
     (''Devises'', DevisesCell pair_name) #
       map (\<lambda>(k, d). (d, RsiCell (calculate_rsi (fetch pair_name k) 10))) (zip keys displays)"
  using assms by (simp add: scan_row_def fill_row_fresh)

lemma scan_loop_results:
  "results (foldl (scan_pair fetch keys displays n) s (enumerate i ps)) =
     results s @ map (scan_row fetch keys displays) ps"
  by (induction ps arbitrary: s i) (simp_all add: scan_pair_def)

lemma scan_loop_ui:
  "ui (foldl (scan_pair fetch keys displays n) s (enumerate i ps)) =
     ui s @ concat (map (\<lambda>(j, p). [StatusText (status_line p j n), ProgressValue (of_nat (j + 1) / of_nat n)])
                      (enumerate i ps))"
  by (induction ps arbitrary: s i) (simp_all add: scan_pair_def)

lemma run_scan_results:
  "results (run_scan fetch pairs keys displays) = map (scan_row fetch keys displays) pairs"
  by (simp add: run_scan_def Let_def scan_loop_results)

lemma progress_values_append [simp]:
  "progress_values (xs @ ys) = progress_values xs @ progress_values ys"
  by (simp add: progress_values_def)

lemma progress_values_simps [simp]:
  "progress_values [] = []"
  "progress_values (ProgressValue v # evs) = v # progress_values evs"
  "progress_values (StatusText t # evs) = progress_values evs"
  "progress_values (ProgressCleared # evs) = progress_values evs"
  "progress_values (StatusCleared # evs) = progress_values evs"
  by (simp_all add: progress_values_def)

lemma progress_values_loop:
  "progress_values (concat (map (\<lambda>(j, p). [StatusText (status_line p j n), ProgressValue (g j)])
                      (enumerate i ps)))
   = map g [i..<i + length ps]"
proof (induction ps arbitrary: i)
  case Nil
  then show ?case by simp
next
  case (Cons p ps)
  then show ?case by (simp add: upt_rec)
qed

lemma run_scan_progress_values:
  "progress_values (ui (run_scan fetch pairs keys displays)) =
     0 # map (\<lambda>j. of_nat (j + 1) / of_nat (length pairs)) [0..<length pairs]"
  by (simp add: run_scan_def Let_def scan_loop_ui progress_values_loop)

lemma fill_row_values:
  "map_of (fill_row fetch p tfs row_data) tf = Some (RsiCell v) \<Longrightarrow>
   map_of row_data tf = Some (RsiCell v) \<or> (\<exists>k. v = calculate_rsi (fetch p k) 10)"
proof (induction tfs arbitrary: row_data)
  case Nil
  then show ?case by simp
next
  case (Cons kd tfs)
  obtain k d where kd: "kd = (k, d)" by (cases kd)
  with Cons.prems have "map_of (AList.update d (RsiCell (calculate_rsi (fetch p k) 10)) row_data) tf
      = Some (RsiCell v) \<or> (\<exists>k. v = calculate_rsi (fetch p k) 10)"
    using Cons.IH by simp
  then show ?case by (auto simp: update_conv' split: if_splits)
qed

lemma scan_row_values:
  "map_of (scan_row fetch keys displays p) tf = Some (RsiCell v) \<Longrightarrow>
   \<exists>k. v = calculate_rsi (fetch p k) 10"
  unfolding scan_row_def by (drule fill_row_values) (auto split: if_splits)

lemma run_scan_values:
  "r \<in> set (results (run_scan fetch pairs keys displays)) \<Longrightarrow> map_of r tf = Some (RsiCell v) \<Longrightarrow>
   \<exists>p k. v = calculate_rsi (fetch p k) 10"
  by (auto simp: run_scan_results dest!: scan_row_values)

lemma run_scan_cell:
  assumes "distinct displays" "''Devises'' \<notin> set displays" "length keys = length displays"
    and "i < length pairs" "j < length displays"
  shows "row_cell (results (run_scan fetch pairs keys displays) ! i) (displays ! j)
      = Some (RsiCell (calculate_rsi (fetch (pairs ! i) (keys ! j)) 10))"
proof -
  have "map_of (map (\<lambda>(k, d). (d, RsiCell (calculate_rsi (fetch (pairs ! i) k) 10))) (zip keys displays))
          (displays ! j) = Some (RsiCell (calculate_rsi (fetch (pairs ! i) (keys ! j)) 10))"
    using assms(1,3,5) by (simp add: map_swap_zip map_of_zip_nth)
  moreover have "displays ! j \<noteq> ''Devises''"
    using assms(2,5) nth_mem by force
  ultimately show ?thesis using assms(1-5)
    by (simp add: row_cell_def run_scan_results scan_row_eq)
qed

lemma row_typed_update:
  assumes "row_typed r" "d \<noteq> ''Devises''"
  shows "row_typed (AList.update d (RsiCell v) r)"
proof -
  have "distinct (map fst (AList.update d (RsiCell v) r))"
    using assms(1) by (simp add: row_typed_def distinct_update)
  moreover have "set (AList.update d (RsiCell v) r) \<subseteq> insert (d, RsiCell v) (set r)"
    by (induction r) auto
  ultimately show ?thesis
    using assms by (fastforce simp: row_typed_def list_all_iff column_type_def)
qed

lemma fill_row_typed:
  "row_typed r \<Longrightarrow> ''Devises'' \<notin> set (map snd tfs) \<Longrightarrow> row_typed (fill_row fetch p tfs r)"
proof (induction tfs arbitrary: r)
  case Nil
  then show ?case by simp
next
  case (Cons kd tfs)
  then show ?case by (cases kd) (auto intro!: Cons.IH row_typed_update)
qed

lemma scan_row_typed:
  "''Devises'' \<notin> set displays \<Longrightarrow> row_typed (scan_row fetch keys displays p)"
  unfolding scan_row_def
  by (rule fill_row_typed) (auto simp: row_typed_def column_type_def dest: set_zip_rightD)

subsection \<open>Properties of the scan\<close>

text \<open>
  C19. With distinct display names, none of them \<open>Devises\<close>, and as many
  fetch keys as display names, the scan returns one row per configured pair,
  in the configured order, each holding the pair's name and then one RSI per
  timeframe, in the configured order: the RSI of that pair's frame at that
  timeframe, or NaN. The grid is full-shaped whatever the provider does.
\<close>

theorem run_scan_results_eq:
  assumes "distinct displays" "''Devises'' \<notin> set displays" "length keys = length displays"
  shows "results (run_scan fetch pairs keys displays) =
    map (\<lambda>p. (''Devises'', DevisesCell p) #
              map (\<lambda>(k, d). (d, RsiCell (calculate_rsi (fetch p k) 10))) (zip keys displays)) pairs"
  using assms by (simp add: run_scan_results scan_row_eq)

theorem run_scan_results_eq_witness:
  "distinct [''H1''] \<and> ''Devises'' \<notin> set [''H1''] \<and> length [''H1''] = length [''H1''] \<and>
   results (run_scan (\<lambda>p k. None) [''EUR/USD''] [''H1''] [''H1''])
     = [[(''Devises'', DevisesCell ''EUR/USD''), (''H1'', RsiCell None)]]"
proof -
  have h: "distinct [''H1'']" "''Devises'' \<notin> set [''H1'']" "length [''H1''] = length [''H1'']"
    by simp_all
  show ?thesis using h run_scan_results_eq [OF h, of "\<lambda>p k. None" "[''EUR/USD'']"] by simp
qed

text \<open>
  C20. Isolation: the cell of pair \<open>i\<close> at timeframe \<open>j\<close> depends only on
  what the provider answers for that pair and that timeframe. Two providers
  that agree on that one request give the same cell, however they differ (fail,
  raise, return other data) on every other request.
\<close>

theorem run_scan_cell_isolation:
  assumes "distinct displays" "''Devises'' \<notin> set displays" "length keys = length displays"
    and "i < length pairs" "j < length displays"
    and "fetch (pairs ! i) (keys ! j) = fetch' (pairs ! i) (keys ! j)"
  shows "row_cell (results (run_scan fetch pairs keys displays) ! i) (displays ! j) =
         row_cell (results (run_scan fetch' pairs keys displays) ! i) (displays ! j)"
  using run_scan_cell [OF assms(1-5), of fetch] run_scan_cell [OF assms(1-5), of fetch'] assms(6)
  by simp

theorem run_scan_cell_isolation_witness:
  "row_cell (results (run_scan (\<lambda>p k. None) [''EUR/USD''] [''H1'', ''H4''] [''H1'', ''H4'']) ! 0)
     ([''H1'', ''H4''] ! 0) =
   row_cell (results (run_scan (\<lambda>p k. if k = ''H4'' then Some [] else None)
     [''EUR/USD''] [''H1'', ''H4''] [''H1'', ''H4'']) ! 0) ([''H1'', ''H4''] ! 0)"
  by (rule run_scan_cell_isolation) simp_all

text \<open>
  C21. The progress bar is set to 0 when it is created and then, after the
  \<open>i\<close>-th pair, to \<open>(i + 1) / n\<close> for \<open>n\<close> pairs: the values strictly
  increase, stay within \<open>[0, 1]\<close> (the range \<open>st.progress\<close> accepts), and the
  last is 1 when there is a pair at all.
\<close>

theorem run_scan_progress:
  "progress_values (ui (run_scan fetch pairs keys displays)) =
     0 # map (\<lambda>j. of_nat (j + 1) / of_nat (length pairs)) [0..<length pairs] \<and>
   sorted_wrt (<) (progress_values (ui (run_scan fetch pairs keys displays))) \<and>
   set (progress_values (ui (run_scan fetch pairs keys displays))) \<subseteq> {0..1} \<and>
   (pairs \<noteq> [] \<longrightarrow> last (progress_values (ui (run_scan fetch pairs keys displays))) = 1)"
proof -
  let ?n = "length pairs"
  let ?g = "\<lambda>j. of_nat (j + 1) / of_nat ?n :: real"
  have mono: "sorted_wrt (<) (map ?g [0..<?n])"
  proof (cases "?n = 0")
    case True
    then show ?thesis by simp
  next
    case False
    have "sorted_wrt (\<lambda>a b. ?g a < ?g b) [0..<?n]"
    proof (rule sorted_wrt_mono_rel [OF _ sorted_wrt_upt [of 0 ?n]])
      fix a b :: nat
      assume "a \<in> set [0..<?n]" "b \<in> set [0..<?n]" "a < b"
      with False show "?g a < ?g b" by (simp add: divide_strict_right_mono)
    qed
    then show ?thesis by (simp add: sorted_wrt_map)
  qed
  have range: "\<forall>v \<in> set (map ?g [0..<?n]). 0 < v \<and> v \<le> 1"
  proof
    fix v assume "v \<in> set (map ?g [0..<?n])"
    then obtain j where j: "j < ?n" "v = ?g j" by auto
    then have "0 < (of_nat ?n :: real)" "of_nat (j + 1) \<le> (of_nat ?n :: real)"
      by (simp_all only: of_nat_0_less_iff of_nat_le_iff)
    with j show "0 < v \<and> v \<le> 1" by simp
  qed
  have final: "last (map ?g [0..<?n]) = 1" if ne: "pairs \<noteq> []"
  proof -
    from ne obtain m where m: "?n = Suc m" by (cases pairs) auto
    then show ?thesis by (simp add: last_map)
  qed
  show ?thesis
    using mono range final by (auto simp: run_scan_progress_values)
qed

theorem run_scan_progress_witness:
  "progress_values (ui (run_scan (\<lambda>p k. None) [''EUR/USD'', ''GBP/USD''] [''H1''] [''H1''])) = [0, 1 / 2, 1] \<and>
   last (progress_values (ui (run_scan (\<lambda>p k. None) [''EUR/USD'', ''GBP/USD''] [''H1''] [''H1'']))) = 1"
  using run_scan_progress [of "\<lambda>p k. None" "[''EUR/USD'', ''GBP/USD'']" "[''H1'']" "[''H1'']"]
  by (simp add: upt_rec)


text \<open>
  C16. The rows keep their types through the scan: when no timeframe is
  displayed as \<open>Devises\<close>, one iteration of the loop turns well-typed rows
  into well-typed rows, and every row of the scan has distinct keys, the pair's
  name as a string under \<open>Devises\<close> and a float under every other key.
\<close>

theorem scan_rows_typed:
  assumes "''Devises'' \<notin> set displays"
  shows "(list_all row_typed (results s) \<longrightarrow>
            list_all row_typed (results (scan_pair fetch keys displays n s ip))) \<and>
         list_all row_typed (results (run_scan fetch pairs keys displays))"
  using assms
  by (auto simp: scan_pair_def run_scan_results list_all_iff scan_row_typed split: prod.splits)

theorem scan_rows_typed_witness:
  "''Devises'' \<notin> set [''H1'', ''H1''] \<and>
   list_all row_typed (results (run_scan (\<lambda>p k. None) [''EUR/USD''] [''H1'', ''D1''] [''H1'', ''H1'']))"
proof -
  have h: "''Devises'' \<notin> set [''H1'', ''H1'']" by simp
  show ?thesis
    using h scan_rows_typed [OF h, of "\<lparr>results = [], ui = []\<rparr>" "\<lambda>p k. None" "[''H1'', ''D1'']"]
    by blast
qed

end
