(* ===== verification/Classify.thy ===== *)
theory Classify
  imports Rsi
begin

text \<open>
  The decision rule of the renderer boundary, \<open>get_rsi_class\<close> of
  \<open>src/apprsi.py\<close> (lines 134--138): NaN is neutral, a value at most 20 is
  oversold, a value at least 80 overbought, anything else neutral; and
  \<open>format_rsi\<close> (line 132), which prints \<open>N/A\<close> for NaN and otherwise the
  value with the format \<open>.2f\<close>. The format rounds the value times 100 to the
  nearest integer, ties to even (\<open>round_half_even\<close>), on the exact value;
  Python rounds the binary double, which agrees wherever the value is the
  double it denotes. \<open>parse_fixed2\<close> reads such a string back and is used to
  state the roundtrip.
\<close>

definition get_rsi_class :: "pyfloat \<Rightarrow> string" where
  "get_rsi_class value =
     (case value of
        None \<Rightarrow> ''neutral-cell''
      | Some x \<Rightarrow>
          if x \<le> 20 then ''oversold-cell''
          else if x \<ge> 80 then ''overbought-cell''
          else ''neutral-cell'')"

definition round_half_even :: "real \<Rightarrow> int" where
  "round_half_even y =
     (let f = \<lfloor>y\<rfloor>; r = y - of_int f in
      if r < 1/2 then f else if 1/2 < r then f + 1 else if even f then f else f + 1)"

definition two_digits :: "nat \<Rightarrow> string" where
  "two_digits n = [char_of (48 + n div 10), char_of (48 + n mod 10)]"

definition format_fixed2 :: "real \<Rightarrow> string" where
  "format_fixed2 x =
     (let n = nat (round_half_even (\<bar>x\<bar> * 100)) in
      (if x < 0 then ''-'' else []) @ nat_to_string (n div 100) @ ''.'' @ two_digits (n mod 100))"

definition format_rsi :: "pyfloat \<Rightarrow> string" where
  "format_rsi value = (case value of None \<Rightarrow> ''N/A'' | Some x \<Rightarrow> format_fixed2 x)"

text \<open>Reading a non-negative \<open>.2f\<close> string back (not part of the program).\<close>

definition parse_fixed2 :: "string \<Rightarrow> real option" where
  "parse_fixed2 s =
     (let ip = takeWhile (\<lambda>c. c \<noteq> CHR ''.'') s; rest = dropWhile (\<lambda>c. c \<noteq> CHR ''.'') s in
      if ip \<noteq> [] \<and> list_all is_digit ip \<and> length rest = 3 \<and> list_all is_digit (tl rest)
      then Some (of_nat (digits_to_nat ip) + of_nat (digits_to_nat (tl rest)) / 100)
      else None)"

subsection \<open>Library lemmas\<close>

lemma is_digit_char_of: "(n::nat) < 10 \<Longrightarrow> is_digit (char_of (48 + n))"
  by (simp add: is_digit_def)

lemma not_is_digit_dot: "\<not> is_digit CHR ''.''"
  by (simp add: is_digit_def)

lemma two_digits_digits: "r < 100 \<Longrightarrow> list_all is_digit (two_digits r)"
  by (simp add: two_digits_def is_digit_char_of less_mult_imp_div_less)

lemma length_two_digits [simp]: "length (two_digits r) = 2"
  by (simp add: two_digits_def)

lemma digits_to_nat_two_digits: "r < 100 \<Longrightarrow> digits_to_nat (two_digits r) = r"
  by (simp add: two_digits_def digits_to_nat_def less_mult_imp_div_less)

lemma round_half_even_nonneg: "0 \<le> y \<Longrightarrow> 0 \<le> round_half_even y"
  by (simp add: round_half_even_def Let_def)

lemma round_half_even_error: "\<bar>of_int (round_half_even y) - y\<bar> \<le> 1/2"
proof -
  have "of_int \<lfloor>y\<rfloor> \<le> y" "y < of_int \<lfloor>y\<rfloor> + 1" by linarith+
  then show ?thesis by (simp add: round_half_even_def Let_def)
qed

lemma takeWhile_digits_dot:
  "\<forall>c \<in> set d. is_digit c \<Longrightarrow> takeWhile (\<lambda>c. c \<noteq> CHR ''.'') (d @ CHR ''.'' # t) = d"
  using not_is_digit_dot by (induction d) auto

lemma dropWhile_digits_dot:
  "\<forall>c \<in> set d. is_digit c \<Longrightarrow> dropWhile (\<lambda>c. c \<noteq> CHR ''.'') (d @ CHR ''.'' # t) = CHR ''.'' # t"
  using not_is_digit_dot by (induction d) auto

lemma parse_format_fixed2:
  assumes "0 \<le> x"
  shows "parse_fixed2 (format_fixed2 x) = Some (of_int (round_half_even (x * 100)) / 100)"
proof -
  define n where "n = nat (round_half_even (x * 100))"
  let ?d = "nat_to_string (n div 100)" and ?t = "two_digits (n mod 100)"
  have fmt: "format_fixed2 x = ?d @ CHR ''.'' # ?t"
    using assms by (simp add: format_fixed2_def n_def Let_def)
  have dig: "\<forall>c \<in> set ?d. is_digit c" by (rule nat_to_string_digits)
  have n: "of_int (round_half_even (x * 100)) = (of_nat n :: real)"
    using assms by (simp add: n_def round_half_even_nonneg)
  have "(of_nat n :: real) = of_nat (n div 100) * 100 + of_nat (n mod 100)"
    by (metis of_nat_add of_nat_mult of_nat_numeral div_mult_mod_eq)
  then have v: "of_nat (n div 100) + of_nat (n mod 100) / 100 = (of_nat n :: real) / 100"
    by simp
  show ?thesis
    unfolding fmt parse_fixed2_def Let_def
    using dig takeWhile_digits_dot [OF dig] dropWhile_digits_dot [OF dig]
      nat_to_string_nonempty two_digits_digits [of "n mod 100"]
    by (simp add: list_all_iff digits_to_nat_nat_to_string digits_to_nat_two_digits v n)
qed

subsection \<open>Properties of the classification and the format\<close>

text \<open>
  C15. The class of a cell is oversold exactly for a value at most 20,
  overbought exactly for a value at least 80, and neutral exactly for NaN and
  the values strictly between; the three cases do not overlap.
\<close>

theorem get_rsi_class_partition:
  "(get_rsi_class v = ''oversold-cell'' \<longleftrightarrow> (\<exists>x. v = Some x \<and> x \<le> 20)) \<and>
   (get_rsi_class v = ''overbought-cell'' \<longleftrightarrow> (\<exists>x. v = Some x \<and> 80 \<le> x)) \<and>
   (get_rsi_class v = ''neutral-cell'' \<longleftrightarrow> v = None \<or> (\<exists>x. v = Some x \<and> 20 < x \<and> x < 80))"
  by (cases v) (auto simp: get_rsi_class_def)

text \<open>
  The thresholds are inclusive: 20 is oversold and 80 overbought; 19.99 is
  oversold too, and 20.01 and 79.99 are neutral.
\<close>

lemma get_rsi_class_boundaries:
  "get_rsi_class (Some 20) = ''oversold-cell'' \<and> get_rsi_class (Some (1999 / 100)) = ''oversold-cell'' \<and>
   get_rsi_class (Some (2001 / 100)) = ''neutral-cell'' \<and> get_rsi_class (Some (7999 / 100)) = ''neutral-cell'' \<and>
   get_rsi_class (Some 80) = ''overbought-cell'' \<and> get_rsi_class None = ''neutral-cell''"
  by (simp add: get_rsi_class_def)

text \<open>
  C17. For a non-negative value the printed string reads back as the value
  rounded to two decimals (ties to even).
\<close>

theorem format_rsi_roundtrip:
  assumes "0 \<le> x"
  shows "parse_fixed2 (format_rsi (Some x)) = Some (of_int (round_half_even (x * 100)) / 100)"
  using assms by (simp add: format_rsi_def parse_format_fixed2)

theorem format_rsi_roundtrip_witness:
  "0 \<le> (200 / 3 :: real) \<and> format_rsi (Some (200 / 3)) = ''66.67'' \<and>
   parse_fixed2 (format_rsi (Some (200 / 3))) = Some (6667 / 100)"
proof -
  have h: "0 \<le> (200 / 3 :: real)" by simp
  have f: "format_rsi (Some (200 / 3)) = ''66.67''" by code_simp
  have r: "round_half_even (200 / 3 * 100) = 6667" by (simp add: round_half_even_def Let_def)
  show ?thesis using h f r format_rsi_roundtrip [OF h] by simp
qed

text \<open>
  C18. The printed value differs from the value by at most half a unit of the
  second decimal.
\<close>

theorem format_rsi_error:
  assumes "0 \<le> x"
  shows "\<exists>v. parse_fixed2 (format_rsi (Some x)) = Some v \<and> \<bar>v - x\<bar> \<le> 1 / 200"
proof -
  have "\<bar>of_int (round_half_even (x * 100)) - x * 100\<bar> \<le> 1 / 2"
    by (rule round_half_even_error)
  then have "\<bar>of_int (round_half_even (x * 100)) / 100 - x\<bar> \<le> 1 / 200"
    by (simp add: abs_le_iff field_simps)
  moreover have "parse_fixed2 (format_rsi (Some x)) = Some (of_int (round_half_even (x * 100)) / 100)"
    using assms by (simp add: format_rsi_def parse_format_fixed2)
  ultimately show ?thesis by blast
qed

theorem format_rsi_error_witness:
  "0 \<le> (1 / 8 :: real) \<and> format_rsi (Some (1 / 8)) = ''0.12'' \<and>
   parse_fixed2 (format_rsi (Some (1 / 8))) = Some (12 / 100)"
proof -
  have h: "0 \<le> (1 / 8 :: real)" by simp
  have f: "format_rsi (Some (1 / 8)) = ''0.12''" by code_simp
  obtain v where "parse_fixed2 (format_rsi (Some (1 / 8))) = Some v" "\<bar>v - 1 / 8\<bar> \<le> 1 / 200"
    using format_rsi_error [OF h] by blast
  moreover have "parse_fixed2 ''0.12'' = Some (12 / 100)" by code_simp
  ultimately show ?thesis using h f by simp
qed

end
