(* ===== verification/Stats.thy ===== *)
theory Stats
  imports Scan Classify "HOL-Library.Multiset"
begin

text \<open>
  The signal statistics of \<open>src/apprsi.py\<close> (lines 193--207): for each
  displayed timeframe, the values \<open>row.get(tf, np.nan)\<close> of all rows, the
  non-NaN ones among them, and, if there are any, the number of values
  \<open><= 20\<close> (oversold), \<open>>= 80\<close> (overbought) and their sum; otherwise the
  metric shows \<open>N/A\<close>. A row value that is the pair's name (the \<open>Devises\<close>
  entry) passes \<open>pd.notna\<close> and makes the comparison \<open>x <= 20\<close> raise
  \<open>TypeError\<close>: that is the value \<open>Raised\<close>. \<open>Signals total oversold
  overbought\<close> carries the metric's numbers, and \<open>metric_texts\<close> the texts
  \<open>st.metric\<close> shows. \<open>tf_values\<close> and \<open>stats_spec\<close> are the abstract
  specification the statistics refine.
\<close>

datatype signal_metric = SignalsNA | Signals nat nat nat

definition row_get :: "row \<Rightarrow> string \<Rightarrow> cell" where
  "row_get r tf = (case map_of r tf of None \<Rightarrow> RsiCell None | Some c \<Rightarrow> c)"

definition cell_notna :: "cell \<Rightarrow> bool" where
  "cell_notna c = (case c of RsiCell None \<Rightarrow> False | _ \<Rightarrow> True)"

text \<open>\<open>sum(1 for x in valid if P(x))\<close>: a string raises at the comparison.\<close>

fun count_signals :: "(real \<Rightarrow> bool) \<Rightarrow> cell list \<Rightarrow> nat call_result" where
  "count_signals P [] = Returned 0"
| "count_signals P (DevisesCell s # cs) = Raised"
| "count_signals P (RsiCell v # cs) =
     (case count_signals P cs of
        Raised \<Rightarrow> Raised
      | Returned n \<Rightarrow> Returned (if (case v of Some x \<Rightarrow> P x | None \<Rightarrow> False) then Suc n else n))"

definition signal_stats :: "row list \<Rightarrow> string \<Rightarrow> signal_metric call_result" where
  "signal_stats rows tf_display_name =
     (let rsi_values_for_tf = map (\<lambda>row. row_get row tf_display_name) rows;
          valid_rsi_values = filter cell_notna rsi_values_for_tf
      in if valid_rsi_values = [] then Returned SignalsNA
         else
           (case (count_signals (\<lambda>x. x \<le> 20) valid_rsi_values,
                  count_signals (\<lambda>x. x \<ge> 80) valid_rsi_values) of
              (Returned oversold_count, Returned overbought_count) \<Rightarrow>
                Returned (Signals (oversold_count + overbought_count) oversold_count overbought_count)
            | _ \<Rightarrow> Raised))"

definition all_signal_stats :: "row list \<Rightarrow> string list \<Rightarrow> signal_metric call_result list" where
  "all_signal_stats rows displays = map (signal_stats rows) displays"

text \<open>The RSI a row holds at a timeframe, NaN where it holds none.\<close>

definition rsi_at :: "row \<Rightarrow> string \<Rightarrow> pyfloat" where
  "rsi_at r tf = (case map_of r tf of Some (RsiCell v) \<Rightarrow> v | _ \<Rightarrow> None)"

definition rsi_only :: "row \<Rightarrow> string \<Rightarrow> bool" where
  "rsi_only r tf \<longleftrightarrow> (case map_of r tf of Some (DevisesCell s) \<Rightarrow> False | _ \<Rightarrow> True)"

text \<open>
  Lines 204 and 206: the texts of \<open>st.metric\<close>, as (label, value, delta).
  Characters are bytes; the two emoji are written in UTF-8, as the source file
  stores them.
\<close>

definition red_circle :: string where
  "red_circle = map char_of [240, 159, 148, 180 :: nat]"

definition green_circle :: string where
  "green_circle = map char_of [240, 159, 159, 162 :: nat]"

definition metric_texts :: "string \<Rightarrow> signal_metric \<Rightarrow> string \<times> string \<times> string" where
  "metric_texts tf_display_name m =
     (case m of
        Signals total_signals_count oversold_count overbought_count \<Rightarrow>
          (''Signals '' @ tf_display_name, nat_to_string total_signals_count,
           red_circle @ '' '' @ nat_to_string oversold_count @ '' | '' @ green_circle @ '' '' @
             nat_to_string overbought_count)
      | SignalsNA \<Rightarrow> (''Signals '' @ tf_display_name, ''N/A'', ''No data''))"

text \<open>
  The abstract statistics of a column: the multiset of its defined RSI values,
  and what the metric promises about it (not part of the program).
\<close>

definition tf_values :: "row list \<Rightarrow> string \<Rightarrow> real multiset" where
  "tf_values rows tf = mset (List.map_filter (\<lambda>r. rsi_at r tf) rows)"

definition stats_spec :: "real multiset \<Rightarrow> signal_metric" where
  "stats_spec M =
     (if M = {#} then SignalsNA
      else Signals (size (filter_mset (\<lambda>x. x \<le> 20) M) + size (filter_mset (\<lambda>x. 80 \<le> x) M))
                   (size (filter_mset (\<lambda>x. x \<le> 20) M)) (size (filter_mset (\<lambda>x. 80 \<le> x) M)))"

subsection \<open>Library lemmas\<close>

lemma get_rsi_class_oversold_case:
  "(get_rsi_class v = ''oversold-cell'') = (case v of Some x \<Rightarrow> x \<le> 20 | None \<Rightarrow> False)"
  by (auto simp: get_rsi_class_def split: option.splits)

lemma get_rsi_class_overbought_case:
  "(get_rsi_class v = ''overbought-cell'') = (case v of Some x \<Rightarrow> 80 \<le> x | None \<Rightarrow> False)"
  by (auto simp: get_rsi_class_def split: option.splits)

lemma count_signals_rsi:
  "count_signals P (map RsiCell vs) =
     Returned (length (filter (\<lambda>v. case v of Some x \<Rightarrow> P x | None \<Rightarrow> False) vs))"
  by (induction vs) (auto split: option.splits)


lemma fill_row_rsi_only:
  "tf \<noteq> ''Devises'' \<Longrightarrow> rsi_only row_data tf \<Longrightarrow> rsi_only (fill_row fetch p tfs row_data) tf"
proof (induction tfs arbitrary: row_data)
  case Nil
  then show ?case by simp
next
  case (Cons kd tfs)
  obtain k d where kd: "kd = (k, d)" by (cases kd)
  from Cons.prems have "rsi_only (AList.update d (RsiCell (calculate_rsi (fetch p k) 10)) row_data) tf"
    by (simp add: rsi_only_def update_conv')
  with Cons.prems kd show ?case by (simp add: Cons.IH)
qed

lemma scan_rows_rsi_only:
  assumes tf: "tf \<noteq> ''Devises''"
  shows "\<forall>r \<in> set (results (run_scan fetch pairs keys displays)). rsi_only r tf"
proof
  fix r assume "r \<in> set (results (run_scan fetch pairs keys displays))"
  then obtain p where r: "r = scan_row fetch keys displays p" by (auto simp: run_scan_results)
  have "rsi_only [(''Devises'', DevisesCell p)] tf" using tf by (simp add: rsi_only_def)
  then show "rsi_only r tf" unfolding r scan_row_def by (rule fill_row_rsi_only [OF tf])
qed

lemma row_get_rsi_only: "rsi_only r tf \<Longrightarrow> row_get r tf = RsiCell (rsi_at r tf)"
  by (auto simp: rsi_only_def row_get_def rsi_at_def split: option.splits cell.splits)

lemma signal_stats_rsi_only:
  assumes "\<forall>r \<in> set rows. rsi_only r tf"
  shows "signal_stats rows tf =
    Returned (if \<forall>r \<in> set rows. rsi_at r tf = None then SignalsNA
              else Signals (length (filter (\<lambda>r. get_rsi_class (rsi_at r tf) = ''oversold-cell'') rows) +
                            length (filter (\<lambda>r. get_rsi_class (rsi_at r tf) = ''overbought-cell'') rows))
                           (length (filter (\<lambda>r. get_rsi_class (rsi_at r tf) = ''oversold-cell'') rows))
                           (length (filter (\<lambda>r. get_rsi_class (rsi_at r tf) = ''overbought-cell'') rows)))"
proof -
  have vals: "map (\<lambda>row. row_get row tf) rows = map RsiCell (map (\<lambda>r. rsi_at r tf) rows)"
    using assms by (simp add: row_get_rsi_only)
  have valid: "filter cell_notna (map RsiCell vs) = map RsiCell (filter (\<lambda>v. v \<noteq> None) vs)" for vs
    by (induction vs) (auto simp: cell_notna_def split: option.splits)
  have cnt: "length (filter (\<lambda>v. case v of Some x \<Rightarrow> P x | None \<Rightarrow> False) (filter (\<lambda>v. v \<noteq> None) vs))
           = length (filter (\<lambda>v. case v of Some x \<Rightarrow> P x | None \<Rightarrow> False) vs)" for P and vs :: "pyfloat list"
    by (induction vs) (auto split: option.splits)
  note ov = get_rsi_class_oversold_case [abs_def] and ob = get_rsi_class_overbought_case [abs_def]
  define vs where "vs = map (\<lambda>r. rsi_at r tf) rows"
  have empty: "filter (\<lambda>v. v \<noteq> None) vs = [] \<longleftrightarrow> (\<forall>r \<in> set rows. rsi_at r tf = None)"
    by (simp add: vs_def filter_empty_conv)
  have o: "count_signals (\<lambda>x. x \<le> 20) (map RsiCell (filter (\<lambda>v. v \<noteq> None) vs))
      = Returned (length (filter (\<lambda>r. get_rsi_class (rsi_at r tf) = ''oversold-cell'') rows))"
    by (simp only: count_signals_rsi cnt) (simp add: vs_def ov filter_map comp_def)
  have b: "count_signals (\<lambda>x. x \<ge> 80) (map RsiCell (filter (\<lambda>v. v \<noteq> None) vs))
      = Returned (length (filter (\<lambda>r. get_rsi_class (rsi_at r tf) = ''overbought-cell'') rows))"
    by (simp only: count_signals_rsi cnt) (simp add: vs_def ob filter_map comp_def)
  show ?thesis
    unfolding signal_stats_def Let_def vals valid vs_def [symmetric]
    using empty o b by simp
qed



subsection \<open>Properties of the statistics\<close>

text \<open>
  C23. For the rows of a scan and any displayed timeframe other than
  \<open>Devises\<close>, the statistics never raise. They show \<open>N/A\<close> when the column
  holds no value, and otherwise the number of cells the table colours oversold,
  the number it colours overbought (both by \<open>get_rsi_class\<close>), and their sum:
  the metric agrees with the colouring.
\<close>

theorem signal_stats_scan:
  assumes "tf \<noteq> ''Devises''"
  shows "signal_stats (results (run_scan fetch pairs keys displays)) tf =
    (let rows = results (run_scan fetch pairs keys displays);
         oversold = length (filter (\<lambda>r. get_rsi_class (rsi_at r tf) = ''oversold-cell'') rows);
         overbought = length (filter (\<lambda>r. get_rsi_class (rsi_at r tf) = ''overbought-cell'') rows)
     in Returned (if \<forall>r \<in> set rows. rsi_at r tf = None then SignalsNA
                  else Signals (oversold + overbought) oversold overbought))"
  using signal_stats_rsi_only [OF scan_rows_rsi_only [OF assms]] by (simp add: Let_def)

theorem signal_stats_scan_witness:
  "''H1'' \<noteq> ''Devises'' \<and>
   signal_stats (results (run_scan (\<lambda>p k. None) [''EUR/USD''] [''H1''] [''H1''])) ''H1'' = Returned SignalsNA"
proof -
  have h: "''H1'' \<noteq> ''Devises''" by simp
  show ?thesis
    using signal_stats_scan [OF h, of "\<lambda>p k. None" "[''EUR/USD'']" "[''H1'']" "[''H1'']"]
    by (simp add: run_scan_results scan_row_def rsi_at_def)
qed



subsection \<open>The statistics refine their abstract specification\<close>

lemma size_filter_mset_map_filter:
  "size (filter_mset P (mset (List.map_filter f xs))) =
   length (filter (\<lambda>x. case f x of Some v \<Rightarrow> P v | None \<Rightarrow> False) xs)"
  by (induction xs) (auto simp: List.map_filter_simps split: option.splits)

lemma tf_values_empty:
  "tf_values rows tf = {#} \<longleftrightarrow> (\<forall>r \<in> set rows. rsi_at r tf = None)"
proof -
  have "size (tf_values rows tf) = length (filter (\<lambda>r. rsi_at r tf \<noteq> None) rows)"
    using size_filter_mset_map_filter [of "\<lambda>x. True" "\<lambda>r. rsi_at r tf" rows]
    by (simp add: tf_values_def split: option.splits)
  then show ?thesis by (simp add: filter_empty_conv flip: size_eq_0_iff_empty)
qed

text \<open>
  C39. For columns that hold only RSI values, the statistics of a timeframe
  are what the abstract specification gives on the multiset of the column's
  defined values: \<open>N/A\<close> for none, otherwise the numbers of values at most 20,
  at least 80, and their sum. In particular they depend neither on the order
  of the rows nor on the NaN cells.
\<close>

theorem signal_stats_refines:
  assumes "\<forall>r \<in> set rows. rsi_only r tf"
  shows "signal_stats rows tf = Returned (stats_spec (tf_values rows tf))"
proof -
  have o: "size (filter_mset (\<lambda>x. x \<le> 20) (tf_values rows tf)) =
      length (filter (\<lambda>r. get_rsi_class (rsi_at r tf) = ''oversold-cell'') rows)"
    by (simp add: tf_values_def size_filter_mset_map_filter get_rsi_class_oversold_case)
  have b: "size (filter_mset (\<lambda>x. 80 \<le> x) (tf_values rows tf)) =
      length (filter (\<lambda>r. get_rsi_class (rsi_at r tf) = ''overbought-cell'') rows)"
    by (simp add: tf_values_def size_filter_mset_map_filter get_rsi_class_overbought_case)
  show ?thesis
    using signal_stats_rsi_only [OF assms] by (simp add: stats_spec_def o b tf_values_empty)
qed

theorem signal_stats_refines_witness:
  "signal_stats [[(''H1'', RsiCell (Some 10))], [(''H1'', RsiCell None)], [(''H1'', RsiCell (Some 90))]] ''H1''
     = Returned (stats_spec {#10, 90#}) \<and> stats_spec {#10, 90#} = Signals 2 1 1"
proof -
  let ?rows = "[[(''H1'', RsiCell (Some 10))], [(''H1'', RsiCell None)], [(''H1'', RsiCell (Some 90))]]"
  have h: "\<forall>r \<in> set ?rows. rsi_only r ''H1''" by (simp add: rsi_only_def)
  have v: "tf_values ?rows ''H1'' = {#10, 90#}"
    by (simp add: tf_values_def rsi_at_def List.map_filter_simps)
  have s: "stats_spec {#10, 90#} = Signals 2 1 1" by (simp add: stats_spec_def)
  show ?thesis using signal_stats_refines [OF h] v s by simp
qed

end
