(* ===== verification/Render.thy ===== *)
theory Render
  imports Stats
begin

text \<open>
  The HTML table of \<open>src/apprsi.py\<close> (lines 171--191). The string
  \<open>html_table\<close> is built by appending: the header with one \<open><th>\<close> per
  displayed timeframe, then for each row (with its index, \<open>enumerate\<close>) a
  \<open><tr>\<close> whose first cell is the pair's name, stripped, or a placeholder
  naming the row when the name is missing or blank, and one cell per timeframe
  with the CSS class of \<open>get_rsi_class\<close> and the text of \<open>format_rsi\<close>. A value
  that is a string (a \<open>Devises\<close> entry read as a timeframe) makes
  \<open>get_rsi_class\<close> compare a string with \<open>20\<close>: \<open>TypeError\<close>, the value
  \<open>Raised\<close>, which stops the page. Python's \<open>str\<close> of a float in the name
  column is the parameter \<open>float_str\<close>; characters are Latin-1 code points, and
  \<open>str.strip\<close> removes the ones \<open>str.isspace\<close> accepts among them.

  \<open>td_cells\<close> is not part of the program: it reads back, from an HTML string,
  the class and text of every \<open><td class="...">...\<close> cell, so that the table's
  content can be stated as a round trip.
\<close>

definition py_isspace :: "char \<Rightarrow> bool" where
  "py_isspace c \<longleftrightarrow>
     (let n = (of_char c :: nat) in (9 \<le> n \<and> n \<le> 13) \<or> (28 \<le> n \<and> n \<le> 32) \<or> n = 133 \<or> n = 160)"

definition py_strip :: "string \<Rightarrow> string" where
  "py_strip s = rev (dropWhile py_isspace (rev (dropWhile py_isspace s)))"

text \<open>Lines 178--180: the text of the first cell of row \<open>row_idx\<close>.\<close>

definition devises_text :: "(pyfloat \<Rightarrow> string) \<Rightarrow> nat \<Rightarrow> row \<Rightarrow> string" where
  "devises_text float_str row_idx row =
     (let v = (case map_of row ''Devises'' of
                 None \<Rightarrow> ''DEVISE_MANQUANTE_LIGNE_'' @ nat_to_string row_idx
               | Some (DevisesCell s) \<Rightarrow> s
               | Some (RsiCell x) \<Rightarrow> float_str x);
          devises = py_strip v
      in if devises = [] then ''DEVISE_VIDE_LIGNE_'' @ nat_to_string row_idx else devises)"

text \<open>The f-string \<open><td class="{css_class}">{text}</td>\<close> of lines 182 and 188.\<close>

definition td_html :: "string \<Rightarrow> string \<Rightarrow> string" where
  "td_html css_class text = ''<td class=\"'' @ css_class @ ''\">'' @ text @ ''</td>''"

text \<open>Lines 185--188: one timeframe cell.\<close>

definition render_cell :: "cell \<Rightarrow> string call_result" where
  "render_cell rsi_val =
     (case rsi_val of
        DevisesCell s \<Rightarrow> Raised
      | RsiCell v \<Rightarrow> Returned (td_html (get_rsi_class v) (format_rsi v)))"

text \<open>The loop of line 184, appending to \<open>html_table\<close>.\<close>

fun render_cells :: "row \<Rightarrow> string list \<Rightarrow> string \<Rightarrow> string call_result" where
  "render_cells row [] html_table = Returned html_table"
| "render_cells row (tf_display_name # tfs) html_table =
     (case render_cell (row_get row tf_display_name) of
        Raised \<Rightarrow> Raised
      | Returned td \<Rightarrow> render_cells row tfs (html_table @ td))"

text \<open>Lines 178--189: one row.\<close>

definition render_row ::
  "(pyfloat \<Rightarrow> string) \<Rightarrow> string list \<Rightarrow> nat \<Rightarrow> row \<Rightarrow> string \<Rightarrow> string call_result" where
  "render_row float_str tfs row_idx row html_table =
     (case render_cells row tfs (html_table @ ''<tr>'' @ td_html ''devises-cell'' (devises_text float_str row_idx row)) of
        Raised \<Rightarrow> Raised
      | Returned h \<Rightarrow> Returned (h @ ''</tr>''))"

text \<open>The loop of line 177 over \<open>enumerate(results)\<close>.\<close>

fun render_rows ::
  "(pyfloat \<Rightarrow> string) \<Rightarrow> string list \<Rightarrow> (nat \<times> row) list \<Rightarrow> string \<Rightarrow> string call_result" where
  "render_rows float_str tfs [] html_table = Returned html_table"
| "render_rows float_str tfs ((row_idx, row) # rs) html_table =
     (case render_row float_str tfs row_idx row html_table of
        Raised \<Rightarrow> Raised
      | Returned h \<Rightarrow> render_rows float_str tfs rs h)"

text \<open>Lines 172--175: the header.\<close>

definition html_header :: "string list \<Rightarrow> string" where
  "html_header tfs =
     foldl (\<lambda>html_table tf_display_name. html_table @ ''<th>'' @ tf_display_name @ ''</th>'')
       (''<table class=\"rsi-table\">'' @ ''<thead><tr><th>Devises</th>'') tfs
     @ ''</tr></thead><tbody>''"

definition render_table :: "(pyfloat \<Rightarrow> string) \<Rightarrow> string list \<Rightarrow> row list \<Rightarrow> string call_result" where
  "render_table float_str tfs result_rows =
     (case render_rows float_str tfs (enumerate 0 result_rows) (html_header tfs) of
        Raised \<Rightarrow> Raised
      | Returned h \<Rightarrow> Returned (h @ ''</tbody></table>''))"

subsection \<open>Reading the cells back\<close>

definition td_open :: string where
  "td_open = ''<td class=\"''"

function td_cells :: "string \<Rightarrow> (string \<times> string) list" where
  "td_cells s =
     (if s = [] then []
      else if take (length td_open) s = td_open then
        (let r = drop (length td_open) s;
             cls = takeWhile (\<lambda>c. c \<noteq> CHR 0x22) r;
             r2 = drop 2 (drop (length cls) r);
             body = takeWhile (\<lambda>c. c \<noteq> CHR ''<'') r2
         in (cls, body) # td_cells (drop (length body) r2))
      else td_cells (tl s))"
  by pat_completeness auto
termination
  by (relation "measure length") (auto simp: td_open_def)

declare td_cells.simps [simp del]

text \<open>The cells a row shows, as \<open>td_cells\<close> reads them.\<close>

definition row_cells :: "(pyfloat \<Rightarrow> string) \<Rightarrow> string list \<Rightarrow> nat \<Rightarrow> row \<Rightarrow> (string \<times> string) list" where
  "row_cells float_str tfs row_idx row =
     (''devises-cell'', devises_text float_str row_idx row) #
     map (\<lambda>tf. (get_rsi_class (rsi_at row tf), format_rsi (rsi_at row tf))) tfs"

definition row_html :: "(pyfloat \<Rightarrow> string) \<Rightarrow> string list \<Rightarrow> nat \<Rightarrow> row \<Rightarrow> string" where
  "row_html float_str tfs row_idx row =
     ''<tr>'' @ td_html ''devises-cell'' (devises_text float_str row_idx row) @
     concat (map (\<lambda>tf. td_html (get_rsi_class (rsi_at row tf)) (format_rsi (rsi_at row tf))) tfs) @ ''</tr>''"

subsection \<open>Library lemmas: the reader\<close>

named_theorems td_cells_simps "steps of the cell reader over literal HTML"

lemma td_cells_Nil [simp]: "td_cells [] = []"
  by (simp add: td_cells.simps)

lemma td_cells_skip1 [td_cells_simps]: "c \<noteq> CHR ''<'' \<Longrightarrow> td_cells (c # s) = td_cells s"
  by (subst td_cells.simps) (simp add: td_open_def)

lemma td_cells_lt [td_cells_simps]:
  "c \<noteq> CHR ''t'' \<Longrightarrow> td_cells (CHR ''<'' # c # s) = td_cells (c # s)"
  by (subst td_cells.simps) (simp add: td_open_def)

lemma td_cells_lt_t [td_cells_simps]:
  "c \<noteq> CHR ''d'' \<Longrightarrow> td_cells (CHR ''<'' # CHR ''t'' # c # s) = td_cells (CHR ''t'' # c # s)"
  by (subst td_cells.simps) (simp add: td_open_def)

lemma td_cells_append_skip [td_cells_simps]:
  "CHR ''<'' \<notin> set p \<Longrightarrow> td_cells (p @ s) = td_cells s"
  by (induction p) (auto simp: td_cells_skip1)

lemma takeWhile_upto: "c \<notin> set xs \<Longrightarrow> takeWhile (\<lambda>x. x \<noteq> c) (xs @ c # ys) = xs"
  by (induction xs) auto

lemma td_cells_td_html [td_cells_simps]:
  assumes "CHR 0x22 \<notin> set cls" "CHR ''<'' \<notin> set body"
  shows "td_cells (td_html cls body @ s) = (cls, body) # td_cells s"
proof -
  let ?r = "cls @ ''\">'' @ body @ ''</td>'' @ s"
  have r: "drop (length td_open) (td_html cls body @ s) = ?r"
    by (simp add: td_html_def td_open_def)
  have t: "take (length td_open) (td_html cls body @ s) = td_open"
    by (simp add: td_html_def td_open_def)
  have c: "takeWhile (\<lambda>c. c \<noteq> CHR 0x22) ?r = cls"
    using assms(1) takeWhile_upto [of "CHR 0x22" cls] by simp
  have r2: "drop 2 (drop (length cls) ?r) = body @ ''</td>'' @ s" by simp
  have x: "takeWhile (\<lambda>c. c \<noteq> CHR ''<'') (body @ ''</td>'' @ s) = body"
    using assms(2) takeWhile_upto [of "CHR ''<''" body] by simp
  show ?thesis
    by (subst td_cells.simps) (simp only: r t c r2 x Let_def, simp add: td_html_def td_cells_lt td_cells_skip1)
qed

lemma is_digit_not_lt: "is_digit c \<Longrightarrow> c \<noteq> CHR ''<''"
  by (auto simp: is_digit_def)

lemma format_rsi_chars: "c \<in> set (format_rsi v) \<Longrightarrow> is_digit c \<or> c \<in> set ''.-N/A''"
proof (cases v)
  case None
  then show "c \<in> set (format_rsi v) \<Longrightarrow> ?thesis" by (auto simp: format_rsi_def)
next
  case (Some x)
  let ?n = "nat (round_half_even (\<bar>x\<bar> * 100))"
  have "\<forall>c \<in> set (nat_to_string (?n div 100)). is_digit c" by (rule nat_to_string_digits)
  moreover have "\<forall>c \<in> set (two_digits (?n mod 100)). is_digit c"
    using two_digits_digits [of "?n mod 100"] by (simp add: list_all_iff)
  ultimately show "c \<in> set (format_rsi v) \<Longrightarrow> ?thesis"
    using Some by (auto simp: format_rsi_def format_fixed2_def Let_def)
qed

lemma format_rsi_no_lt: "CHR ''<'' \<notin> set (format_rsi v)"
  using format_rsi_chars is_digit_not_lt by fastforce

lemma get_rsi_class_no_quote: "CHR 0x22 \<notin> set (get_rsi_class v)"
  by (simp add: get_rsi_class_def split: option.splits)

lemma foldl_append_concat: "foldl (\<lambda>h x. h @ f x) a xs = a @ concat (map f xs)"
  by (induction xs arbitrary: a) simp_all

lemma td_cells_header:
  assumes "\<forall>tf \<in> set tfs. CHR ''<'' \<notin> set tf"
  shows "td_cells (html_header tfs @ s) = td_cells s"
proof -
  have th: "td_cells (concat (map (\<lambda>tf. ''<th>'' @ tf @ ''</th>'') tfs) @ r) = td_cells r" for r
    using assms by (induction tfs) (simp_all add: td_cells_simps)
  show ?thesis
    by (simp add: html_header_def foldl_append_concat td_cells_simps th [simplified])
qed

subsection \<open>Library lemmas: the renderer\<close>

lemma not_rsi_only_Devises: "\<not> rsi_only r tf \<Longrightarrow> \<exists>s. row_get r tf = DevisesCell s"
  by (auto simp: rsi_only_def row_get_def split: option.splits cell.splits)

lemma render_cells_ok:
  "\<forall>tf \<in> set tfs. rsi_only row tf \<Longrightarrow>
   render_cells row tfs h =
     Returned (h @ concat (map (\<lambda>tf. td_html (get_rsi_class (rsi_at row tf)) (format_rsi (rsi_at row tf))) tfs))"
  by (induction tfs arbitrary: h) (simp_all add: row_get_rsi_only render_cell_def)

lemma render_cells_Raised:
  "\<exists>tf \<in> set tfs. \<not> rsi_only row tf \<Longrightarrow> render_cells row tfs h = Raised"
proof (induction tfs arbitrary: h)
  case Nil
  then show ?case by simp
next
  case (Cons tf tfs)
  show ?case
  proof (cases "rsi_only row tf")
    case True
    with Cons show ?thesis by (simp add: row_get_rsi_only render_cell_def)
  next
    case False
    then obtain s where "row_get row tf = DevisesCell s" by (blast dest: not_rsi_only_Devises)
    then show ?thesis by (simp add: render_cell_def)
  qed
qed

lemma render_rows_ok:
  "\<forall>(i, r) \<in> set irs. \<forall>tf \<in> set tfs. rsi_only r tf \<Longrightarrow>
   render_rows float_str tfs irs h = Returned (h @ concat (map (\<lambda>(i, r). row_html float_str tfs i r) irs))"
  by (induction irs arbitrary: h) (auto simp: render_row_def render_cells_ok row_html_def)

lemma render_rows_Raised:
  "\<exists>(i, r) \<in> set irs. \<exists>tf \<in> set tfs. \<not> rsi_only r tf \<Longrightarrow> render_rows float_str tfs irs h = Raised"
proof (induction irs arbitrary: h)
  case Nil
  then show ?case by simp
next
  case (Cons ir irs)
  obtain i r where ir: "ir = (i, r)" by fastforce
  show ?case
  proof (cases "\<exists>tf \<in> set tfs. \<not> rsi_only r tf")
    case True
    then show ?thesis by (simp add: ir render_row_def render_cells_Raised)
  next
    case False
    with Cons.prems have "\<exists>(i, r) \<in> set irs. \<exists>tf \<in> set tfs. \<not> rsi_only r tf" by (auto simp: ir)
    with False show ?thesis by (simp add: ir render_row_def render_cells_ok Cons.IH)
  qed
qed

lemma td_cells_row_html:
  assumes "CHR ''<'' \<notin> set (devises_text float_str i r)"
  shows "td_cells (row_html float_str tfs i r @ s) = row_cells float_str tfs i r @ td_cells s"
proof -
  have cells: "td_cells (concat (map (\<lambda>tf. td_html (get_rsi_class (rsi_at r tf)) (format_rsi (rsi_at r tf))) tfs) @ q) =
      map (\<lambda>tf. (get_rsi_class (rsi_at r tf), format_rsi (rsi_at r tf))) tfs @ td_cells q" for q
    by (induction tfs) (simp_all add: td_cells_td_html get_rsi_class_no_quote format_rsi_no_lt)
  have "td_cells (td_html ''devises-cell'' (devises_text float_str i r) @ q) =
      (''devises-cell'', devises_text float_str i r) # td_cells q" for q
    using assms by (simp add: td_cells_td_html)
  then show ?thesis
    by (simp add: row_html_def row_cells_def td_cells_simps cells [simplified])
qed

lemma td_cells_rows_html:
  assumes "\<forall>(i, r) \<in> set irs. CHR ''<'' \<notin> set (devises_text float_str i r)"
  shows "td_cells (concat (map (\<lambda>(i, r). row_html float_str tfs i r) irs) @ s) =
         concat (map (\<lambda>(i, r). row_cells float_str tfs i r) irs) @ td_cells s"
  using assms by (induction irs) (auto simp: td_cells_row_html)

lemma enumerate_snd_mem: "(i, r) \<in> set (enumerate n rows) \<Longrightarrow> r \<in> set rows"
  by (simp add: enumerate_eq_zip set_zip_rightD)

lemma td_cells_footer: "td_cells ''</tbody></table>'' = []"
  by (simp add: td_cells_simps)

lemma render_table_cells_gen:
  assumes "\<forall>r \<in> set rows. \<forall>tf \<in> set tfs. rsi_only r tf"
    and "\<forall>tf \<in> set tfs. CHR ''<'' \<notin> set tf"
    and "\<forall>(i, r) \<in> set (enumerate 0 rows). CHR ''<'' \<notin> set (devises_text float_str i r)"
  shows "\<exists>html. render_table float_str tfs rows = Returned html \<and>
           td_cells html = concat (map (\<lambda>(i, r). row_cells float_str tfs i r) (enumerate 0 rows))"
proof -
  have ok: "\<forall>(i, r) \<in> set (enumerate 0 rows). \<forall>tf \<in> set tfs. rsi_only r tf"
    using assms(1) by (auto dest: enumerate_snd_mem)
  let ?h = "html_header tfs @ concat (map (\<lambda>(i, r). row_html float_str tfs i r) (enumerate 0 rows))"
  have "render_table float_str tfs rows = Returned (?h @ ''</tbody></table>'')"
    by (simp add: render_table_def render_rows_ok [OF ok])
  moreover have "td_cells (?h @ ''</tbody></table>'') =
      concat (map (\<lambda>(i, r). row_cells float_str tfs i r) (enumerate 0 rows))"
    using td_cells_header [OF assms(2)] td_cells_rows_html [OF assms(3)] td_cells_footer by simp
  ultimately show ?thesis by blast
qed

subsection \<open>Properties of the renderer\<close>

text \<open>
  C37. When every displayed column of every row holds an RSI value (no string),
  no timeframe name and no first-cell text contains \<open><\<close>, the table is
  produced, and reading its \<open><td>\<close> cells back gives, row by row in order,
  the pair's text and then, per timeframe in order, the class of
  \<open>get_rsi_class\<close> and the text of \<open>format_rsi\<close> of the row's value.
\<close>

theorem render_table_cells:
  assumes "\<forall>r \<in> set rows. \<forall>tf \<in> set tfs. rsi_only r tf"
    and "\<forall>tf \<in> set tfs. CHR ''<'' \<notin> set tf"
    and "\<forall>(i, r) \<in> set (enumerate 0 rows). CHR ''<'' \<notin> set (devises_text float_str i r)"
  shows "\<exists>html. render_table float_str tfs rows = Returned html \<and>
           td_cells html = concat (map (\<lambda>(i, r). row_cells float_str tfs i r) (enumerate 0 rows))"
  using assms by (rule render_table_cells_gen)

theorem render_table_cells_witness:
  "\<exists>html. render_table (\<lambda>v. ''nan'') [''H1'']
       [[(''Devises'', DevisesCell '' EUR/USD ''), (''H1'', RsiCell (Some 15))], [(''H1'', RsiCell None)]]
       = Returned html \<and>
     td_cells html = [(''devises-cell'', ''EUR/USD''), (''oversold-cell'', ''15.00''),
                      (''devises-cell'', ''DEVISE_MANQUANTE_LIGNE_1''), (''neutral-cell'', ''N/A'')]"
proof -
  let ?rows = "[[(''Devises'', DevisesCell '' EUR/USD ''), (''H1'', RsiCell (Some 15))], [(''H1'', RsiCell None)]]"
  have h1: "\<forall>r \<in> set ?rows. \<forall>tf \<in> set [''H1'']. rsi_only r tf" by (simp add: rsi_only_def)
  have h2: "\<forall>tf \<in> set [''H1'']. CHR ''<'' \<notin> set tf" by simp
  have h3: "\<forall>(i, r) \<in> set (enumerate 0 ?rows). CHR ''<'' \<notin> set (devises_text (\<lambda>v. ''nan'') i r)"
    by code_simp
  have c: "concat (map (\<lambda>(i, r). row_cells (\<lambda>v. ''nan'') [''H1''] i r) (enumerate 0 ?rows)) =
      [(''devises-cell'', ''EUR/USD''), (''oversold-cell'', ''15.00''),
       (''devises-cell'', ''DEVISE_MANQUANTE_LIGNE_1''), (''neutral-cell'', ''N/A'')]"
    by code_simp
  show ?thesis using render_table_cells [OF h1 h2 h3] c by simp
qed

text \<open>
  C38. If some row holds a string in a displayed column, the page stops with
  the exception \<open>get_rsi_class\<close> raises: no table is produced.
\<close>

theorem render_table_raises:
  assumes "r \<in> set rows" "tf \<in> set tfs" "\<not> rsi_only r tf"
  shows "render_table float_str tfs rows = Raised"
proof -
  obtain k where k: "k < length rows" "rows ! k = r"
    using assms(1) by (auto simp: in_set_conv_nth)
  then have "enumerate 0 rows ! k \<in> set (enumerate 0 rows)" by (simp add: nth_mem)
  then have "(k, r) \<in> set (enumerate 0 rows)" using k by (simp add: nth_enumerate_eq)
  with assms(2,3) have "\<exists>(i, r) \<in> set (enumerate 0 rows). \<exists>tf \<in> set tfs. \<not> rsi_only r tf" by blast
  then show ?thesis by (simp add: render_table_def render_rows_Raised)
qed

theorem render_table_raises_witness:
  "render_table (\<lambda>v. ''nan'') [''Devises'', ''H1''] [[(''Devises'', DevisesCell ''EUR/USD'')]] = Raised"
  by (rule render_table_raises [where r = "[(''Devises'', DevisesCell ''EUR/USD'')]" and tf = "''Devises''"])
     (simp_all add: rsi_only_def)

end
