(* ===== verification/Page.thy ===== *)
theory Page
  imports Render
begin

text \<open>
  The page around the table in \<open>src/apprsi.py\<close>: the page configuration
  (lines 10--15), the style sheet injected by \<open>st.markdown\<close> (lines 18--96),
  the HTML and Markdown fragments the page writes (lines 140--146, 171,
  193--194, 207, 216), the closing \<open>st.success\<close> message (line 208) and the
  user guide (lines 210--214). The style sheet is kept as
  the list of its rules, each a selector and its declarations in source order
  (property and value, \<open>!important\<close> kept in the value; the CSS comments are
  dropped). Strings are bytes: the emoji and the signs \<open>\<le>\<close>, \<open>\<ge>\<close> are
  written in UTF-8, as the source file stores them. The time of the update line
  is \<open>datetime.now().strftime(...)\<close>, a library call: the parameter
  \<open>current_time\<close>.

  \<open>html_classes\<close> is not part of the program: it reads the class names of
  every \<open>class="..."\<close> attribute of an HTML string, so that the claim "every
  class the page uses has a style rule" can be stated.
\<close>

datatype css_rule = CssRule string "(string \<times> string) list"

definition page_css :: "css_rule list" where
  "page_css =
     [CssRule ''.main > div'' [(''padding-top'', ''2rem'')],
      CssRule ''.screener-header''
        [(''font-size'', ''24px''), (''font-weight'', ''bold''), (''color'', ''#FAFAFA''),
         (''margin-bottom'', ''10px'')],
      CssRule ''.update-info''
        [(''background-color'', ''#262730''), (''padding'', ''8px 15px''), (''border-radius'', ''5px''),
         (''margin-bottom'', ''15px''), (''font-size'', ''14px''), (''color'', ''#A5A7AB'')],
      CssRule ''.legend-container''
        [(''display'', ''flex''), (''justify-content'', ''center''), (''gap'', ''40px''),
         (''margin'', ''20px 0''), (''padding'', ''10px''), (''color'', ''#FAFAFA'')],
      CssRule ''.legend-item''
        [(''display'', ''flex''), (''align-items'', ''center''), (''gap'', ''8px''), (''font-size'', ''14px'')],
      CssRule ''.legend-dot'' [(''width'', ''12px''), (''height'', ''12px''), (''border-radius'', ''50%'')],
      CssRule ''.oversold-dot'' [(''background-color'', ''#dc3545'')],
      CssRule ''.overbought-dot'' [(''background-color'', ''#28a745'')],
      CssRule ''.rsi-table''
        [(''width'', ''100%''), (''border-collapse'', ''collapse''), (''margin'', ''20px 0''),
         (''font-size'', ''13px''), (''border'', ''1px solid #3D3F4B'')],
      CssRule ''.rsi-table th''
        [(''background-color'', ''#3D3F4B''), (''color'', ''#FAFAFA !important''), (''padding'', ''12px 8px''),
         (''text-align'', ''center''), (''font-weight'', ''bold''), (''border'', ''1px solid #262730'')],
      CssRule ''.rsi-table td''
        [(''padding'', ''10px 8px''), (''text-align'', ''center''), (''border'', ''1px solid #262730''),
         (''color'', ''#D1D2D6 !important'')],
      CssRule ''.devises-cell'' [(''font-weight'', ''bold !important''), (''color'', ''#E0E0E0 !important'')],
      CssRule ''.oversold-cell''
        [(''background-color'', ''#B00020 !important''), (''color'', ''#FFFFFF !important''), (''font-weight'', ''bold'')],
      CssRule ''.overbought-cell''
        [(''background-color'', ''#00796B !important''), (''color'', ''#FFFFFF !important''), (''font-weight'', ''bold'')],
      CssRule ''.neutral-cell'' [],
      CssRule ''.stats-container'' [(''margin-top'', ''30px''), (''color'', ''#FAFAFA'')],
      CssRule ''h3'' [(''color'', ''#FAFAFA !important'')]]"

text \<open>The rule whose selector is the single class \<open>.c\<close>, if there is one.\<close>

definition css_class_rule :: "css_rule list \<Rightarrow> string \<Rightarrow> (string \<times> string) list option" where
  "css_class_rule css c =
     map_option (\<lambda>r. case r of CssRule sel decls \<Rightarrow> decls)
       (find (\<lambda>r. case r of CssRule sel decls \<Rightarrow> sel = CHR ''.'' # c) css)"

definition utf8 :: "nat list \<Rightarrow> string" where
  "utf8 bytes = map char_of bytes"

text \<open>Lines 10--15: \<open>st.set_page_config\<close>.\<close>

record page_config =
  page_title :: string
  page_icon :: string
  page_layout :: string
  initial_sidebar_state :: string

definition st_page_config :: page_config where
  "st_page_config =
     \<lparr>page_title = ''RSI Forex Screener'', page_icon = utf8 [240, 159, 147, 138],
      page_layout = ''wide'', initial_sidebar_state = ''collapsed''\<rparr>"

definition header_html :: string where
  "header_html = ''<h1 class=\"screener-header\">'' @ utf8 [240, 159, 147, 138] @ '' Screener Analysis</h1>''"

definition update_info_html :: "string \<Rightarrow> string" where
  "update_info_html current_time =
     ''<div class=\"update-info\">'' @ utf8 [240, 159, 148, 132] @ '' Analysis updated. Last update: '' @
     current_time @ ''</div>''"

definition legend_html :: string where
  "legend_html =
     ''<div class=\"legend-container\">'' @ [CHR 0x0A] @
     ''    <div class=\"legend-item\"><div class=\"legend-dot oversold-dot\"></div><span>Oversold (RSI '' @
     utf8 [226, 137, 164] @ '' 20)</span></div>'' @ [CHR 0x0A] @
     ''    <div class=\"legend-item\"><div class=\"legend-dot overbought-dot\"></div><span>Overbought (RSI '' @
     utf8 [226, 137, 165] @ '' 80)</span></div>'' @ [CHR 0x0A] @
     ''</div>''"

definition results_title :: string where
  "results_title = ''### '' @ utf8 [240, 159, 147, 136] @ '' RSI Analysis Results''"

definition stats_open_html :: string where
  "stats_open_html = ''<div class=\"stats-container\">''"

definition stats_title :: string where
  "stats_title = ''### '' @ utf8 [240, 159, 147, 138] @ '' Signal Statistics''"

definition stats_close_html :: string where
  "stats_close_html = ''</div>''"

definition footer_markdown :: "string list" where
  "footer_markdown =
     [''---'', ''*Developed with Streamlit | Data from Yahoo Finance | RSI OHLC4 Period 10*'']"

text \<open>Line 208: the message of \<open>st.success\<close>.\<close>

definition success_message :: "nat \<Rightarrow> string" where
  "success_message n_pairs =
     utf8 [226, 156, 133] @ '' Analysis complete! '' @ nat_to_string n_pairs @ '' pairs analyzed.''"

text \<open>
  Lines 210--214: the user guide, an expander with its title and the Markdown
  it shows (the source holds an abbreviated placeholder text).
\<close>

definition user_guide :: "string \<times> string" where
  "user_guide =
     (utf8 [226, 132, 185, 239, 184, 143] @ '' User Guide'',
      '' '' @ [CHR 0x0A] @ ''    ## RSI Configuration '' @ [CHR 0x0A] @ ''    ... '' @ [CHR 0x0A] @ ''    '')"

subsection \<open>Reading class names\<close>

fun split_spaces :: "string \<Rightarrow> string \<Rightarrow> string list" where
  "split_spaces acc [] = (if acc = [] then [] else [rev acc])"
| "split_spaces acc (c # cs) =
     (if c = CHR '' '' then (if acc = [] then split_spaces [] cs else rev acc # split_spaces [] cs)
      else split_spaces (c # acc) cs)"

definition class_open :: string where
  "class_open = ''class=\"''"

function html_classes :: "string \<Rightarrow> string list" where
  "html_classes s =
     (if s = [] then []
      else if take (length class_open) s = class_open then
        (let r = drop (length class_open) s;
             v = takeWhile (\<lambda>c. c \<noteq> CHR 0x22) r
         in split_spaces [] v @ html_classes (drop (length v) r))
      else html_classes (tl s))"
  by pat_completeness auto
termination
  by (relation "measure length") (auto simp: class_open_def)

declare html_classes.simps [simp del]

subsection \<open>Library lemmas: the class reader\<close>

named_theorems html_classes_simps "steps of the class reader over literal HTML"

lemma html_classes_Nil [simp]: "html_classes [] = []"
  by (simp add: html_classes.simps)

lemma html_classes_skip1 [html_classes_simps]: "c \<noteq> CHR ''c'' \<Longrightarrow> html_classes (c # s) = html_classes s"
  by (subst html_classes.simps) (simp add: class_open_def)

lemma html_classes_c [html_classes_simps]:
  "c \<noteq> CHR ''l'' \<Longrightarrow> html_classes (CHR ''c'' # c # s) = html_classes (c # s)"
  by (subst html_classes.simps) (simp add: class_open_def)

lemma html_classes_attr [html_classes_simps]:
  "html_classes (CHR ''c'' # CHR ''l'' # CHR ''a'' # CHR ''s'' # CHR ''s'' # CHR ''='' # CHR 0x22 # r) =
     (let v = takeWhile (\<lambda>c. c \<noteq> CHR 0x22) r in split_spaces [] v @ html_classes (drop (length v) r))"
  by (subst html_classes.simps) (simp add: class_open_def)

lemma html_classes_append_skip [html_classes_simps]:
  "CHR ''c'' \<notin> set p \<Longrightarrow> html_classes (p @ s) = html_classes s"
  by (induction p) (auto simp: html_classes_skip1)

lemma split_spaces_word: "CHR '' '' \<notin> set w \<Longrightarrow> split_spaces acc w = (if acc = [] \<and> w = [] then [] else [rev acc @ w])"
  by (induction w arbitrary: acc) auto

lemma html_classes_td_html:
  assumes "CHR 0x22 \<notin> set cls" "CHR '' '' \<notin> set cls" "cls \<noteq> []" "CHR ''c'' \<notin> set body"
  shows "html_classes (td_html cls body @ s) = cls # html_classes s"
proof -
  have "td_html cls body @ s = ''<td '' @ class_open @ cls @ CHR 0x22 # (''>'' @ body @ ''</td>'' @ s)"
    by (simp add: td_html_def class_open_def)
  moreover have "html_classes (''<td '' @ class_open @ cls @ CHR 0x22 # r) = cls # html_classes r" for r
    using assms(1-3) takeWhile_upto [of "CHR 0x22" cls r]
    by (simp add: class_open_def html_classes_simps split_spaces_word)
  moreover have "html_classes (''>'' @ body @ ''</td>'' @ s) = html_classes s"
    using assms(4) by (simp add: html_classes_simps)
  ultimately show ?thesis by simp
qed

lemma get_rsi_class_word: "CHR 0x22 \<notin> set (get_rsi_class v) \<and> CHR '' '' \<notin> set (get_rsi_class v) \<and> get_rsi_class v \<noteq> []"
  by (simp add: get_rsi_class_def split: option.splits)

lemma format_rsi_no_c: "CHR ''c'' \<notin> set (format_rsi v)"
  using format_rsi_chars [of "CHR ''c''" v] by (auto simp: is_digit_def)

lemma utf8_no_c [simp]: "list_all (\<lambda>b. b < 256 \<and> b \<noteq> 99) bs \<Longrightarrow> CHR ''c'' \<notin> set (utf8 bs)"
proof (induction bs)
  case Nil
  then show ?case by (simp add: utf8_def)
next
  case (Cons b bs)
  have ne: "CHR ''c'' \<noteq> char_of b"
  proof
    assume "CHR ''c'' = char_of b"
    then have "(of_char (CHR ''c'') :: nat) = of_char (char_of b)" by (rule arg_cong)
    then show False using Cons.prems by (simp add: of_char_of)
  qed
  have "CHR ''c'' \<notin> set (utf8 bs)" using Cons by simp
  with ne show ?case by (simp only: utf8_def list.map list.set insert_iff) (simp add: utf8_def)
qed

lemma html_classes_static:
  "html_classes header_html = [''screener-header'']"
  "html_classes legend_html = [''legend-container'', ''legend-item'', ''legend-dot'', ''oversold-dot'',
                               ''legend-item'', ''legend-dot'', ''overbought-dot'']"
  "html_classes results_title = []" "html_classes stats_open_html = [''stats-container'']"
  "html_classes stats_title = []" "html_classes stats_close_html = []"
  "concat (map html_classes footer_markdown) = []"
  by (simp_all add: header_html_def legend_html_def results_title_def stats_open_html_def stats_title_def
      stats_close_html_def footer_markdown_def html_classes_simps Let_def)

lemma html_classes_update_info:
  "CHR ''c'' \<notin> set current_time \<Longrightarrow> html_classes (update_info_html current_time) = [''update-info'']"
  by (simp add: update_info_html_def html_classes_simps)

lemma html_classes_header:
  assumes "\<forall>tf \<in> set tfs. CHR ''c'' \<notin> set tf"
  shows "html_classes (html_header tfs @ s) = ''rsi-table'' # html_classes s"
proof -
  have th: "html_classes (concat (map (\<lambda>tf. ''<th>'' @ tf @ ''</th>'') tfs) @ r) = html_classes r" for r
    using assms by (induction tfs) (simp_all add: html_classes_simps)
  show ?thesis
    by (simp add: html_header_def foldl_append_concat html_classes_simps Let_def th [simplified])
qed

lemma html_classes_row:
  assumes "CHR ''c'' \<notin> set (devises_text float_str i r)"
  shows "html_classes (row_html float_str tfs i r @ s) =
           ''devises-cell'' # map (\<lambda>tf. get_rsi_class (rsi_at r tf)) tfs @ html_classes s"
proof -
  have cells: "html_classes (concat (map (\<lambda>tf. td_html (get_rsi_class (rsi_at r tf)) (format_rsi (rsi_at r tf))) tfs) @ q) =
      map (\<lambda>tf. get_rsi_class (rsi_at r tf)) tfs @ html_classes q" for q
    by (induction tfs) (simp_all add: html_classes_td_html get_rsi_class_word format_rsi_no_c)
  have "html_classes (td_html ''devises-cell'' (devises_text float_str i r) @ q) = ''devises-cell'' # html_classes q" for q
    using assms by (simp add: html_classes_td_html)
  then show ?thesis
    by (simp add: row_html_def html_classes_simps cells [simplified])
qed

lemma html_classes_table:
  assumes "\<forall>r \<in> set rows. \<forall>tf \<in> set tfs. rsi_only r tf"
    and "\<forall>tf \<in> set tfs. CHR ''c'' \<notin> set tf"
    and "\<forall>(i, r) \<in> set (enumerate 0 rows). CHR ''c'' \<notin> set (devises_text float_str i r)"
  shows "\<exists>html. render_table float_str tfs rows = Returned html \<and>
           html_classes html = ''rsi-table'' #
             concat (map (\<lambda>(i, r). ''devises-cell'' # map (\<lambda>tf. get_rsi_class (rsi_at r tf)) tfs) (enumerate 0 rows))"
proof -
  have ok: "\<forall>(i, r) \<in> set (enumerate 0 rows). \<forall>tf \<in> set tfs. rsi_only r tf"
    using assms(1) by (auto dest: enumerate_snd_mem)
  let ?h = "html_header tfs @ concat (map (\<lambda>(i, r). row_html float_str tfs i r) (enumerate 0 rows))"
  have "render_table float_str tfs rows = Returned (?h @ ''</tbody></table>'')"
    by (simp add: render_table_def render_rows_ok [OF ok])
  moreover have rows: "html_classes (concat (map (\<lambda>(i, r). row_html float_str tfs i r) irs) @ q) =
      concat (map (\<lambda>(i, r). ''devises-cell'' # map (\<lambda>tf. get_rsi_class (rsi_at r tf)) tfs) irs) @ html_classes q"
    if "\<forall>(i, r) \<in> set irs. CHR ''c'' \<notin> set (devises_text float_str i r)" for irs q
    using that by (induction irs) (auto simp: html_classes_row)
  moreover have "html_classes ''</tbody></table>'' = []" by (simp add: html_classes_simps)
  ultimately show ?thesis
    using html_classes_header [OF assms(2)] rows [OF assms(3)] by simp
qed

lemma get_rsi_class_cases: "get_rsi_class v \<in> {''oversold-cell'', ''overbought-cell'', ''neutral-cell''}"
  by (simp add: get_rsi_class_def split: option.splits)

lemma css_class_rule_used:
  "c \<in> {''rsi-table'', ''devises-cell'', ''oversold-cell'', ''overbought-cell'', ''neutral-cell'',
        ''screener-header'', ''update-info'', ''legend-container'',
        ''legend-item'', ''legend-dot'', ''oversold-dot'', ''overbought-dot'', ''stats-container''}
   \<Longrightarrow> css_class_rule page_css c \<noteq> None"
  by (elim insertE emptyE) (simp_all add: css_class_rule_def page_css_def)

text \<open>
  The legend's dots and the cells they explain are styled with different
  colours: the cells' colours were changed for the dark theme, the legend's
  were not.
\<close>

lemma legend_cell_colours:
  "css_class_rule page_css ''oversold-dot'' = Some [(''background-color'', ''#dc3545'')] \<and>
   css_class_rule page_css ''oversold-cell'' =
     Some [(''background-color'', ''#B00020 !important''), (''color'', ''#FFFFFF !important''), (''font-weight'', ''bold'')] \<and>
   css_class_rule page_css ''overbought-dot'' = Some [(''background-color'', ''#28a745'')] \<and>
   css_class_rule page_css ''overbought-cell'' =
     Some [(''background-color'', ''#00796B !important''), (''color'', ''#FFFFFF !important''), (''font-weight'', ''bold'')]"
  by (simp add: css_class_rule_def page_css_def)

end
