(* ===== verification/AlphaVantage.thy ===== *)
theory AlphaVantage
  imports Rsi "HOL-Library.Multiset"
begin

text \<open>
  The Alpha Vantage provider \<open>get_data_alphavantage\<close> of \<open>src/app.py\<close>
  (lines 7--99). It reads the API key from the Streamlit secrets, requests the
  \<open>FX_INTRADAY\<close> series, checks the JSON payload for the key
  \<open>Time Series FX (interval)\<close> (reporting the API's error, information or note
  message when it is absent), builds a frame from the nested object
  (\<open>DataFrame.from_dict(orient='index')\<close>), renames and converts the four price
  columns, parses and sorts the timestamps, rejects fewer than 60 bars and keeps
  the latest 200. Every \<open>return None\<close> after a warning or error, and every
  caught exception, is a value of \<open>av_failure\<close> (\<open>Inl\<close>).

  The libraries the code only calls are parameters: \<open>secrets\<close> (\<open>st.secrets\<close>),
  \<open>http_get\<close> (\<open>requests.get\<close>, which may raise, answering a status and a
  body that is or is not JSON), and \<open>to_numeric\<close>/\<open>to_datetime\<close> of pandas
  (\<open>None\<close> where they raise). A JSON object is a list of pairs read with
  Python's dict semantics: a repeated key keeps its first position and its last
  value (\<open>py_dict\<close>).
\<close>

datatype json = JNull | JBool bool | JNum real | JStr string | JArr "json list" | JObj "(string \<times> json) list"

record 'ts pandas_lib =
  to_numeric :: "json \<Rightarrow> pyfloat option"
  to_datetime :: "string \<Rightarrow> 'ts option"

datatype http_response = HttpResponse nat "json option"

type_synonym secrets = "string \<Rightarrow> (string \<Rightarrow> string option) option"

type_synonym http_get_fn = "string \<Rightarrow> (string \<times> string) list \<Rightarrow> http_response call_result"

datatype av_failure =
    MissingApiKey
  | HttpError nat
  | RequestError
  | SeriesMessage json
  | SeriesMissing json
  | EmptySeries
  | InsufficientData nat
  | Unexpected

subsection \<open>Python values\<close>

definition py_dict :: "('k \<times> 'v) list \<Rightarrow> ('k \<times> 'v) list" where
  "py_dict kvs = foldl (\<lambda>acc (k, v). AList.update k v acc) [] kvs"

definition json_get :: "(string \<times> json) list \<Rightarrow> string \<Rightarrow> json option" where
  "json_get kvs k = map_of (py_dict kvs) k"

text \<open>\<open>dict.get(k)\<close>: \<open>None\<close> (JSON null) for an absent key.\<close>

definition dict_get :: "(string \<times> json) list \<Rightarrow> string \<Rightarrow> json" where
  "dict_get kvs k = (case json_get kvs k of None \<Rightarrow> JNull | Some v \<Rightarrow> v)"

fun py_truthy :: "json \<Rightarrow> bool" where
  "py_truthy JNull = False"
| "py_truthy (JBool b) = b"
| "py_truthy (JNum x) = (x \<noteq> 0)"
| "py_truthy (JStr s) = (s \<noteq> [])"
| "py_truthy (JArr xs) = (xs \<noteq> [])"
| "py_truthy (JObj kvs) = (kvs \<noteq> [])"

definition py_or :: "json \<Rightarrow> json \<Rightarrow> json" where
  "py_or a b = (if py_truthy a then a else b)"

fun json_fields :: "json \<Rightarrow> (string \<times> json) list option" where
  "json_fields (JObj kvs) = Some (py_dict kvs)"
| "json_fields _ = None"

subsection \<open>The request\<close>

definition av_url :: string where
  "av_url = ''https://www.alphavantage.co/query''"

definition av_params :: "string \<Rightarrow> string \<Rightarrow> string \<Rightarrow> string \<Rightarrow> string \<Rightarrow> (string \<times> string) list" where
  "av_params from_symbol to_symbol interval current_outputsize api_key =
     [(''function'', ''FX_INTRADAY''), (''from_symbol'', from_symbol), (''to_symbol'', to_symbol),
      (''interval'', interval), (''outputsize'', current_outputsize), (''apikey'', api_key),
      (''datatype'', ''json'')]"

definition av_series_key :: "string \<Rightarrow> string" where
  "av_series_key interval = ''Time Series FX ('' @ interval @ '')''"

subsection \<open>Building the frame\<close>

text \<open>The column renaming of lines 68--73.\<close>

definition av_rename :: "string \<Rightarrow> string" where
  "av_rename k =
     (if k = ''1. open'' then ''Open'' else if k = ''2. high'' then ''High''
      else if k = ''3. low'' then ''Low'' else if k = ''4. close'' then ''Close'' else k)"

text \<open>
  \<open>pd.to_numeric(df[col])\<close> after the renaming: the column must exist once
  (\<open>KeyError\<close> otherwise, and a renamed duplicate is a frame that
  \<open>to_numeric\<close> refuses); a row without the field holds NaN.
\<close>

definition column_values ::
  "'ts pandas_lib \<Rightarrow> string list \<Rightarrow> (string \<times> (string \<times> json) list) list \<Rightarrow> string \<Rightarrow> pyfloat list option" where
  "column_values lib columns rows col =
     (case filter (\<lambda>k. av_rename k = col) columns of
        [k] \<Rightarrow> those (map (\<lambda>(t, fields). case map_of fields k of
                                         None \<Rightarrow> Some None
                                       | Some v \<Rightarrow> to_numeric lib v) rows)
      | _ \<Rightarrow> None)"

definition make_bars :: "pyfloat list \<Rightarrow> pyfloat list \<Rightarrow> pyfloat list \<Rightarrow> pyfloat list \<Rightarrow> bar list" where
  "make_bars os hs ls cs =
     map2 (\<lambda>(op, hi) (lo, cl). \<lparr>bar_open = op, bar_high = hi, bar_low = lo, bar_close = cl\<rparr>)
       (zip os hs) (zip ls cs)"

text \<open>Lines 60--79: from the nested object to a frame indexed by parsed timestamps.\<close>

definition av_frame_of :: "'ts pandas_lib \<Rightarrow> json \<Rightarrow> av_failure + ('ts \<times> bar) list" where
  "av_frame_of lib time_series =
     (case time_series of
        JObj kvs \<Rightarrow>
          (let outer = py_dict kvs in
           case those (map (\<lambda>(t, v). map_option (Pair t) (json_fields v)) outer) of
             None \<Rightarrow> Inl Unexpected
           | Some rows \<Rightarrow>
               (let columns = remdups (concat (map (\<lambda>(t, fields). map fst fields) rows)) in
                if rows = [] \<or> columns = [] then Inl EmptySeries
                else
                  (case (column_values lib columns rows ''Open'', column_values lib columns rows ''High'',
                         column_values lib columns rows ''Low'', column_values lib columns rows ''Close'') of
                     (Some os, Some hs, Some ls, Some cs) \<Rightarrow>
                       (case those (map (\<lambda>(t, fields). to_datetime lib t) rows) of
                          None \<Rightarrow> Inl Unexpected
                        | Some index \<Rightarrow> Inr (zip index (make_bars os hs ls cs)))
                   | _ \<Rightarrow> Inl Unexpected)))
      | _ \<Rightarrow> Inl Unexpected)"

text \<open>
  Lines 80--87, the normaliser: sort by timestamp, reject fewer than 60 bars,
  keep the last 200 (\<open>tail(200)\<close>).
\<close>

definition av_finish :: "('ts::linorder \<times> bar) list \<Rightarrow> av_failure + ('ts \<times> bar) list" where
  "av_finish df =
     (let df = sort_key fst df; required_candles = 200 in
      if length df < 60 then Inl (InsufficientData (length df))
      else Inr (drop (length df - required_candles) df))"

text \<open>Lines 48--87: the payload, from the parsed JSON to the frame.\<close>

definition av_payload :: "'ts::linorder pandas_lib \<Rightarrow> string \<Rightarrow> json \<Rightarrow> av_failure + ('ts \<times> bar) list" where
  "av_payload lib interval data =
     (let time_series_key = av_series_key interval in
      case data of
        JObj kvs \<Rightarrow>
          (case json_get kvs time_series_key of
             None \<Rightarrow>
               (let error_message =
                      py_or (dict_get kvs ''Error Message'') (py_or (dict_get kvs ''Information'') (dict_get kvs ''Note''))
                in if py_truthy error_message then Inl (SeriesMessage error_message)
                   else Inl (SeriesMissing data))
           | Some time_series \<Rightarrow>
               (case av_frame_of lib time_series of
                  Inl e \<Rightarrow> Inl e
                | Inr df \<Rightarrow> av_finish df))
      | _ \<Rightarrow> Inl Unexpected)"

definition get_data_alphavantage ::
  "secrets \<Rightarrow> http_get_fn \<Rightarrow> 'ts::linorder pandas_lib \<Rightarrow> string \<Rightarrow> string \<Rightarrow> string \<Rightarrow> string \<Rightarrow>
   av_failure + ('ts \<times> bar) list" where
  "get_data_alphavantage secrets http_get lib from_symbol to_symbol interval outputsize =
     (case secrets ''alpha_vantage'' of
        None \<Rightarrow> Inl MissingApiKey
      | Some section \<Rightarrow>
          (case section ''API_KEY'' of
             None \<Rightarrow> Inl MissingApiKey
           | Some api_key \<Rightarrow>
               (let current_outputsize = ''full'';
                    params = av_params from_symbol to_symbol interval current_outputsize api_key
                in case http_get av_url params of
                     Raised \<Rightarrow> Inl RequestError
                   | Returned (HttpResponse status body) \<Rightarrow>
                       if 400 \<le> status \<and> status < 600 then Inl (HttpError status)
                       else
                         (case body of
                            None \<Rightarrow> Inl RequestError
                          | Some data \<Rightarrow> av_payload lib interval data))))"

text \<open>
  The shape of the series object the API documents: one entry per timestamp,
  each an object with the four price fields (not part of the program).
\<close>

definition av_series_json :: "(string \<times> json \<times> json \<times> json \<times> json) list \<Rightarrow> json" where
  "av_series_json entries =
     JObj (map (\<lambda>(t, op, hi, lo, cl).
                  (t, JObj [(''1. open'', op), (''2. high'', hi), (''3. low'', lo), (''4. close'', cl)])) entries)"

subsection \<open>A sample payload\<close>

text \<open>
  A well-formed answer of the API with \<open>n\<close> hourly bars, newest first as the
  API lists them, timestamps written as decimal numbers and read back by the
  sample \<open>to_datetime\<close>.
\<close>

definition av_sample_bar :: json where
  "av_sample_bar = JObj [(''1. open'', JNum 1), (''2. high'', JNum 1), (''3. low'', JNum 1), (''4. close'', JNum 1)]"

definition av_sample_payload :: "nat \<Rightarrow> json" where
  "av_sample_payload n = JObj [(''Meta Data'', JObj []),
     (av_series_key ''60min'', JObj (map (\<lambda>i. (nat_to_string i, av_sample_bar)) (rev [0..<n])))]"

definition av_sample_lib :: "nat pandas_lib" where
  "av_sample_lib = \<lparr>to_numeric = (\<lambda>v. case v of JNum x \<Rightarrow> Some (Some x) | _ \<Rightarrow> None),
                    to_datetime = (\<lambda>s. Some (digits_to_nat s))\<rparr>"

definition av_sample_secrets :: secrets where
  "av_sample_secrets = (\<lambda>s. if s = ''alpha_vantage'' then Some (\<lambda>k. if k = ''API_KEY'' then Some ''KEY'' else None) else None)"

subsection \<open>Library lemmas: building the frame\<close>

lemma update_fresh_append: "k \<notin> set (map fst acc) \<Longrightarrow> AList.update k v acc = acc @ [(k, v)]"
  by (induction acc) auto

lemma py_dict_distinct: "distinct (map fst kvs) \<Longrightarrow> py_dict kvs = kvs"
proof -
  have "distinct (map fst (acc @ kvs)) \<Longrightarrow> foldl (\<lambda>acc (k, v). AList.update k v acc) acc kvs = acc @ kvs" for acc
    by (induction kvs arbitrary: acc) (auto simp: update_fresh_append)
  then show "distinct (map fst kvs) \<Longrightarrow> py_dict kvs = kvs" by (simp add: py_dict_def)
qed

lemma those_map_Some: "\<forall>x \<in> set xs. f x \<noteq> None \<Longrightarrow> those (map f xs) = Some (map (\<lambda>x. the (f x)) xs)"
  by (induction xs) auto

lemma remdups_covered: "set zs \<subseteq> set ys \<Longrightarrow> distinct ys \<Longrightarrow> remdups (zs @ ys) = ys"
  by (induction zs) auto

lemma remdups_concat_const:
  assumes "xs \<noteq> []" "distinct ys"
  shows "remdups (concat (map (\<lambda>x. ys) xs)) = ys"
proof -
  obtain es e where "xs = es @ [e]" using assms(1) by (cases xs rule: rev_cases) auto
  then have "concat (map (\<lambda>x. ys) xs) = concat (map (\<lambda>x. ys) es) @ ys" by simp
  moreover have "set (concat (map (\<lambda>x. ys) es)) \<subseteq> set ys" by auto
  ultimately show ?thesis using assms(2) by (simp add: remdups_covered)
qed

lemma make_bars_map:
  "make_bars (map f1 xs) (map f2 xs) (map f3 xs) (map f4 xs) =
   map (\<lambda>x. \<lparr>bar_open = f1 x, bar_high = f2 x, bar_low = f3 x, bar_close = f4 x\<rparr>) xs"
  by (induction xs) (simp_all add: make_bars_def)

lemma av_frame_of_series_gen:
  assumes ne: "entries \<noteq> []" and dist: "distinct (map fst entries)"
    and ok: "\<forall>(t, op, hi, lo, cl) \<in> set entries. to_datetime lib t \<noteq> None \<and>
               to_numeric lib op \<noteq> None \<and> to_numeric lib hi \<noteq> None \<and>
               to_numeric lib lo \<noteq> None \<and> to_numeric lib cl \<noteq> None"
  shows "av_frame_of lib (av_series_json entries) =
           Inr (map (\<lambda>(t, op, hi, lo, cl). (the (to_datetime lib t),
                  \<lparr>bar_open = the (to_numeric lib op), bar_high = the (to_numeric lib hi),
                   bar_low = the (to_numeric lib lo), bar_close = the (to_numeric lib cl)\<rparr>)) entries)"
proof -
  define fields where "fields = (\<lambda>(op::json, hi::json, lo::json, cl::json).
      [(''1. open'', op), (''2. high'', hi), (''3. low'', lo), (''4. close'', cl)])"
  define rows where "rows = map (\<lambda>(t, v). (t, fields v)) entries"
  have outer: "py_dict (map (\<lambda>(t, v). (t, JObj (fields v))) entries) = map (\<lambda>(t, v). (t, JObj (fields v))) entries"
    using dist by (intro py_dict_distinct) (simp add: case_prod_beta comp_def)
  have jf: "py_dict (fields v) = fields v" for v
    by (cases v) (simp add: fields_def py_dict_def)
  have rws: "those (map (\<lambda>(t, v). map_option (Pair t) (json_fields v))
                (map (\<lambda>(t, v). (t, JObj (fields v))) entries)) = Some rows"
    unfolding rows_def by (induction entries) (auto simp: jf)
  have cols: "remdups (concat (map (\<lambda>(t, fs). map fst fs) rows)) = [''1. open'', ''2. high'', ''3. low'', ''4. close'']"
  proof -
    have "map (\<lambda>(t, fs). map fst fs) rows = map (\<lambda>e. [''1. open'', ''2. high'', ''3. low'', ''4. close'']) entries"
      by (simp add: rows_def fields_def case_prod_beta)
    then show ?thesis using ne by (simp add: remdups_concat_const)
  qed
  have col: "column_values lib [''1. open'', ''2. high'', ''3. low'', ''4. close''] rows c =
      Some (map (\<lambda>(t, v). the (to_numeric lib (the (map_of (fields v) k)))) entries)"
    if "filter (\<lambda>k. av_rename k = c) [''1. open'', ''2. high'', ''3. low'', ''4. close''] = [k]"
       "\<forall>(t, v) \<in> set entries. to_numeric lib (the (map_of (fields v) k)) \<noteq> None"
       "\<forall>(t, v) \<in> set entries. map_of (fields v) k \<noteq> None" for c k
  proof -
    have e: "map (\<lambda>(t, fs). case map_of fs k of None \<Rightarrow> Some None | Some v \<Rightarrow> to_numeric lib v) rows =
        map (\<lambda>(t, v). to_numeric lib (the (map_of (fields v) k))) entries"
      using that(3) unfolding rows_def by (induction entries) (auto split: option.splits)
    show ?thesis
      unfolding column_values_def that(1) using e that(2) by (simp add: those_map_Some case_prod_beta)
  qed
  have ser: "av_series_json entries = JObj (map (\<lambda>(t, v). (t, JObj (fields v))) entries)"
    by (simp add: av_series_json_def fields_def case_prod_beta)
  have rows_ne: "rows \<noteq> []" using ne by (simp add: rows_def)
  have okv: "\<forall>(t, v) \<in> set entries. to_datetime lib t \<noteq> None \<and>
      to_numeric lib (the (map_of (fields v) ''1. open'')) \<noteq> None \<and>
      to_numeric lib (the (map_of (fields v) ''2. high'')) \<noteq> None \<and>
      to_numeric lib (the (map_of (fields v) ''3. low'')) \<noteq> None \<and>
      to_numeric lib (the (map_of (fields v) ''4. close'')) \<noteq> None \<and>
      map_of (fields v) ''1. open'' \<noteq> None \<and> map_of (fields v) ''2. high'' \<noteq> None \<and>
      map_of (fields v) ''3. low'' \<noteq> None \<and> map_of (fields v) ''4. close'' \<noteq> None"
    using ok by (auto simp: fields_def)
  let ?col = "\<lambda>k. map (\<lambda>(t, v). the (to_numeric lib (the (map_of (fields v) k)))) entries"
  have co: "column_values lib [''1. open'', ''2. high'', ''3. low'', ''4. close''] rows ''Open'' = Some (?col ''1. open'')"
    by (rule col) (use okv in \<open>auto simp: av_rename_def\<close>)
  have ch: "column_values lib [''1. open'', ''2. high'', ''3. low'', ''4. close''] rows ''High'' = Some (?col ''2. high'')"
    by (rule col) (use okv in \<open>auto simp: av_rename_def\<close>)
  have cl: "column_values lib [''1. open'', ''2. high'', ''3. low'', ''4. close''] rows ''Low'' = Some (?col ''3. low'')"
    by (rule col) (use okv in \<open>auto simp: av_rename_def\<close>)
  have cc: "column_values lib [''1. open'', ''2. high'', ''3. low'', ''4. close''] rows ''Close'' = Some (?col ''4. close'')"
    by (rule col) (use okv in \<open>auto simp: av_rename_def\<close>)
  have idx: "those (map (\<lambda>(t, fs). to_datetime lib t) rows) = Some (map (\<lambda>(t, v). the (to_datetime lib t)) entries)"
    using okv unfolding rows_def by (auto simp: those_map_Some case_prod_beta)
  have res: "zip (map (\<lambda>(t, v). the (to_datetime lib t)) entries)
               (make_bars (?col ''1. open'') (?col ''2. high'') (?col ''3. low'') (?col ''4. close'')) =
      map (\<lambda>(t, op, hi, lo, cl). (the (to_datetime lib t),
                  \<lparr>bar_open = the (to_numeric lib op), bar_high = the (to_numeric lib hi),
                   bar_low = the (to_numeric lib lo), bar_close = the (to_numeric lib cl)\<rparr>)) entries"
    by (simp add: make_bars_map zip_map_map zip_same_conv_map comp_def case_prod_beta fields_def)
  show ?thesis
    unfolding av_frame_of_def ser json.case Let_def outer rws option.case cols
    using rows_ne by (simp add: co ch cl cc idx res)
qed

subsection \<open>Library lemmas: the normaliser\<close>

lemma av_finish_Inr_iff:
  "av_finish df = Inr out \<longleftrightarrow> 60 \<le> length df \<and> out = drop (length df - 200) (sort_key fst df)"
  by (auto simp: av_finish_def Let_def)

lemma av_finish_Inl_iff:
  "av_finish df = Inl e \<longleftrightarrow> length df < 60 \<and> e = InsufficientData (length df)"
  by (auto simp: av_finish_def Let_def)

lemma sorted_drop_map: "sorted (map f xs) \<Longrightarrow> sorted (map f (drop n xs))"
  by (simp add: drop_map [symmetric] sorted_wrt_drop)

lemma sorted_take_drop_le:
  assumes "sorted (map f xs)" "x \<in> set (take n xs)" "y \<in> set (drop n xs)"
  shows "f x \<le> f y"
proof -
  have "sorted (map f (take n xs) @ map f (drop n xs))"
    using assms(1) by (simp flip: map_append)
  with assms(2,3) show ?thesis by (auto simp: sorted_append)
qed

lemma sort_key_fst_rev:
  assumes "sorted_wrt (>) (map fst df)"
  shows "sort_key fst df = rev df"
proof (rule sort_key_inj_key_eq)
  show "mset df = mset (rev df)" by simp
  from assms have "distinct (map fst df)"
  proof -
    have "sorted_wrt (<) (rev (map fst df))" using assms by (simp add: sorted_wrt_rev)
    then show ?thesis by (simp add: strict_sorted_iff)
  qed
  then show "inj_on fst (set df)" by (simp add: distinct_map)
  have "sorted_wrt (\<lambda>x y. y \<le> x) (map fst df)"
    using assms by (rule sorted_wrt_mono_rel [rotated]) auto
  then show "sorted (map fst (rev df))"
    by (simp add: rev_map [symmetric] sorted_wrt_rev)
qed

lemma mset_take_drop: "mset xs = mset (take n xs) + mset (drop n xs)"
  by (simp flip: mset_append)

lemma av_finish_parts:
  assumes "av_finish df = Inr out"
  obtains older where "sort_key fst df = older @ out" "60 \<le> length df"
    "length out = min (length df) 200"
proof
  let ?s = "sort_key fst df"
  from assms have out: "out = drop (length df - 200) ?s" and len: "60 \<le> length df"
    by (simp_all add: av_finish_Inr_iff)
  show "?s = take (length df - 200) ?s @ out" by (simp add: out)
  show "60 \<le> length df" by (rule len)
  show "length out = min (length df) 200" by (simp add: out length_sort)
qed

lemma av_finish_shape:
  assumes "av_finish df = Inr out"
  shows "sorted (map fst out) \<and> 60 \<le> length out \<and> length out \<le> 200"
proof -
  obtain older where s: "sort_key fst df = older @ out" and len: "60 \<le> length df"
    and lo: "length out = min (length df) 200"
    using assms by (rule av_finish_parts)
  have "sorted (map fst older @ map fst out)" using sorted_sort_key [of fst df] by (simp add: s)
  with len lo show ?thesis by (simp add: sorted_append)
qed

lemma sort_key_id_strict:
  "sorted_wrt (<) (map fst df) \<Longrightarrow> sort_key fst df = df"
  by (rule sort_key_id_if_sorted) (simp add: strict_sorted_iff)

lemma av_sample_run:
  "get_data_alphavantage av_sample_secrets (\<lambda>u ps. Returned (HttpResponse 200 (Some (av_sample_payload 60))))
     av_sample_lib ''EUR'' ''USD'' ''60min'' ''compact'' = Inr (map (\<lambda>i. (i, const_bar 1)) [0..<60])"
  by code_simp

subsection \<open>Properties of the normaliser\<close>

text \<open>
  C27. A frame the normaliser accepts is sorted by timestamp, holds between 60
  and 200 bars, and holds only bars of its input.
\<close>

theorem av_finish_window:
  assumes "av_finish df = Inr out"
  shows "sorted (map fst out) \<and> 60 \<le> length out \<and> length out \<le> 200 \<and> mset out \<subseteq># mset df"
proof -
  obtain older where s: "sort_key fst df = older @ out"
    using assms by (rule av_finish_parts)
  have "mset df = mset older + mset out"
    using arg_cong [OF s, of mset] by simp
  then show ?thesis using av_finish_shape [OF assms] by simp
qed

theorem av_finish_window_witness:
  "av_finish (map (\<lambda>i. (i, const_bar 1)) [0..<60]) = Inr (map (\<lambda>i. (i, const_bar 1)) [0..<60]) \<and>
   sorted (map fst (map (\<lambda>i. (i::nat, const_bar 1)) [0..<60])) \<and>
   60 \<le> length (map (\<lambda>i. (i::nat, const_bar 1)) [0..<60]) \<and>
   length (map (\<lambda>i. (i::nat, const_bar 1)) [0..<60]) \<le> 200 \<and>
   mset (map (\<lambda>i. (i::nat, const_bar 1)) [0..<60]) \<subseteq># mset (map (\<lambda>i. (i, const_bar 1)) [0..<60])"
proof -
  have h: "av_finish (map (\<lambda>i. (i::nat, const_bar 1)) [0..<60]) = Inr (map (\<lambda>i. (i, const_bar 1)) [0..<60])"
    by (simp add: av_finish_Inr_iff sort_key_id_strict comp_def)
  show ?thesis using h av_finish_window [OF h] by simp
qed

text \<open>
  C28. The normaliser keeps the latest bars: every bar of the input it drops is
  no later than every bar it keeps, and it keeps \<open>min n 200\<close> of \<open>n\<close> bars.
\<close>

theorem av_finish_keeps_latest:
  assumes "av_finish df = Inr out"
  shows "length out = min (length df) 200 \<and>
         (\<forall>x \<in># mset df - mset out. \<forall>y \<in> set out. fst x \<le> fst y)"
proof -
  obtain older where s: "sort_key fst df = older @ out" and lo: "length out = min (length df) 200"
    using assms by (rule av_finish_parts)
  have srt: "sorted (map fst older @ map fst out)" using sorted_sort_key [of fst df] by (simp add: s)
  have "mset df - mset out = mset older"
    using arg_cong [OF s, of mset] by simp
  then show ?thesis using srt lo by (auto simp: sorted_append)
qed

theorem av_finish_keeps_latest_witness:
  "av_finish (map (\<lambda>i. (i::nat, const_bar 1)) [0..<250]) = Inr (map (\<lambda>i. (i, const_bar 1)) [50..<250]) \<and>
   length (map (\<lambda>i. (i::nat, const_bar 1)) [50..<250]) = min (length (map (\<lambda>i. (i::nat, const_bar 1)) [0..<250])) 200"
proof -
  have h: "av_finish (map (\<lambda>i. (i::nat, const_bar 1)) [0..<250]) = Inr (map (\<lambda>i. (i, const_bar 1)) [50..<250])"
    by (simp add: av_finish_Inr_iff sort_key_id_strict comp_def drop_map)
  show ?thesis using av_finish_keeps_latest [OF h] by (simp add: h)
qed

text \<open>
  C29. Alpha Vantage lists its bars newest first. On such an input (strictly
  decreasing timestamps) the normaliser refuses fewer than 60 bars, so a
  newest-first series of 5 bars is refused rather than reversed, and otherwise
  returns the 200 newest bars in chronological order: the input's first 200,
  reversed.
\<close>

theorem av_finish_newest_first:
  assumes "sorted_wrt (>) (map fst df)"
  shows "av_finish df =
           (if length df < 60 then Inl (InsufficientData (length df)) else Inr (rev (take 200 df)))"
proof (cases "length df < 60")
  case True
  then show ?thesis by (simp add: av_finish_def)
next
  case False
  then show ?thesis using assms by (simp add: av_finish_Inr_iff sort_key_fst_rev rev_take)
qed

theorem av_finish_newest_first_witness:
  "sorted_wrt (>) (map fst (map (\<lambda>i. (i::nat, const_bar 1)) (rev [0..<60]))) \<and>
   av_finish (map (\<lambda>i. (i::nat, const_bar 1)) (rev [0..<60])) = Inr (map (\<lambda>i. (i, const_bar 1)) [0..<60]) \<and>
   sorted_wrt (>) (map fst (map (\<lambda>i. (i::nat, const_bar 1)) (rev [0..<5]))) \<and>
   av_finish (map (\<lambda>i. (i::nat, const_bar 1)) (rev [0..<5])) = Inl (InsufficientData 5)"
proof -
  have h1: "sorted_wrt (>) (map fst (map (\<lambda>i. (i::nat, const_bar 1)) (rev [0..<60])))"
    by (simp add: comp_def rev_map [symmetric] sorted_wrt_rev)
  have h2: "sorted_wrt (>) (map fst (map (\<lambda>i. (i::nat, const_bar 1)) (rev [0..<5])))"
    by (simp add: comp_def rev_map [symmetric] sorted_wrt_rev)
  show ?thesis
    using h1 h2 av_finish_newest_first [OF h1] av_finish_newest_first [OF h2] by (simp add: rev_map)
qed

subsection \<open>Properties of the frame construction\<close>

text \<open>
  C30. For a series object of the documented shape (distinct timestamps, each
  entry an object with the four fields \<open>1. open\<close> ... \<open>4. close\<close>) whose
  timestamps and prices pandas parses, the frame holds one bar per entry, in
  the object's order, indexed by the parsed timestamp, with the parsed prices
  in the renamed Open, High, Low and Close columns.
\<close>

theorem av_frame_of_series:
  assumes "entries \<noteq> []" "distinct (map fst entries)"
    and "\<forall>(t, op, hi, lo, cl) \<in> set entries. to_datetime lib t \<noteq> None \<and>
           to_numeric lib op \<noteq> None \<and> to_numeric lib hi \<noteq> None \<and>
           to_numeric lib lo \<noteq> None \<and> to_numeric lib cl \<noteq> None"
  shows "av_frame_of lib (av_series_json entries) =
           Inr (map (\<lambda>(t, op, hi, lo, cl). (the (to_datetime lib t),
                  \<lparr>bar_open = the (to_numeric lib op), bar_high = the (to_numeric lib hi),
                   bar_low = the (to_numeric lib lo), bar_close = the (to_numeric lib cl)\<rparr>)) entries)"
  using assms by (rule av_frame_of_series_gen)

theorem av_frame_of_series_witness:
  "av_frame_of av_sample_lib
     (av_series_json [(''1'', JNum 2, JNum 3, JNum 1, JNum 2), (''0'', JNum 1, JNum 2, JNum 0, JNum 2)]) =
   Inr [(1, \<lparr>bar_open = Some 2, bar_high = Some 3, bar_low = Some 1, bar_close = Some 2\<rparr>),
        (0, \<lparr>bar_open = Some 1, bar_high = Some 2, bar_low = Some 0, bar_close = Some 2\<rparr>)]"
proof -
  let ?e = "[(''1'', JNum 2, JNum 3, JNum 1, JNum 2), (''0'', JNum 1, JNum 2, JNum 0, JNum 2)]"
  have h1: "?e \<noteq> []" by simp
  have h2: "distinct (map fst ?e)" by simp
  have h3: "\<forall>(t, op, hi, lo, cl) \<in> set ?e. to_datetime av_sample_lib t \<noteq> None \<and>
           to_numeric av_sample_lib op \<noteq> None \<and> to_numeric av_sample_lib hi \<noteq> None \<and>
           to_numeric av_sample_lib lo \<noteq> None \<and> to_numeric av_sample_lib cl \<noteq> None"
    by (simp add: av_sample_lib_def)
  show ?thesis
    using av_frame_of_series [OF h1 h2 h3] by (simp add: av_sample_lib_def digits_to_nat_def)
qed

subsection \<open>Properties of the request\<close>

lemma get_data_alphavantage_keyed:
  assumes "secrets ''alpha_vantage'' = Some sec" "sec ''API_KEY'' = Some api_key"
  shows "get_data_alphavantage secrets http_get lib from_symbol to_symbol interval outputsize =
     (case http_get av_url (av_params from_symbol to_symbol interval ''full'' api_key) of
        Raised \<Rightarrow> Inl RequestError
      | Returned (HttpResponse status body) \<Rightarrow>
          if 400 \<le> status \<and> status < 600 then Inl (HttpError status)
          else (case body of None \<Rightarrow> Inl RequestError | Some data \<Rightarrow> av_payload lib interval data))"
  using assms by (simp add: get_data_alphavantage_def)

lemma get_data_alphavantage_InrD:
  assumes "get_data_alphavantage secrets http_get lib from_symbol to_symbol interval outputsize = Inr out"
  obtains sec api_key status data ts df where
    "secrets ''alpha_vantage'' = Some sec" "sec ''API_KEY'' = Some api_key"
    "http_get av_url (av_params from_symbol to_symbol interval ''full'' api_key)
       = Returned (HttpResponse status (Some data))"
    "\<not> (400 \<le> status \<and> status < 600)"
    "\<exists>kvs. data = JObj kvs \<and> json_get kvs (av_series_key interval) = Some ts"
    "av_frame_of lib ts = Inr df" "av_finish df = Inr out"
  using assms
  by (auto simp: get_data_alphavantage_def av_payload_def Let_def
           split: option.splits call_result.splits http_response.splits if_splits json.splits sum.splits)

text \<open>
  C31. Without an \<open>alpha_vantage\<close> sec in the secrets, or without its
  \<open>API_KEY\<close>, the provider fails with the missing-key error and never
  depends on the network.
\<close>

theorem get_data_alphavantage_missing_key:
  assumes "secrets ''alpha_vantage'' = None \<or>
           (\<exists>sec. secrets ''alpha_vantage'' = Some sec \<and> sec ''API_KEY'' = None)"
  shows "get_data_alphavantage secrets http_get lib from_symbol to_symbol interval outputsize = Inl MissingApiKey"
  using assms by (auto simp: get_data_alphavantage_def)

theorem get_data_alphavantage_missing_key_witness:
  "((\<lambda>s::string. None) ''alpha_vantage'' = (None :: (string \<Rightarrow> string option) option) \<or>
    (\<exists>sec. (\<lambda>s::string. None) ''alpha_vantage'' = Some sec \<and> sec ''API_KEY'' = (None :: string option))) \<and>
   get_data_alphavantage (\<lambda>s. None) (\<lambda>u ps. Raised) \<lparr>to_numeric = \<lambda>v. None, to_datetime = \<lambda>s. Some (0::nat)\<rparr>
     ''EUR'' ''USD'' ''60min'' ''compact'' = Inl MissingApiKey"
proof -
  have h: "(\<lambda>s::string. None) ''alpha_vantage'' = (None :: (string \<Rightarrow> string option) option) \<or>
    (\<exists>sec. (\<lambda>s::string. None) ''alpha_vantage'' = Some sec \<and> sec ''API_KEY'' = (None :: string option))"
    by simp
  show ?thesis using h get_data_alphavantage_missing_key [OF h] by simp
qed

text \<open>
  C32. An HTTP status from 400 to 599 (\<open>raise_for_status\<close>) makes the provider
  fail with that status, whatever the body.
\<close>

theorem get_data_alphavantage_http_error:
  assumes "secrets ''alpha_vantage'' = Some sec" "sec ''API_KEY'' = Some api_key"
    and "http_get av_url (av_params from_symbol to_symbol interval ''full'' api_key) = Returned (HttpResponse status body)"
    and "400 \<le> status" "status < 600"
  shows "get_data_alphavantage secrets http_get lib from_symbol to_symbol interval outputsize = Inl (HttpError status)"
  using assms by (simp add: get_data_alphavantage_keyed)

theorem get_data_alphavantage_http_error_witness:
  "get_data_alphavantage (\<lambda>s. Some (\<lambda>k. Some ''KEY'')) (\<lambda>u ps. Returned (HttpResponse 429 None))
     \<lparr>to_numeric = \<lambda>v. None, to_datetime = \<lambda>s. Some (0::nat)\<rparr> ''EUR'' ''USD'' ''60min'' ''compact''
   = Inl (HttpError 429)"
  by (rule get_data_alphavantage_http_error [where sec = "\<lambda>k. Some ''KEY''" and api_key = "''KEY''" and body = None])
     simp_all

text \<open>
  C33. A payload without the series key reports the first truthy message among
  \<open>Error Message\<close>, \<open>Information\<close> and \<open>Note\<close>, in that order, and
  otherwise the whole payload.
\<close>

theorem av_payload_message:
  assumes "json_get kvs (av_series_key interval) = None"
  shows "av_payload lib interval (JObj kvs) =
     (if py_truthy (dict_get kvs ''Error Message'') then Inl (SeriesMessage (dict_get kvs ''Error Message''))
      else if py_truthy (dict_get kvs ''Information'') then Inl (SeriesMessage (dict_get kvs ''Information''))
      else if py_truthy (dict_get kvs ''Note'') then Inl (SeriesMessage (dict_get kvs ''Note''))
      else Inl (SeriesMissing (JObj kvs)))"
  using assms by (simp add: av_payload_def py_or_def)

theorem av_payload_message_witness:
  "json_get [(''Note'', JStr ''limit''), (''Information'', JStr ''premium'')] (av_series_key ''60min'') = None \<and>
   av_payload \<lparr>to_numeric = \<lambda>v. None, to_datetime = \<lambda>s. Some (0::nat)\<rparr> ''60min''
     (JObj [(''Note'', JStr ''limit''), (''Information'', JStr ''premium'')])
   = Inl (SeriesMessage (JStr ''premium''))"
proof -
  have h: "json_get [(''Note'', JStr ''limit''), (''Information'', JStr ''premium'')] (av_series_key ''60min'') = None"
    by (simp add: json_get_def py_dict_def av_series_key_def)
  show ?thesis
    using h av_payload_message [OF h, of "\<lparr>to_numeric = \<lambda>v. None, to_datetime = \<lambda>s. Some (0::nat)\<rparr>"]
    by (simp add: dict_get_def json_get_def py_dict_def)
qed

text \<open>
  The \<open>outputsize\<close> argument has no effect: the provider always requests
  \<open>outputsize=full\<close>.
\<close>

lemma get_data_alphavantage_outputsize_ignored:
  "get_data_alphavantage secrets http_get lib from_symbol to_symbol interval outputsize =
   get_data_alphavantage secrets http_get lib from_symbol to_symbol interval ''compact''"
  by (simp add: get_data_alphavantage_def)

text \<open>
  C35. A frame the provider returns comes from one request carrying the key of
  the secrets and \<open>outputsize=full\<close>, answered with a status outside 400--599
  and a JSON body holding the series; it is sorted by timestamp and holds
  between 60 and 200 bars.
\<close>

theorem get_data_alphavantage_success:
  assumes "get_data_alphavantage secrets http_get lib from_symbol to_symbol interval outputsize = Inr out"
  shows "(\<exists>sec api_key status data ts df.
            secrets ''alpha_vantage'' = Some sec \<and> sec ''API_KEY'' = Some api_key \<and>
            http_get av_url (av_params from_symbol to_symbol interval ''full'' api_key)
              = Returned (HttpResponse status (Some data)) \<and>
            \<not> (400 \<le> status \<and> status < 600) \<and>
            (\<exists>kvs. data = JObj kvs \<and> json_get kvs (av_series_key interval) = Some ts) \<and>
            av_frame_of lib ts = Inr df \<and> av_finish df = Inr out) \<and>
         sorted (map fst out) \<and> 60 \<le> length out \<and> length out \<le> 200"
proof -
  from assms obtain sec api_key status data ts df where
    req: "secrets ''alpha_vantage'' = Some sec" "sec ''API_KEY'' = Some api_key"
    "http_get av_url (av_params from_symbol to_symbol interval ''full'' api_key)
       = Returned (HttpResponse status (Some data))"
    "\<not> (400 \<le> status \<and> status < 600)"
    "\<exists>kvs. data = JObj kvs \<and> json_get kvs (av_series_key interval) = Some ts"
    "av_frame_of lib ts = Inr df" and fin: "av_finish df = Inr out"
    by (rule get_data_alphavantage_InrD)
  then show ?thesis using av_finish_shape [OF fin] by blast
qed

theorem get_data_alphavantage_success_witness:
  "get_data_alphavantage av_sample_secrets (\<lambda>u ps. Returned (HttpResponse 200 (Some (av_sample_payload 60))))
     av_sample_lib ''EUR'' ''USD'' ''60min'' ''compact'' = Inr (map (\<lambda>i. (i, const_bar 1)) [0..<60]) \<and>
   sorted (map fst (map (\<lambda>i. (i::nat, const_bar 1)) [0..<60])) \<and>
   60 \<le> length (map (\<lambda>i. (i::nat, const_bar 1)) [0..<60]) \<and>
   length (map (\<lambda>i. (i::nat, const_bar 1)) [0..<60]) \<le> 200"
proof -
  have h: "get_data_alphavantage av_sample_secrets (\<lambda>u ps. Returned (HttpResponse 200 (Some (av_sample_payload 60))))
     av_sample_lib ''EUR'' ''USD'' ''60min'' ''compact'' = Inr (map (\<lambda>i. (i, const_bar 1)) [0..<60])"
    by (rule av_sample_run)
  show ?thesis using h get_data_alphavantage_success [OF h] by blast
qed

end
