(* ===== verification/Spec2Isabelle.thy ===== *)
theory Spec2Isabelle
  imports Yahoo Page AlphaVantage
begin

text \<open>
  \<^bold>\<open>Verification development of the RSI Forex screener\<close>
  (repository \<open>rsi-blue3\<close>: \<open>src/apprsi.py\<close>, the Streamlit application,
  and \<open>src/app.py\<close>, an Alpha Vantage provider it does not call).

  \<^bold>\<open>The program.\<close> \<open>apprsi.py\<close> scans ten Forex pairs on four timeframes.
  For each pair, in order, and each timeframe, in order, it fetches a price
  frame from Yahoo Finance (\<open>fetch_forex_data\<close>), computes an RSI over the
  OHLC4 price with span-smoothed averages (\<open>calculate_rsi\<close>, period 10),
  stores it in the pair's row, and advances a progress bar. It then renders the
  grid as an HTML table coloured by \<open>get_rsi_class\<close> and formatted by
  \<open>format_rsi\<close>, and shows per-timeframe signal counts. Components interact
  by plain calls; the only state is the results list and the two widgets.

  \<^bold>\<open>The theories.\<close>
  \<^item> \<open>Prelude\<close>: \<open>pyfloat = real option\<close> (NaN is \<open>None\<close>) and the
    NaN-propagating operations pandas applies; \<open>call_result\<close> for library
    calls that may raise; decimal rendering \<open>nat_to_string\<close> and its inverse.
  \<^item> \<open>Rsi\<close>: the engine, \<open>calculate_rsi\<close> (apprsi.py 98--115), with
    \<open>ohlc4\<close>, \<open>series_diff\<close>, \<open>where_gain\<close>/\<open>where_loss\<close>
    (\<open>Series.where\<close>), \<open>ewm_adjust_false\<close>, \<open>min_periods_mask\<close> and
    \<open>ewm_mean\<close> (\<open>Series.ewm(span, adjust=False, min_periods)\<close>, which
    raises for a span below 1), \<open>rsi_from_averages\<close> (lines 111--114). Lemmas:
    lengths of every series; the characterisation \<open>calculate_rsi_Some_eq\<close>
    (all guards resolved); the convex-combination and closed-form facts on the
    exponentially weighted mean; the range of \<open>rsi_from_averages\<close>. Claims
    C1--C11: range, exactly when a value is returned, the value computed,
    increasing/decreasing/flat/NaN inputs, the zero seed, the closed form and
    bounds of the smoothing, and the ratio form of the RSI; C14: the RSI is
    monotone in the last bar's typical price (the last difference enters the
    smoothed gain increasingly and the smoothed loss decreasingly).
  \<^item> \<open>Yahoo\<close>: \<open>get_yahoo_symbol\<close> and \<open>fetch_forex_data\<close>
    (apprsi.py 117--130); yfinance's \<open>Ticker.history\<close> is the parameter
    \<open>history\<close>. Claims C12--C13; the shape of the ticker is a lemma.
  \<^item> \<open>Classify\<close>: \<open>get_rsi_class\<close> (134--138) and \<open>format_rsi\<close> (132),
    the \<open>.2f\<close> format as half-to-even rounding of the exact value, and a
    reader \<open>parse_fixed2\<close> for the roundtrip. Claims C15, C17, C18.
  \<^item> \<open>Scan\<close>: the loop of lines 148--167 as state passing: \<open>fill_row\<close>
    (inner loop), \<open>scan_row\<close>, \<open>scan_pair\<close> (one iteration), \<open>run_scan\<close>
    (the loop over \<open>enumerate(pairs)\<close> and the clearing of the widgets), with
    the provider as a parameter \<open>fetch\<close>; a row is an insertion-ordered dict
    (\<open>AList.update\<close>), the widgets are observed as a list of \<open>ui_event\<close>s.
    The types of the row values (\<open>row_typed\<close>: distinct keys, a string under
    \<open>Devises\<close>, floats elsewhere) are an invariant of the loop. Claims C16
    (that invariant) and C19--C22: shape and order of the grid, isolation of
    each cell, progress values, and the spec's 3 x 2 scenario with one failing
    fetch.
  \<^item> \<open>Stats\<close>: the statistics of lines 193--207, including the
    \<open>TypeError\<close> a string value would raise, and the label, value and delta
    texts of \<open>st.metric\<close> (\<open>metric_texts\<close>). \<open>tf_values\<close> and
    \<open>stats_spec\<close> are the abstract specification: the multiset of a column's
    defined values and the counts it promises. Claims C23--C24, and C39: the
    statistics refine that specification.
  \<^item> \<open>Render\<close>: the HTML table of lines 172--190 (\<open>render_table\<close>,
    \<open>render_rows\<close>, \<open>render_row\<close>, \<open>render_cells\<close>, \<open>render_cell\<close>,
    \<open>devises_text\<close> with \<open>str.strip\<close> and the two placeholders), built by
    appending to the string as the code does. \<open>td_cells\<close>, a reader defined by
    \<open>function\<close> with a termination proof on the length of the string, recovers
    each cell's class and text. Claims C37--C38: the round trip from rows to
    cells, and the exception a string value raises.
  \<^item> \<open>Page\<close>: the rest of the page: \<open>st.set_page_config\<close>, the style
    sheet of lines 18--96 as the list of its rules (\<open>page_css\<close>), the title,
    update line, legend, section titles, statistics container, footer, success
    message and user guide. \<open>html_classes\<close>, a reader defined by \<open>function\<close> with a
    termination proof, lists the class names of an HTML string; the lemmas
    compute them for every fragment and for the table.
  \<^item> \<open>AlphaVantage\<close>: \<open>get_data_alphavantage\<close> of \<open>src/app.py\<close> (lines
    7--99), with JSON values (\<open>json\<close>, read with Python's dict semantics),
    the secrets, \<open>requests.get\<close> and the pandas parsers as parameters, and
    every \<open>return None\<close> and caught exception as a value of \<open>av_failure\<close>;
    the normaliser \<open>av_finish\<close> (sort by timestamp, at least 60 bars, the
    last 200). Claims C27--C33 and C35: sortedness and size of the window, the latest
    bars kept, newest-first input reversed above the 60-bar threshold, the
    frame built from a series object of the documented shape, the missing key, HTTP errors, the API's message keys in order, the ignored
    and what a successful call implies (the ignored \<open>outputsize\<close>
    argument is a lemma).
  \<^item> \<open>Spec2Isabelle\<close> (this theory): \<open>app_scan\<close>, the scan with the
    configured pairs, timeframes and the Yahoo provider, and the claims that
    span components. C25--C26: a cell is NaN exactly when its fetch failed,
    and every value in the grid is in \<open>[0, 100]\<close>. C34: every class the
    page's HTML uses has a rule in its style sheet. C36: every frame the Alpha
    Vantage provider returns gives a defined RSI. C40: the page's table is
    produced for every answer of Yahoo Finance, and its cells are the pairs and
    the classes and texts of their RSI values.

  \<^bold>\<open>Modelling choices.\<close> Python floats are exact reals plus NaN: IEEE
  rounding is not modelled, so the theorems are about the mathematical values
  the code approximates. Python ints are \<open>int\<close>/\<open>nat\<close>; nothing overflows.
  Every \<open>return None\<close>, \<open>return np.nan\<close> and caught exception is a value
  (\<open>None\<close>, \<open>Raised\<close>, \<open>Inl\<close>). All loops of the program run over finite
  lists and are structural recursions or folds, so no fuel is needed; the only
  \<open>function\<close>s with a termination measure are the readers \<open>td_cells\<close>
  and \<open>html_classes\<close>, which are not part of the program. External
  libraries the code only calls (yfinance, requests, Streamlit) are parameters
  or observed events; the pandas operations are modelled from their documented
  semantics for the inputs the code gives them. pandas' \<open>sort_index\<close> uses an
  unstable sort; the model sorts stably, and the claims about the normaliser
  either hold for every order of equal timestamps or assume distinct ones.
  Strings are lists of 8-bit characters: Latin-1 code points in the table, and
  the UTF-8 bytes of the emoji and of the signs in the page's texts.

  \<^bold>\<open>Not modelled.\<close> The imports and the warning filter (apprsi.py 1--7),
  which have no observable behaviour, and the
  time \<open>datetime.now().strftime(...)\<close> (a parameter of the update line). The
  Streamlit calls that display the fragments, the table and the metrics are
  output only: the model produces the strings they display. The commented-out
  scan loop of \<open>src/app.py\<close> (lines 101--108) is not code.
\<close>

text \<open>
  The application: the scan of \<open>src/apprsi.py\<close> (lines 148--167) run with the
  configured pairs and timeframes and the Yahoo provider.
\<close>

definition app_scan :: "history_fn \<Rightarrow> scan_state" where
  "app_scan history =
     run_scan (fetch_forex_data history) forex_pairs timeframes_fetch_keys timeframes_display"

definition flat_history :: history_fn where
  "flat_history ticker period interval = Returned (Some (replicate 15 (const_bar 1)))"

lemma app_scan_results:
  "results (app_scan history) =
     map (\<lambda>p. (''Devises'', DevisesCell p) #
       map (\<lambda>(k, d). (d, RsiCell (calculate_rsi (fetch_forex_data history p k) 10)))
         (zip timeframes_fetch_keys timeframes_display)) forex_pairs"
  by (simp add: app_scan_def run_scan_results scan_row_eq timeframes_display_def timeframes_fetch_keys_def)

lemma rsi_of_fetch:
  "calculate_rsi (fetch_forex_data history p k) 10 = None \<longleftrightarrow> fetch_forex_data history p k = None"
proof (cases "fetch_forex_data history p k")
  case None
  then show ?thesis by simp
next
  case (Some d)
  then have "15 \<le> length d" by (rule fetch_forex_data_length)
  with Some show ?thesis by (simp add: calculate_rsi_Some_eq)
qed

text \<open>
  C25. In the application's grid, the cell of the \<open>i\<close>-th configured pair at
  the \<open>j\<close>-th timeframe is the RSI of what the Yahoo provider returned for that
  pair and timeframe; it is NaN exactly when that fetch failed, since every
  frame the provider accepts (15 bars or more) is long enough for the period
  of 10.
\<close>

theorem app_scan_cell:
  assumes "i < length forex_pairs" "j < length timeframes_display"
  shows "rsi_at (results (app_scan history) ! i) (timeframes_display ! j) =
           calculate_rsi (fetch_forex_data history (forex_pairs ! i) (timeframes_fetch_keys ! j)) 10 \<and>
         (rsi_at (results (app_scan history) ! i) (timeframes_display ! j) = None \<longleftrightarrow>
           fetch_forex_data history (forex_pairs ! i) (timeframes_fetch_keys ! j) = None)"
proof -
  have wf: "distinct timeframes_display" "''Devises'' \<notin> set timeframes_display"
    "length timeframes_fetch_keys = length timeframes_display"
    by (simp_all add: timeframes_display_def timeframes_fetch_keys_def)
  have cell: "rsi_at (results (app_scan history) ! i) (timeframes_display ! j) =
      calculate_rsi (fetch_forex_data history (forex_pairs ! i) (timeframes_fetch_keys ! j)) 10"
    using run_scan_cell [OF wf assms, of "fetch_forex_data history"]
    by (simp add: app_scan_def rsi_at_def row_cell_def)
  then show ?thesis by (simp add: rsi_of_fetch)
qed

theorem app_scan_cell_witness:
  "rsi_at (results (app_scan flat_history) ! 0) (timeframes_display ! 0) = Some 50"
proof -
  have h: "0 < length forex_pairs" "0 < length timeframes_display"
    by (simp_all add: forex_pairs_def timeframes_display_def)
  have f: "fetch_forex_data flat_history (forex_pairs ! 0) (timeframes_fetch_keys ! 0)
      = Some (replicate 15 (const_bar 1))"
    by (simp add: fetch_forex_data_def flat_history_def forex_pairs_def timeframes_fetch_keys_def yf_params_def)
  have "calculate_rsi (Some (replicate 15 (const_bar 1))) 10 = Some 50"
    by (rule calculate_rsi_const_frame) simp_all
  with app_scan_cell [OF h, of flat_history] f show ?thesis by simp
qed

text \<open>
  C26. Every RSI the application's grid holds, whatever the data source
  answered, lies in \<open>[0, 100]\<close>: nothing else reaches the renderer.
\<close>

theorem app_scan_range:
  assumes "r \<in> set (results (app_scan history))" "rsi_at r tf = Some x"
  shows "0 \<le> x \<and> x \<le> 100"
proof -
  from assms(2) have "map_of r tf = Some (RsiCell (Some x))"
    by (auto simp: rsi_at_def split: option.splits cell.splits)
  with assms(1) obtain p k where "Some x = calculate_rsi (fetch_forex_data history p k) 10"
    unfolding app_scan_def by (blast dest: run_scan_values)
  then show ?thesis by (metis calculate_rsi_bounded)
qed

theorem app_scan_range_witness:
  "results (app_scan flat_history) ! 0 \<in> set (results (app_scan flat_history)) \<and>
   rsi_at (results (app_scan flat_history) ! 0) ''H1'' = Some 50 \<and> 0 \<le> (50::real) \<and> (50::real) \<le> 100"
proof -
  have ne: "0 < length (results (app_scan flat_history))"
    by (simp add: app_scan_def run_scan_results forex_pairs_def)
  have h1: "results (app_scan flat_history) ! 0 \<in> set (results (app_scan flat_history))"
    using ne by (rule nth_mem)
  have f: "fetch_forex_data flat_history ''EUR/USD'' ''H1'' = Some (replicate 15 (const_bar 1))"
    by (simp add: fetch_forex_data_def flat_history_def yf_params_def)
  have c: "calculate_rsi (Some (replicate 15 (const_bar 1))) 10 = Some 50"
    by (rule calculate_rsi_const_frame) simp_all
  have h2: "rsi_at (results (app_scan flat_history) ! 0) ''H1'' = Some 50"
    using f c by (simp add: app_scan_results rsi_at_def forex_pairs_def timeframes_fetch_keys_def
        timeframes_display_def)
  show ?thesis using h1 h2 app_scan_range [OF h1 h2] by simp
qed

text \<open>
  C36. Every frame the Alpha Vantage provider returns is long enough for the
  engine: its RSI at the application's period of 10 is defined and lies in
  \<open>[0, 100]\<close>.
\<close>

theorem alphavantage_rsi_defined:
  assumes "get_data_alphavantage secrets http_get lib from_symbol to_symbol interval outputsize = Inr out"
  shows "\<exists>x. calculate_rsi (Some (map snd out)) 10 = Some x \<and> 0 \<le> x \<and> x \<le> 100"
proof -
  obtain df where "av_finish df = Inr out"
    using assms by (rule get_data_alphavantage_InrD)
  then have "60 \<le> length out" by (simp add: av_finish_shape)
  then obtain x where x: "calculate_rsi (Some (map snd out)) 10 = Some x"
    by (simp add: calculate_rsi_Some_eq)
  then show ?thesis using calculate_rsi_bounded [OF x] by blast
qed

theorem alphavantage_rsi_defined_witness:
  "get_data_alphavantage av_sample_secrets (\<lambda>u ps. Returned (HttpResponse 200 (Some (av_sample_payload 60))))
     av_sample_lib ''EUR'' ''USD'' ''60min'' ''compact'' = Inr (map (\<lambda>i. (i, const_bar 1)) [0..<60]) \<and>
   calculate_rsi (Some (map snd (map (\<lambda>i. (i::nat, const_bar 1)) [0..<60]))) 10 = Some 50"
proof -
  have h: "get_data_alphavantage av_sample_secrets (\<lambda>u ps. Returned (HttpResponse 200 (Some (av_sample_payload 60))))
     av_sample_lib ''EUR'' ''USD'' ''60min'' ''compact'' = Inr (map (\<lambda>i. (i, const_bar 1)) [0..<60])"
    by (rule av_sample_run)
  have c: "calculate_rsi (Some (replicate 60 (const_bar 1))) 10 = Some 50"
    by (rule calculate_rsi_const_frame) simp_all
  have m: "map snd (map (\<lambda>i. (i::nat, const_bar 1)) [0..<60]) = replicate 60 (const_bar 1)"
    by (simp add: comp_def map_replicate_const)
  from alphavantage_rsi_defined [OF h] show ?thesis using h c m by simp
qed

lemma forex_pairs_text:
  "\<forall>p \<in> set forex_pairs. py_strip p = p \<and> p \<noteq> [] \<and> CHR ''<'' \<notin> set p \<and> CHR ''c'' \<notin> set p"
  by (simp add: forex_pairs_def) code_simp

lemma app_scan_rsi_only:
  "\<forall>r \<in> set (results (app_scan history)). \<forall>tf \<in> set timeframes_display. rsi_only r tf"
proof (intro ballI)
  fix r tf
  assume "r \<in> set (results (app_scan history))" "tf \<in> set timeframes_display"
  moreover from this(2) have "tf \<noteq> ''Devises''" by (auto simp: timeframes_display_def)
  ultimately show "rsi_only r tf" unfolding app_scan_def using scan_rows_rsi_only by blast
qed

lemma app_row_cells:
  assumes "p \<in> set forex_pairs"
  shows "row_cells float_str timeframes_display i
           ((''Devises'', DevisesCell p) #
            map (\<lambda>(k, d). (d, RsiCell (calculate_rsi (fetch_forex_data history p k) 10)))
              (zip timeframes_fetch_keys timeframes_display)) =
         (''devises-cell'', p) #
         map (\<lambda>(k, d). (get_rsi_class (calculate_rsi (fetch_forex_data history p k) 10),
                        format_rsi (calculate_rsi (fetch_forex_data history p k) 10)))
           (zip timeframes_fetch_keys timeframes_display)"
proof -
  have "py_strip p = p" "p \<noteq> []" using assms forex_pairs_text by auto
  then show ?thesis
    by (simp add: row_cells_def devises_text_def rsi_at_def timeframes_display_def timeframes_fetch_keys_def)
qed

text \<open>
  C40. The page the application shows: whatever Yahoo Finance answers, the
  table is produced (nothing raises), and its cells, read back in order, are
  for each configured pair its name and then, per timeframe, the class and the
  text of the RSI computed from that pair's fetch at that timeframe.
\<close>

theorem app_page_cells:
  "\<exists>html. render_table float_str timeframes_display (results (app_scan history)) = Returned html \<and>
     td_cells html =
       concat (map (\<lambda>p. (''devises-cell'', p) #
         map (\<lambda>(k, d). (get_rsi_class (calculate_rsi (fetch_forex_data history p k) 10),
                        format_rsi (calculate_rsi (fetch_forex_data history p k) 10)))
           (zip timeframes_fetch_keys timeframes_display)) forex_pairs)"
proof -
  let ?R = "\<lambda>p. (''Devises'', DevisesCell p) #
            map (\<lambda>(k, d). (d, RsiCell (calculate_rsi (fetch_forex_data history p k) 10)))
              (zip timeframes_fetch_keys timeframes_display)"
  have rows: "results (app_scan history) = map ?R forex_pairs"
    by (simp add: app_scan_results)
  have lt: "\<forall>tf \<in> set timeframes_display. CHR ''<'' \<notin> set tf"
    by (simp add: timeframes_display_def)
  have dv: "devises_text float_str i (?R p) = p" if "p \<in> set forex_pairs" for i p
    using that forex_pairs_text by (simp add: devises_text_def)
  have dv': "\<forall>(i, r) \<in> set (enumerate 0 (results (app_scan history))). CHR ''<'' \<notin> set (devises_text float_str i r)"
    unfolding rows by (auto simp: enumerate_eq_zip dv forex_pairs_text dest!: set_zip_rightD)
  from render_table_cells_gen [OF app_scan_rsi_only lt dv'] obtain html where
    "render_table float_str timeframes_display (results (app_scan history)) = Returned html"
    "td_cells html = concat (map (\<lambda>(i, r). row_cells float_str timeframes_display i r)
                                (enumerate 0 (results (app_scan history))))"
    by blast
  moreover have "map (\<lambda>(i, r). row_cells float_str timeframes_display i r) (enumerate 0 (map ?R forex_pairs)) =
      map (\<lambda>p. (''devises-cell'', p) #
         map (\<lambda>(k, d). (get_rsi_class (calculate_rsi (fetch_forex_data history p k) 10),
                        format_rsi (calculate_rsi (fetch_forex_data history p k) 10)))
           (zip timeframes_fetch_keys timeframes_display)) forex_pairs"
    by (rule map_enumerate_map) (rule app_row_cells)
  ultimately show ?thesis unfolding rows by auto
qed

lemma app_devises_text:
  "\<forall>(i, r) \<in> set (enumerate 0 (results (app_scan history))). devises_text float_str i r \<in> set forex_pairs"
proof -
  have "devises_text float_str i r \<in> set forex_pairs" if "(i, r) \<in> set (enumerate 0 (results (app_scan history)))" for i r
  proof -
    from that have "r \<in> set (results (app_scan history))" by (rule enumerate_snd_mem)
    then obtain p where p: "p \<in> set forex_pairs"
      and r: "r = (''Devises'', DevisesCell p) #
                  map (\<lambda>(k, d). (d, RsiCell (calculate_rsi (fetch_forex_data history p k) 10)))
                    (zip timeframes_fetch_keys timeframes_display)"
      by (auto simp: app_scan_results)
    then show ?thesis using forex_pairs_text by (simp add: devises_text_def)
  qed
  then show ?thesis by blast
qed

text \<open>
  C34. Every class the page's HTML uses has a rule of its own in the page's
  style sheet: the title, the update line, the legend, the statistics container
  and, whatever Yahoo Finance answers, the results table with its pair cells
  and the three RSI classes. The time the update line shows (digits and
  separators) contains no \<open>c\<close>.
\<close>

theorem app_page_styled:
  assumes "CHR ''c'' \<notin> set current_time"
  shows "\<exists>html. render_table float_str timeframes_display (results (app_scan history)) = Returned html \<and>
     (\<forall>c \<in> set (concat (map html_classes
          ([header_html, update_info_html current_time, legend_html, results_title, html,
            stats_open_html, stats_title, stats_close_html] @ footer_markdown))).
        css_class_rule page_css c \<noteq> None)"
proof -
  have lt: "\<forall>tf \<in> set timeframes_display. CHR ''c'' \<notin> set tf"
    by (simp add: timeframes_display_def)
  have dv: "\<forall>(i, r) \<in> set (enumerate 0 (results (app_scan history))). CHR ''c'' \<notin> set (devises_text float_str i r)"
    using app_devises_text forex_pairs_text by fastforce
  from html_classes_table [OF app_scan_rsi_only lt dv] obtain html where
    html: "render_table float_str timeframes_display (results (app_scan history)) = Returned html"
    and cls: "html_classes html = ''rsi-table'' #
       concat (map (\<lambda>(i, r). ''devises-cell'' # map (\<lambda>tf. get_rsi_class (rsi_at r tf)) timeframes_display)
         (enumerate 0 (results (app_scan history))))"
    by blast
  have "set (html_classes html) \<subseteq> {''rsi-table'', ''devises-cell'', ''oversold-cell'', ''overbought-cell'', ''neutral-cell''}"
    unfolding cls using get_rsi_class_cases by fastforce
  then have "\<forall>c \<in> set (concat (map html_classes
          ([header_html, update_info_html current_time, legend_html, results_title, html,
            stats_open_html, stats_title, stats_close_html] @ footer_markdown))).
        css_class_rule page_css c \<noteq> None"
    using assms css_class_rule_used
    by (auto simp: html_classes_static html_classes_update_info)
  with html show ?thesis by blast
qed

theorem app_page_styled_witness:
  "CHR ''c'' \<notin> set ''2025-01-01 10:00:00'' \<and>
   (\<exists>html. render_table (\<lambda>v. ''nan'') timeframes_display (results (app_scan flat_history)) = Returned html \<and>
     css_class_rule page_css ''rsi-table'' \<noteq> None)"
proof -
  have h: "CHR ''c'' \<notin> set ''2025-01-01 10:00:00''" by simp
  from app_page_styled [OF h, of "\<lambda>v. ''nan''" flat_history] obtain html where
    "render_table (\<lambda>v. ''nan'') timeframes_display (results (app_scan flat_history)) = Returned html"
    by blast
  moreover have "css_class_rule page_css ''rsi-table'' \<noteq> None" by (simp add: css_class_rule_def page_css_def)
  ultimately show ?thesis using h by blast
qed

end
